theory Spec2Isabelle
  imports Main "HOL-Library.Word"
begin

section \<open>Backup and upload tool: a shallow embedding of \<open>backup_tool.py\<close>\<close>

text \<open>
  Python strings are modelled as \<open>string\<close> (lists of 8-bit characters, read as the code
  points 0..255), Python's unbounded integers as \<open>int\<close>, file contents as lists of bytes.
  Everything the program does beyond computing a value is written to an explicit world:
  the files on disk, the pending lines of standard input and the list of effects performed
  so far. Exceptions that end the run are values of the type \<open>error\<close>.
\<close>

type_synonym byte = "8 word"

subsection \<open>String helpers of the Python runtime\<close>

text \<open>\<open>str.isspace\<close> on the code points 0..255: the characters \<open>str.strip()\<close> removes.\<close>

definition py_isspace :: "char \<Rightarrow> bool" where
  "py_isspace c = ((of_char c :: nat) \<in> {9, 10, 11, 12, 13, 28, 29, 30, 31, 32, 133, 160})"

definition py_lstrip :: "string \<Rightarrow> string" where
  "py_lstrip s = dropWhile py_isspace s"

definition py_rstrip :: "string \<Rightarrow> string" where
  "py_rstrip s = rev (dropWhile py_isspace (rev s))"

definition py_strip :: "string \<Rightarrow> string" where
  "py_strip s = py_rstrip (py_lstrip s)"

text \<open>\<open>s.strip(c)\<close> for a one-character argument.\<close>

definition py_strip_char :: "char \<Rightarrow> string \<Rightarrow> string" where
  "py_strip_char c s = rev (dropWhile (\<lambda>x. x = c) (rev (dropWhile (\<lambda>x. x = c) s)))"

text \<open>\<open>s.split(c)\<close> for a one-character separator: the fields between the separators.\<close>

fun py_split :: "char \<Rightarrow> string \<Rightarrow> string list" where
  "py_split c [] = [[]]"
| "py_split c (x # xs) =
     (if x = c then [] # py_split c xs
      else case py_split c xs of f # fs \<Rightarrow> (x # f) # fs | [] \<Rightarrow> [[x]])"

text \<open>\<open>s.split(c, 1)\<close> when \<open>c\<close> occurs in \<open>s\<close>: the text before and after the first \<open>c\<close>.\<close>

definition py_split1 :: "char \<Rightarrow> string \<Rightarrow> string \<times> string" where
  "py_split1 c s = (takeWhile (\<lambda>x. x \<noteq> c) s, drop 1 (dropWhile (\<lambda>x. x \<noteq> c) s))"

text \<open>\<open>sep.join(xs)\<close>.\<close>

fun py_join :: "string \<Rightarrow> string list \<Rightarrow> string" where
  "py_join sep [] = []"
| "py_join sep [x] = x"
| "py_join sep (x # y # ys) = x @ sep @ py_join sep (y # ys)"

definition startswith :: "string \<Rightarrow> string \<Rightarrow> bool" where
  "startswith s p = (take (length p) s = p)"

definition endswith :: "string \<Rightarrow> string \<Rightarrow> bool" where
  "endswith s p = (length p \<le> length s \<and> drop (length s - length p) s = p)"

text \<open>
  \<open>str.lower\<close> restricted to the letters A..Z. The program compares lowered strings with
  ASCII words only, and no other code point below 256 lowers to an ASCII letter.
\<close>

definition ascii_lower :: "char \<Rightarrow> char" where
  "ascii_lower c =
     (let n = (of_char c :: nat) in if 65 \<le> n \<and> n \<le> 90 then char_of (n + 32) else c)"

text \<open>The regular expression class \<open>\d\<close> on the code points 0..255 is \<open>0\<close>..\<open>9\<close>.\<close>

definition is_digit :: "char \<Rightarrow> bool" where
  "is_digit c = (c \<in> set ''0123456789'')"

definition digit_val :: "char \<Rightarrow> nat" where
  "digit_val c = of_char c - 48"

text \<open>\<open>int(ds)\<close> for a string of decimal digits.\<close>

definition dec_val :: "string \<Rightarrow> nat" where
  "dec_val ds = foldl (\<lambda>a c. 10 * a + digit_val c) 0 ds"

text \<open>
  \<open>int(s)\<close> for a string: surrounding white space, an optional sign, then decimal digits
  in groups separated by single underscores. \<open>None\<close> stands for the \<open>ValueError\<close>.
\<close>

definition py_int :: "string \<Rightarrow> int option" where
  "py_int s =
     (let t = py_strip s;
          neg = (t \<noteq> [] \<and> hd t = CHR ''-'');
          body = (if t \<noteq> [] \<and> (hd t = CHR ''-'' \<or> hd t = CHR ''+'') then tl t else t)
      in if list_all (\<lambda>g. g \<noteq> [] \<and> list_all is_digit g) (py_split (CHR ''_'') body)
         then Some ((if neg then - 1 else 1) * int (dec_val (filter (\<lambda>c. c \<noteq> CHR ''_'') body)))
         else None)"

definition digit_char :: "nat \<Rightarrow> char" where
  "digit_char d = char_of (48 + d)"

text \<open>\<open>str(n)\<close> for a natural number, and for an integer.\<close>

fun dec_str :: "nat \<Rightarrow> string" where
  "dec_str n = (if n < 10 then [digit_char n] else dec_str (n div 10) @ [digit_char (n mod 10)])"

definition py_str_int :: "int \<Rightarrow> string" where
  "py_str_int i = (if i < 0 then CHR ''-'' # dec_str (nat (- i)) else dec_str (nat i))"

text \<open>The format specification \<open>{idx:03d}\<close>: decimal, zero-padded to a minimum width of 3.\<close>

definition fmt_03d :: "nat \<Rightarrow> string" where
  "fmt_03d n = replicate (3 - length (dec_str n)) (CHR ''0'') @ dec_str n"

subsection \<open>Small pure helpers of the program\<close>

text \<open>
  \<open>_size_re = re.compile(r"^(\d+)([kKmMgG])$")\<close>; \<open>_size_re.match(t)\<close> returns the two
  groups. In Python \<open>$\<close> also matches just before one trailing newline.
\<close>

definition size_re_match :: "string \<Rightarrow> (string \<times> char) option" where
  "size_re_match t =
     (let t' = (if t \<noteq> [] \<and> last t = CHR 0x0A then butlast t else t)
      in if t' = [] then None
         else let ds = butlast t'; u = last t'
              in if ds \<noteq> [] \<and> list_all is_digit ds \<and> u \<in> set ''kKmMgG''
                 then Some (ds, u) else None)"

definition parse_split_size :: "string \<Rightarrow> int option" where
  "parse_split_size s =
     (if s = [] then None
      else case size_re_match (py_strip s) of
             None \<Rightarrow> None
           | Some (ds, u) \<Rightarrow>
               (let n = int (dec_val ds); unit = ascii_lower u
                in if unit = CHR ''k'' then Some (n * 1024)
                   else if unit = CHR ''m'' then Some (n * 1024 * 1024)
                   else if unit = CHR ''g'' then Some (n * 1024 * 1024 * 1024)
                   else None))"

text \<open>\<open>_parse_bool\<close>, for the string values the configuration loader passes.\<close>

definition parse_bool :: "string \<Rightarrow> int" where
  "parse_bool v =
     (let s = map ascii_lower (py_strip v)
      in if s \<in> set [''1'', ''true'', ''yes'', ''on'', ''y'', ''t''] then 1
         else if s \<in> set [''0'', ''false'', ''no'', ''off'', ''n'', ''f'', ''''] then 0
         else case py_int s of Some i \<Rightarrow> (if i \<noteq> 0 then 1 else 0) | None \<Rightarrow> 0)"

text \<open>\<open>shlex_quote\<close>: the safe characters are those of \<open>[A-Za-z0-9_@%+=:,./-]\<close>.\<close>

definition shell_safe :: "char \<Rightarrow> bool" where
  "shell_safe c =
     (let n = (of_char c :: nat)
      in (65 \<le> n \<and> n \<le> 90) \<or> (97 \<le> n \<and> n \<le> 122) \<or> (48 \<le> n \<and> n \<le> 57)
         \<or> c \<in> set ''_@%+=:,./-'')"

definition shlex_quote :: "string \<Rightarrow> string" where
  "shlex_quote s =
     (if s \<noteq> [] \<and> list_all shell_safe s then s
      else [CHR 0x27] @ concat (map (\<lambda>c. if c = CHR 0x27 then [CHR 0x27, CHR 0x5C, CHR 0x27, CHR 0x27] else [c]) s)
           @ [CHR 0x27])"

definition build_zip_exclude_args :: "string list \<Rightarrow> string list" where
  "build_zip_exclude_args patterns = (if patterns = [] then [] else ''-x'' # patterns)"

definition build_tar_exclude_args :: "string list \<Rightarrow> string list" where
  "build_tar_exclude_args patterns = map (\<lambda>p. ''--exclude='' @ p) patterns"

subsection \<open>The world: files, effects, external programs\<close>

text \<open>A command line handed to the shell, or an argument vector started directly.\<close>

datatype cmd = Shell string | Argv "string list"

text \<open>
  The lines the program logs, one constructor for each \<open>log(...)\<close> call of the source,
  holding the values the message is built from.
\<close>

datatype logmsg =
    DryRunCmd string
  | ExecError
  | ConfigMissing string
  | SourceMissing string
  | LogFileIs string
  | DryRunBanner
  | DryRunSettings string int int
  | DryRunOutput string string
  | DryRunSplitUpload string string string
  | DryRunExcludes nat
  | DryRunItem string string
  | ZipVerifyOk
  | ZipCorrupt
  | GzipCorrupt
  | SplitInvalid
  | SplitStart string
  | SplitKept
  | SplitWholeRemoved
  | SplitParts string
  | ArchiveReady string
  | ChecksumMade string
  | ChecksumSkipped
  | DryRunChecksum string string
  | SummaryWritten string
  | UploadUsing string string
  | Attempt int int
  | RcloneVerified
  | UnsupportedTool string
  | UploadOk string string
  | LocalRemoved string
  | UploadFailed string
  | UploadExhausted int
  | TelegramEnvMissing
  | CurlMissing
  | EmailToMissing
  | MailMissing
  | DryRunPlugin string string "string list"
  | PluginError
  | PluginNotFound string string

text \<open>
  What the program does to its surroundings, in the order it does it. \<open>Log\<close> is a call of
  \<open>log\<close> (a line on standard output, appended to the log file once that is set);
  \<open>Exec\<close> is an external program started by \<open>subprocess\<close>; \<open>ExecEnv\<close> is a plugin
  started with the given argument vector and environment; \<open>RunPlugins\<close> marks an entry
  into \<open>run_plugins\<close> with its event and status.
\<close>

datatype effect =
    Log logmsg
  | Print string
  | Input string
  | Exec cmd
  | ExecEnv "string list" "(string \<times> string) list"
  | Mkdir string
  | WriteFile string "byte list"
  | RemoveFile string
  | Sleep int
  | RunPlugins string string

record world =
  files :: "string \<rightharpoonup> byte list"
  dirs :: "string set"
  xfiles :: "string set"
  stdin :: "string list"
  effects :: "effect list"

datatype error =
    SystemExit string
  | FileNotFoundError string
  | FileExistsError string
  | ValueError string
  | OSError string
  | EOFError

text \<open>
  A computation that may end the run returns \<open>Inl\<close> with the exception and the world
  as it was when the exception was raised, or \<open>Inr\<close> with its value.
\<close>

type_synonym 'a result = "(error \<times> world) + 'a"

text \<open>The content of the summary file before serialisation.\<close>

record summary =
  s_timestamp :: string
  s_output :: string
  s_archive :: string
  s_size :: string
  s_files :: "string list"

text \<open>
  Everything outside the repository is a parameter: which programs are installed, what an
  external program does to the world and returns (\<open>None\<close> when starting it raised), the
  process environment, the clock, and the library functions \<open>pathlib\<close>, \<open>hashlib\<close>,
  \<open>json\<close> and the text codec. The effect list of the world an external program returns is
  ignored: the program cannot rewrite what has happened.
\<close>

record env =
  which :: "string \<Rightarrow> bool"
  proc :: "cmd \<Rightarrow> world \<Rightarrow> int option \<times> world"
  proc_out :: "cmd \<Rightarrow> world \<Rightarrow> string option \<times> world"
  plugin_proc :: "string list \<Rightarrow> (string \<times> string) list \<Rightarrow> world \<Rightarrow> int option \<times> world"
  environ :: "(string \<times> string) list"
  sys_executable :: string
  home :: string
  cwd :: string
  ts_name :: string
  now_stamp :: string
  path_join :: "string \<Rightarrow> string \<Rightarrow> string"
  path_name :: "string \<Rightarrow> string"
  sha256_hex :: "byte list \<Rightarrow> string"
  json_dump :: "summary \<Rightarrow> byte list"
  decode_text :: "byte list \<Rightarrow> string"
  encode_text :: "string \<Rightarrow> byte list"

definition command_exists :: "env \<Rightarrow> string \<Rightarrow> bool" where
  "command_exists e c = which e c"

definition path_exists :: "world \<Rightarrow> string \<Rightarrow> bool" where
  "path_exists w p = (p \<in> dom (files w) \<or> p \<in> dirs w)"

definition is_file :: "world \<Rightarrow> string \<Rightarrow> bool" where
  "is_file w p = (p \<in> dom (files w))"

definition add_effect :: "effect \<Rightarrow> world \<Rightarrow> world" where
  "add_effect x w = w\<lparr>effects := effects w @ [x]\<rparr>"

definition log :: "logmsg \<Rightarrow> world \<Rightarrow> world" where
  "log m w = add_effect (Log m) w"

text \<open>\<open>subprocess.call\<close>: the program runs, and the call is recorded.\<close>

definition subprocess_call :: "env \<Rightarrow> cmd \<Rightarrow> world \<Rightarrow> int option \<times> world" where
  "subprocess_call e c w =
     (case proc e c w of (rc, w') \<Rightarrow> (rc, w'\<lparr>effects := effects w @ [Exec c]\<rparr>))"

text \<open>\<open>subprocess.check_output\<close>: the output when the program ran and exited with 0.\<close>

definition check_output :: "env \<Rightarrow> cmd \<Rightarrow> world \<Rightarrow> string option \<times> world" where
  "check_output e c w =
     (case proc_out e c w of (out, w') \<Rightarrow> (out, w'\<lparr>effects := effects w @ [Exec c]\<rparr>))"

text \<open>\<open>input(prompt)\<close>: the next line of standard input, \<open>EOFError\<close> when there is none.\<close>

definition py_input :: "string \<Rightarrow> world \<Rightarrow> (string \<times> world) result" where
  "py_input prompt w =
     (case stdin w of
        [] \<Rightarrow> Inl (EOFError, w)
      | l # ls \<Rightarrow> Inr (l, add_effect (Input prompt) (w\<lparr>stdin := ls\<rparr>)))"

text \<open>
  \<open>Path(p).mkdir(parents=True, exist_ok=True)\<close>: fails when \<open>p\<close> is a regular file.
\<close>

definition mkdir_p :: "string \<Rightarrow> world \<Rightarrow> world result" where
  "mkdir_p p w =
     (if p \<in> dom (files w) then Inl (FileExistsError p, w)
      else Inr (add_effect (Mkdir p) (w\<lparr>dirs := insert p (dirs w)\<rparr>)))"

text \<open>Opening a file for writing and writing \<open>data\<close>; the write is taken to succeed.\<close>

definition write_file :: "string \<Rightarrow> byte list \<Rightarrow> world \<Rightarrow> world" where
  "write_file p data w = add_effect (WriteFile p data) (w\<lparr>files := (files w)(p \<mapsto> data)\<rparr>)"

text \<open>\<open>os.remove(p)\<close>: \<open>None\<close> when it raises because \<open>p\<close> is not a file.\<close>

definition os_remove :: "string \<Rightarrow> world \<Rightarrow> world option" where
  "os_remove p w =
     (if p \<in> dom (files w)
      then Some (add_effect (RemoveFile p) (w\<lparr>files := (files w)(p := None)\<rparr>))
      else None)"

text \<open>The lines a text file is iterated by, each with its terminator.\<close>

fun file_lines :: "string \<Rightarrow> string list" where
  "file_lines [] = []"
| "file_lines (x # xs) =
     (if x = CHR 0x0A then [x] # file_lines xs
      else case file_lines xs of [] \<Rightarrow> [[x]] | l # ls \<Rightarrow> (x # l) # ls)"

definition try_bind :: "'a result \<Rightarrow> ('a \<Rightarrow> 'b result) \<Rightarrow> 'b result" where
  "try_bind m f = (case m of Inl e \<Rightarrow> Inl e | Inr x \<Rightarrow> f x)"

subsection \<open>The module's global variables\<close>

text \<open>
  The module keeps its configuration in global variables, which the configuration loader
  assigns by name through \<open>globals()[k]\<close>. The string-valued ones are \<open>strs\<close>, the
  integer-valued ones (all flags, 0 or 1) are \<open>ints\<close>, both indexed by the variable's
  name; the lists are fields. \<open>UPLOAD_RETRY\<close> starts as the integer 3 and is a string once
  assigned; it is only read through \<open>int(UPLOAD_RETRY or 3)\<close>, so the string \<open>3\<close> stands
  for its initial value.
\<close>

record globals =
  strs :: "string \<Rightarrow> string"
  ints :: "string \<Rightarrow> int"
  EXCLUDES :: "string list"
  SOURCES :: "string list"
  NOTIFY_TARGETS :: "string list"
  SELECTED_PATHS :: "string list"

abbreviation "START_DIR g \<equiv> strs g ''START_DIR''"
abbreviation "DEST_DIR g \<equiv> strs g ''DEST_DIR''"
abbreviation "ARCHIVE_FORMAT g \<equiv> strs g ''ARCHIVE_FORMAT''"
abbreviation "SPLIT_SIZE g \<equiv> strs g ''SPLIT_SIZE''"
abbreviation "OUT_NAME g \<equiv> strs g ''OUT_NAME''"
abbreviation "ZIP_PASSWORD g \<equiv> strs g ''ZIP_PASSWORD''"
abbreviation "EXCLUDE_FILE g \<equiv> strs g ''EXCLUDE_FILE''"
abbreviation "UPLOAD_TARGET g \<equiv> strs g ''UPLOAD_TARGET''"
abbreviation "UPLOAD_TOOL g \<equiv> strs g ''UPLOAD_TOOL''"
abbreviation "UPLOAD_RETRY g \<equiv> strs g ''UPLOAD_RETRY''"
abbreviation "PLUGINS_DIR g \<equiv> strs g ''PLUGINS_DIR''"
abbreviation "NOTIFY_CONFIG g \<equiv> strs g ''NOTIFY_CONFIG''"
abbreviation "SUMMARY_DIR g \<equiv> strs g ''SUMMARY_DIR''"
abbreviation "CHECKSUM_DIR g \<equiv> strs g ''CHECKSUM_DIR''"
abbreviation "LOG_FILE g \<equiv> strs g ''LOG_FILE''"
abbreviation "OUT_DIR g \<equiv> strs g ''OUT_DIR''"
abbreviation "BASE g \<equiv> strs g ''BASE''"
abbreviation "SUMMARY_JSON g \<equiv> strs g ''SUMMARY_JSON''"
abbreviation "FINAL_STATUS g \<equiv> strs g ''FINAL_STATUS''"

abbreviation "ZIP_AES g \<equiv> ints g ''ZIP_AES''"
abbreviation "USE_GPG g \<equiv> ints g ''USE_GPG''"
abbreviation "ZIP_ENCRYPT g \<equiv> ints g ''ZIP_ENCRYPT''"
abbreviation "KEEP_AFTER_SPLIT g \<equiv> ints g ''KEEP_AFTER_SPLIT''"
abbreviation "RM_AFTER_SPLIT g \<equiv> ints g ''RM_AFTER_SPLIT''"
abbreviation "NO_UI g \<equiv> ints g ''NO_UI''"
abbreviation "AFTER_UPLOAD_RM g \<equiv> ints g ''AFTER_UPLOAD_RM''"
abbreviation "DRY_RUN g \<equiv> ints g ''DRY_RUN''"
abbreviation "MAKE_CHECKSUM g \<equiv> ints g ''MAKE_CHECKSUM''"
abbreviation "MAKE_SUMMARY g \<equiv> ints g ''MAKE_SUMMARY''"

definition set_str :: "string \<Rightarrow> string \<Rightarrow> globals \<Rightarrow> globals" where
  "set_str k v g = g\<lparr>strs := (strs g)(k := v)\<rparr>"

definition set_int :: "string \<Rightarrow> int \<Rightarrow> globals \<Rightarrow> globals" where
  "set_int k v g = g\<lparr>ints := (ints g)(k := v)\<rparr>"

text \<open>The values the module assigns when it is loaded.\<close>

definition default_globals :: "env \<Rightarrow> globals" where
  "default_globals e =
     \<lparr> strs = (\<lambda>k. [])
          (''START_DIR'' := cwd e, ''DEST_DIR'' := home e, ''ARCHIVE_FORMAT'' := ''zip'',
           ''UPLOAD_TOOL'' := ''auto'', ''UPLOAD_RETRY'' := ''3'',
           ''PLUGINS_DIR'' := ''./plugins.d'', ''FINAL_STATUS'' := ''success''),
       ints = (\<lambda>k. 0)(''PAGE_SIZE'' := 10, ''KEEP_AFTER_SPLIT'' := 1),
       EXCLUDES = [], SOURCES = [], NOTIFY_TARGETS = [], SELECTED_PATHS = [] \<rparr>"

text \<open>\<open>run_or_echo\<close>: in dry-run mode the command is only logged.\<close>

definition run_or_echo :: "globals \<Rightarrow> env \<Rightarrow> string \<Rightarrow> world \<Rightarrow> int \<times> world" where
  "run_or_echo g e c w =
     (if DRY_RUN g \<noteq> 0 then (0, log (DryRunCmd c) w)
      else case subprocess_call e (Shell c) w of
             (Some rc, w') \<Rightarrow> (rc, w')
           | (None, w') \<Rightarrow> (1, log ExecError w'))"

subsection \<open>The configuration loader\<close>

definition CFG_BOOL_KEYS :: "string list" where
  "CFG_BOOL_KEYS =
     [''ZIP_AES'', ''USE_GPG'', ''ZIP_ENCRYPT'', ''KEEP_AFTER_SPLIT'', ''RM_AFTER_SPLIT'', ''NO_UI'',
      ''AFTER_UPLOAD_RM'', ''DRY_RUN'', ''MAKE_CHECKSUM'', ''MAKE_SUMMARY'']"

definition CFG_STR_KEYS :: "string list" where
  "CFG_STR_KEYS =
     [''START_DIR'', ''DEST_DIR'', ''ARCHIVE_FORMAT'', ''SPLIT_SIZE'', ''OUT_NAME'', ''ZIP_PASSWORD'',
      ''EXCLUDE_FILE'', ''UPLOAD_TARGET'', ''UPLOAD_TOOL'', ''UPLOAD_RETRY'', ''PLUGINS_DIR'',
      ''NOTIFY_CONFIG'', ''EMAIL_TO'', ''EMAIL_SUBJECT'', ''TELEGRAM_BOT_TOKEN'', ''TELEGRAM_CHAT_ID'',
      ''SUMMARY_DIR'', ''CHECKSUM_DIR'']"

text \<open>\<open>[p.strip() for p in raw.split(',') if p.strip()]\<close>\<close>

definition csv_items :: "string \<Rightarrow> string list" where
  "csv_items raw = filter (\<lambda>p. p \<noteq> []) (map py_strip (py_split (CHR '','') raw))"

definition add_excludes_from_arg :: "string \<Rightarrow> globals \<Rightarrow> globals" where
  "add_excludes_from_arg raw g =
     (if raw = [] then g else g\<lparr>EXCLUDES := EXCLUDES g @ csv_items raw\<rparr>)"

text \<open>The body of the loop of \<open>load_config_file\<close>: what one line of the file does.\<close>

definition config_line :: "string \<Rightarrow> globals \<Rightarrow> globals" where
  "config_line line g =
     (if py_strip line = [] \<or> startswith (py_lstrip line) ''#'' then g
      else if CHR ''='' \<notin> set line then g
      else let (k0, v0) = py_split1 (CHR ''='') line;
               k = py_strip k0;
               v = py_strip_char (CHR 0x27) (py_strip_char (CHR 0x22) (py_strip v0))
           in if k \<in> set CFG_STR_KEYS then set_str k v g
              else if k \<in> set CFG_BOOL_KEYS then set_int k (parse_bool v) g
              else if k = ''EXCLUDES'' then add_excludes_from_arg v g
              else if k = ''SOURCES'' then g\<lparr>SOURCES := SOURCES g @ csv_items v\<rparr>
              else if k = ''NOTIFY'' then g\<lparr>NOTIFY_TARGETS := NOTIFY_TARGETS g @ csv_items v\<rparr>
              else g)"

definition config_lines :: "string list \<Rightarrow> globals \<Rightarrow> globals" where
  "config_lines ls g = foldl (\<lambda>g l. config_line l g) g ls"

definition load_config_file :: "env \<Rightarrow> string \<Rightarrow> globals \<times> world \<Rightarrow> globals \<times> world" where
  "load_config_file e file gw =
     (case gw of (g, w) \<Rightarrow>
        if file = [] \<or> \<not> is_file w file then (g, log (ConfigMissing file) w)
        else (config_lines (file_lines (decode_text e (the (files w file)))) g, w))"

text \<open>
  The namespace \<open>argparse\<close> returns: \<open>None\<close> is an option that was not given, the
  \<open>store_true\<close> flags are booleans, the \<open>append\<close> options are lists (empty when not
  given), and the two on/off pairs are \<open>None\<close> (the default 0), \<open>Some True\<close> or
  \<open>Some False\<close>.
\<close>

record args =
  arg_ARCHIVE_FORMAT :: "string option"
  arg_OUT_NAME :: "string option"
  arg_ZIP_AES :: bool
  arg_ZIP_ENCRYPT :: bool
  arg_ZIP_PASSWORD :: "string option"
  arg_USE_GPG :: bool
  arg_SPLIT_SIZE :: "string option"
  arg_KEEP_AFTER_SPLIT :: bool
  arg_RM_AFTER_SPLIT :: bool
  arg_EXCLUDES :: "string list"
  arg_EXCLUDE_FILE :: "string option"
  arg_UPLOAD_TARGET :: "string option"
  arg_UPLOAD_TOOL :: "string option"
  arg_AFTER_UPLOAD_RM :: bool
  arg_UPLOAD_RETRY :: "string option"
  arg_START_DIR :: "string option"
  arg_DEST_DIR :: "string option"
  arg_NO_UI :: bool
  arg_SOURCES :: "string list"
  arg_CONFIG_FILE :: "string option"
  arg_DRY_RUN :: bool
  arg_NOTIFY_TARGETS :: "string list"
  arg_NOTIFY_CONFIG :: "string option"
  arg_PLUGINS_DIR :: "string option"
  arg_SUMMARY_DIR :: "string option"
  arg_CHECKSUM_DIR :: "string option"
  arg_MAKE_SUMMARY :: "bool option"
  arg_MAKE_CHECKSUM :: "bool option"

text \<open>\<open>if args.X: X = args.X\<close> for a string option, \<open>if args.X: X = 1\<close> for a flag.\<close>

definition given :: "string option \<Rightarrow> bool" where
  "given a = (case a of None \<Rightarrow> False | Some v \<Rightarrow> v \<noteq> [])"

definition take_str :: "string \<Rightarrow> string option \<Rightarrow> globals \<Rightarrow> globals" where
  "take_str k a g = (if given a then set_str k (the a) g else g)"

definition take_flag :: "string \<Rightarrow> bool \<Rightarrow> globals \<Rightarrow> globals" where
  "take_flag k b g = (if b then set_int k 1 g else g)"

definition apply_args :: "env \<Rightarrow> args \<Rightarrow> globals \<times> world \<Rightarrow> globals \<times> world" where
  "apply_args e a gw =
     (let (g0, w) = (if given (arg_CONFIG_FILE a)
                     then load_config_file e (the (arg_CONFIG_FILE a))
                            (set_str ''CONFIG_FILE'' (the (arg_CONFIG_FILE a)) (fst gw), snd gw)
                     else gw);
          g1 = take_str ''START_DIR'' (arg_START_DIR a) g0;
          g2 = take_str ''DEST_DIR'' (arg_DEST_DIR a) g1;
          g3 = (if given (arg_ARCHIVE_FORMAT a)
                then set_str ''ARCHIVE_FORMAT''
                       (if the (arg_ARCHIVE_FORMAT a) = ''tar.gz'' then ''tgz''
                        else the (arg_ARCHIVE_FORMAT a)) g2
                else g2);
          g4 = take_flag ''ZIP_AES'' (arg_ZIP_AES a) g3;
          g5 = take_flag ''USE_GPG'' (arg_USE_GPG a) g4;
          g6 = take_str ''SPLIT_SIZE'' (arg_SPLIT_SIZE a) g5;
          g7 = take_str ''OUT_NAME'' (arg_OUT_NAME a) g6;
          g8 = take_flag ''ZIP_ENCRYPT'' (arg_ZIP_ENCRYPT a) g7;
          g9 = take_str ''ZIP_PASSWORD'' (arg_ZIP_PASSWORD a) g8;
          g10 = take_flag ''KEEP_AFTER_SPLIT'' (arg_KEEP_AFTER_SPLIT a) g9;
          g11 = take_flag ''RM_AFTER_SPLIT'' (arg_RM_AFTER_SPLIT a) g10;
          g12 = take_str ''EXCLUDE_FILE'' (arg_EXCLUDE_FILE a) g11;
          g13 = take_flag ''NO_UI'' (arg_NO_UI a) g12;
          g14 = g13\<lparr>SOURCES := SOURCES g13 @ filter (\<lambda>s. s \<noteq> []) (arg_SOURCES a)\<rparr>;
          g15 = take_str ''UPLOAD_TARGET'' (arg_UPLOAD_TARGET a) g14;
          g16 = take_str ''UPLOAD_TOOL'' (arg_UPLOAD_TOOL a) g15;
          g17 = take_flag ''AFTER_UPLOAD_RM'' (arg_AFTER_UPLOAD_RM a) g16;
          g18 = take_str ''UPLOAD_RETRY'' (arg_UPLOAD_RETRY a) g17;
          g19 = take_flag ''DRY_RUN'' (arg_DRY_RUN a) g18;
          g20 = take_str ''PLUGINS_DIR'' (arg_PLUGINS_DIR a) g19;
          g21 = take_str ''NOTIFY_CONFIG'' (arg_NOTIFY_CONFIG a) g20;
          g22 = g21\<lparr>NOTIFY_TARGETS :=
                       NOTIFY_TARGETS g21 @ concat (map csv_items (arg_NOTIFY_TARGETS a))\<rparr>;
          g23 = foldl (\<lambda>g raw. add_excludes_from_arg raw g) g22 (arg_EXCLUDES a);
          g24 = take_str ''SUMMARY_DIR'' (arg_SUMMARY_DIR a) g23;
          g25 = take_str ''CHECKSUM_DIR'' (arg_CHECKSUM_DIR a) g24;
          g26 = (if arg_MAKE_CHECKSUM a = Some False then set_int ''MAKE_CHECKSUM'' 0 g25 else g25);
          g27 = (if arg_MAKE_SUMMARY a = Some False then set_int ''MAKE_SUMMARY'' 0 g26 else g26);
          g28 = (if KEEP_AFTER_SPLIT g27 \<noteq> 0 \<and> RM_AFTER_SPLIT g27 \<noteq> 0
                 then set_int ''RM_AFTER_SPLIT'' 0 g27 else g27)
      in (g28, w))"

subsection \<open>Exclude patterns, splitting, sizes\<close>

definition collect_exclude_patterns :: "globals \<Rightarrow> env \<Rightarrow> world \<Rightarrow> string list" where
  "collect_exclude_patterns g e w =
     EXCLUDES g @
     (if EXCLUDE_FILE g \<noteq> [] \<and> is_file w (EXCLUDE_FILE g)
      then filter (\<lambda>s. s \<noteq> [] \<and> \<not> startswith s ''#'')
             (map py_strip (file_lines (decode_text e (the (files w (EXCLUDE_FILE g))))))
      else [])"

text \<open>\<open>src.read(n)\<close> on what is left of the file: everything when \<open>n\<close> is negative.\<close>

definition py_read :: "int \<Rightarrow> byte list \<Rightarrow> byte list" where
  "py_read n rest = (if n < 0 then rest else take (nat n) rest)"

text \<open>
  The loop of \<open>do_python_split\<close>. \<open>rest\<close> is the part of the source file not read yet;
  the chunk files are taken not to be the source file itself.
\<close>

function split_loop ::
  "int \<Rightarrow> string \<Rightarrow> nat \<Rightarrow> byte list \<Rightarrow> string list \<Rightarrow> world \<Rightarrow> string list \<times> world" where
  "split_loop chunk_bytes prefix idx rest parts w =
     (let chunk = py_read chunk_bytes rest
      in if chunk = [] then (parts, w)
         else let out = prefix @ fmt_03d idx
              in split_loop chunk_bytes prefix (idx + 1) (drop (length chunk) rest)
                   (parts @ [out]) (write_file out chunk w))"
  by pat_completeness auto
termination
  by (relation "measure (\<lambda>(c, p, i, rest, ps, w). length rest)")
     (auto simp: py_read_def split: if_splits)

definition do_python_split ::
  "string \<Rightarrow> string \<Rightarrow> int \<Rightarrow> world \<Rightarrow> (string list \<times> world) result" where
  "do_python_split path prefix chunk_bytes w =
     (case files w path of
        None \<Rightarrow> Inl (FileNotFoundError path, w)
      | Some data \<Rightarrow> Inr (split_loop chunk_bytes prefix 0 data [] w))"

text \<open>
  \<open>human_total_size\<close>. The sizes are added as integers; each pass of the loop divides by
  1024.0, which is exact in binary floating point below \<open>2^53\<close> bytes, so the value
  formatted is the fraction \<open>n / m\<close> with \<open>m\<close> a power of 1024. \<open>:.1f\<close> rounds it to
  tenths, a tie to the even neighbour. A path that is not a regular file adds nothing.
\<close>

definition fmt_1f :: "nat \<Rightarrow> nat \<Rightarrow> string" where
  "fmt_1f n m =
     (let t = 10 * n; q = t div m; r = t mod m;
          tenths = (if 2 * r > m then q + 1 else if 2 * r < m then q
                    else if even q then q else q + 1)
      in dec_str (tenths div 10) @ ''.'' @ dec_str (tenths mod 10))"

fun human_loop :: "nat \<Rightarrow> nat \<Rightarrow> string list \<Rightarrow> string" where
  "human_loop n m [] = []"
| "human_loop n m (u # us) =
     (if n < 1024 * m \<or> u = ''TB'' then fmt_1f n m @ '' '' @ u
      else human_loop n (1024 * m) us)"

definition human_total_size :: "world \<Rightarrow> string list \<Rightarrow> string" where
  "human_total_size w fs =
     human_loop (sum_list (map (\<lambda>f. case files w f of Some d \<Rightarrow> length d | None \<Rightarrow> 0) fs)) 1
       [''B'', ''KB'', ''MB'', ''GB'', ''TB'']"

subsection \<open>\<open>make_archive\<close>\<close>

text \<open>\<open>os.path.basename\<close>, and the first field of \<open>bytes.split()\<close>.\<close>

definition basename :: "string \<Rightarrow> string" where
  "basename p = rev (takeWhile (\<lambda>c. c \<noteq> CHR ''/'') (rev p))"

definition ascii_space :: "char \<Rightarrow> bool" where
  "ascii_space c = ((of_char c :: nat) \<in> {9, 10, 11, 12, 13, 32})"

definition first_field :: "string \<Rightarrow> string" where
  "first_field s = takeWhile (\<lambda>c. \<not> ascii_space c) (dropWhile ascii_space s)"

text \<open>The size report of dry-run mode: one \<open>du -sh\<close> for each selected path.\<close>

fun dry_run_items :: "env \<Rightarrow> string list \<Rightarrow> world \<Rightarrow> world" where
  "dry_run_items e [] w = w"
| "dry_run_items e (p # ps) w =
     (case check_output e (Argv [''du'', ''-sh'', p]) w of (out, w1) \<Rightarrow>
        let size = (case out of
                      None \<Rightarrow> ''?''
                    | Some s \<Rightarrow> if first_field s = [] then ''?'' else first_field s)
        in dry_run_items e ps (log (DryRunItem (basename p) size) w1))"

definition dry_run_report :: "globals \<Rightarrow> env \<Rightarrow> string list \<Rightarrow> string list \<Rightarrow> world \<Rightarrow> world" where
  "dry_run_report g e paths patterns w =
     dry_run_items e paths
       (log (DryRunExcludes (length patterns))
         (log (DryRunSplitUpload (if SPLIT_SIZE g \<noteq> [] then SPLIT_SIZE g else ''-'')
                 (if UPLOAD_TARGET g \<noteq> [] then UPLOAD_TARGET g else ''-'') (UPLOAD_TOOL g))
           (log (DryRunOutput (OUT_DIR g) (BASE g))
             (log (DryRunSettings (ARCHIVE_FORMAT g) (ZIP_AES g) (USE_GPG g))
               (log DryRunBanner w)))))"

text \<open>The password arguments of the two \<open>7z\<close> branches; \<open>prompt\<close> is the text of \<open>input\<close>.\<close>

definition seven_password_args ::
  "globals \<Rightarrow> string \<Rightarrow> world \<Rightarrow> (string list \<times> world) result" where
  "seven_password_args g prompt w =
     (if ZIP_PASSWORD g \<noteq> [] then Inr ([''-p'' @ ZIP_PASSWORD g, ''-mhe=on''], w)
      else if ZIP_ENCRYPT g = 1
      then try_bind (py_input prompt w) (\<lambda>(pw, w'). Inr ([''-p'' @ pw, ''-mhe=on''], w'))
      else Inr ([], w))"

text \<open>A command run through \<open>run_or_echo\<close> whose nonzero status ends the run.\<close>

definition run_or_exit ::
  "globals \<Rightarrow> env \<Rightarrow> string \<Rightarrow> string \<Rightarrow> world \<Rightarrow> world result" where
  "run_or_exit g e c msg w =
     (case run_or_echo g e c w of (rc, w') \<Rightarrow> if rc \<noteq> 0 then Inl (SystemExit msg, w') else Inr w')"

text \<open>The section \<open>Create archive\<close>: the path of the archive and the world after.\<close>

definition create_archive ::
  "globals \<Rightarrow> env \<Rightarrow> string list \<Rightarrow> string list \<Rightarrow> world \<Rightarrow> (string \<times> world) result" where
  "create_archive g e paths patterns w =
     (if ARCHIVE_FORMAT g = ''zip'' then
        (if ZIP_AES g = 1 then
           (if \<not> command_exists e ''7z'' then Inl (SystemExit ''butuh 7z untuk ZIP AES-256'', w)
            else let tmpfile = path_join e (OUT_DIR g) (BASE g @ ''.zip'')
                 in try_bind (seven_password_args g ''Password ZIP AES: '' w) (\<lambda>(pw_args, w1).
                      let seven_args = [''7z'', ''a'', ''-tzip'', ''-mem=AES256'', tmpfile] @ pw_args
                                       @ map (\<lambda>p. ''-x!'' @ p) patterns @ paths
                      in try_bind (run_or_exit g e (py_join '' '' (map shlex_quote seven_args))
                                     ''Gagal membuat ZIP AES'' w1)
                           (\<lambda>w2. Inr (tmpfile, w2))))
         else
           (if \<not> command_exists e ''zip'' then Inl (SystemExit ''butuh zip'', w)
            else let tmpfile = path_join e (OUT_DIR g) (BASE g @ ''.zip'');
                     pass_args = (if ZIP_PASSWORD g \<noteq> [] then [''-P'', ZIP_PASSWORD g]
                                  else if ZIP_ENCRYPT g = 1 then [''-e''] else []);
                     ex_args = build_zip_exclude_args patterns;
                     c = py_join '' '' (map shlex_quote
                           ([''zip'', ''-r''] @ pass_args @ [tmpfile] @ paths @ ex_args))
                 in if DRY_RUN g \<noteq> 0 then Inr (tmpfile, snd (run_or_echo g e c w))
                    else case subprocess_call e (Shell c) w of
                           (None, w1) \<Rightarrow> Inl (OSError c, w1)
                         | (Some rc, w1) \<Rightarrow>
                             if rc \<noteq> 0 then Inl (SystemExit ''Gagal membuat ZIP'', w1)
                             else (case subprocess_call e (Argv [''zip'', ''-T'', tmpfile]) w1 of
                                     (rc2, w2) \<Rightarrow>
                                       Inr (tmpfile, if rc2 = Some 0 then log ZipVerifyOk w2
                                                     else log ZipCorrupt w2))))
      else if ARCHIVE_FORMAT g = ''tgz'' \<or> ARCHIVE_FORMAT g = ''tar.gz'' then
        (if \<not> command_exists e ''tar'' then Inl (SystemExit ''butuh tar'', w)
         else let tmpfile = path_join e (OUT_DIR g) (BASE g @ ''.tar.gz'');
                  ex_args = build_tar_exclude_args patterns;
                  compressor = (if command_exists e ''pigz'' then ''pigz'' else ''gzip'');
                  tar_cmd = py_join '' '' ([''tar''] @ ex_args @ [''-cf'', ''-'', ''--'']
                                           @ map shlex_quote paths);
                  c = tar_cmd @ '' | '' @ compressor @ '' > '' @ shlex_quote tmpfile
              in try_bind (run_or_exit g e c ''Gagal membuat TGZ'' w) (\<lambda>w1.
                   if DRY_RUN g = 0 \<and> command_exists e ''gzip''
                   then (case subprocess_call e (Argv [''gzip'', ''-t'', tmpfile]) w1 of
                           (None, w2) \<Rightarrow> Inl (OSError ''gzip'', w2)
                         | (Some rc, w2) \<Rightarrow>
                             Inr (tmpfile, if rc \<noteq> 0 then log GzipCorrupt w2 else w2))
                   else Inr (tmpfile, w1)))
      else if ARCHIVE_FORMAT g = ''tar'' then
        (if \<not> command_exists e ''tar'' then Inl (SystemExit ''butuh tar'', w)
         else let tmpfile = path_join e (OUT_DIR g) (BASE g @ ''.tar'');
                  ex_args = build_tar_exclude_args patterns;
                  c = py_join '' '' (map shlex_quote
                        ([''tar''] @ ex_args @ [''-cf'', tmpfile, ''--''] @ paths))
              in try_bind (run_or_exit g e c ''Gagal membuat TAR'' w) (\<lambda>w1. Inr (tmpfile, w1)))
      else if ARCHIVE_FORMAT g = ''7z'' then
        (if \<not> command_exists e ''7z'' then Inl (SystemExit ''butuh 7z'', w)
         else let tmpfile = path_join e (OUT_DIR g) (BASE g @ ''.7z'')
              in try_bind (seven_password_args g ''Password 7z: '' w) (\<lambda>(pw_args, w1).
                   let seven_args = [''7z'', ''a'', ''-t7z'', tmpfile] @ pw_args
                                    @ map (\<lambda>p. ''-x!'' @ p) patterns @ paths
                   in try_bind (run_or_exit g e (py_join '' '' (map shlex_quote seven_args))
                                  ''Gagal membuat 7z'' w1)
                        (\<lambda>w2. Inr (tmpfile, w2))))
      else Inl (SystemExit (''format tidak didukung: '' @ ARCHIVE_FORMAT g), w))"

text \<open>The section \<open>GPG Encrypt for tar/tgz\<close>: the encrypted file, or the empty string.\<close>

definition gpg_encrypt :: "globals \<Rightarrow> env \<Rightarrow> string \<Rightarrow> world \<Rightarrow> (string \<times> world) result" where
  "gpg_encrypt g e tmpfile w =
     (if USE_GPG g = 1 \<and> ARCHIVE_FORMAT g \<in> set [''tgz'', ''tar.gz'', ''tar''] then
        (if \<not> command_exists e ''gpg'' then Inl (SystemExit ''butuh gpg untuk --gpg-encrypt'', w)
         else let encrypted_file = tmpfile @ ''.gpg''
              in try_bind (run_or_exit g e
                             (''gpg --symmetric --cipher-algo AES256 --output ''
                              @ shlex_quote encrypted_file @ '' '' @ shlex_quote tmpfile)
                             ''Gagal enkripsi GPG'' w)
                   (\<lambda>w1. Inr (encrypted_file, w1)))
      else Inr ([], w))"

text \<open>The section \<open>Split\<close>: the list \<open>files_to_upload\<close> and the world after.\<close>

definition split_stage ::
  "globals \<Rightarrow> env \<Rightarrow> string \<Rightarrow> world \<Rightarrow> (string list \<times> world) result" where
  "split_stage g e primary_out w =
     (if SPLIT_SIZE g \<noteq> [] then
        (case parse_split_size (SPLIT_SIZE g) of
           None \<Rightarrow> Inr ([primary_out], log SplitInvalid w)
         | Some b \<Rightarrow>
             if b = 0 then Inr ([primary_out], log SplitInvalid w)
             else let w1 = log (SplitStart (SPLIT_SIZE g)) w;
                      prefix = primary_out @ ''.part.''
                  in if DRY_RUN g \<noteq> 0
                     then Inr ([primary_out],
                            snd (run_or_echo g e
                                   (''(split '' @ SPLIT_SIZE g @ '' '' @ shlex_quote primary_out
                                    @ '' '' @ shlex_quote prefix @ ''NNN)'') w1))
                     else try_bind (do_python_split primary_out prefix b w1) (\<lambda>(parts, w2).
                            let (fs, w3) =
                                  (if KEEP_AFTER_SPLIT g \<noteq> 0
                                   then (parts @ [primary_out], log SplitKept w2)
                                   else if RM_AFTER_SPLIT g \<noteq> 0
                                   then (parts, case os_remove primary_out w2 of
                                                  Some w' \<Rightarrow> log SplitWholeRemoved w'
                                                | None \<Rightarrow> w2)
                                   else (parts @ [primary_out], w2))
                            in Inr (fs, log (SplitParts prefix) w3)))
      else Inr ([primary_out], log (ArchiveReady primary_out) w))"

text \<open>The section \<open>Checksum\<close>: every failure inside the loop is caught and logged.\<close>

definition checksum_one :: "globals \<Rightarrow> env \<Rightarrow> string \<Rightarrow> world \<Rightarrow> world" where
  "checksum_one g e f w =
     (case files w f of
        None \<Rightarrow> log ChecksumSkipped w
      | Some data \<Rightarrow>
          let digest = sha256_hex e data;
              chk_dir = (if CHECKSUM_DIR g \<noteq> [] then CHECKSUM_DIR g else OUT_DIR g)
          in (case mkdir_p chk_dir w of
                Inl err \<Rightarrow> log ChecksumSkipped w
              | Inr w1 \<Rightarrow>
                  let chk_path = path_join e chk_dir (path_name e f @ ''.sha256'')
                  in log (ChecksumMade chk_path)
                       (write_file chk_path
                          (encode_text e (digest @ ''  '' @ path_name e f @ [CHR 0x0A])) w1)))"

definition checksum_stage :: "globals \<Rightarrow> env \<Rightarrow> string list \<Rightarrow> world \<Rightarrow> world" where
  "checksum_stage g e fs w =
     (if MAKE_CHECKSUM g \<noteq> 0 then
        (if DRY_RUN g = 0 then foldl (\<lambda>w f. checksum_one g e f w) w fs
         else foldl (\<lambda>w f.
                let chk_dir = (if CHECKSUM_DIR g \<noteq> [] then CHECKSUM_DIR g else OUT_DIR g)
                in log (DryRunChecksum f (path_join e chk_dir (path_name e f @ ''.sha256''))) w)
              w fs)
      else w)"

text \<open>The section \<open>Summary JSON\<close>.\<close>

definition summary_stage ::
  "globals \<Rightarrow> env \<Rightarrow> string \<Rightarrow> string list \<Rightarrow> world \<Rightarrow> (globals \<times> world) result" where
  "summary_stage g e primary_out fs w =
     (let g0 = set_str ''SUMMARY_JSON'' [] g
      in if MAKE_SUMMARY g \<noteq> 0 then
           (let sum_dir = (if SUMMARY_DIR g \<noteq> [] then SUMMARY_DIR g else OUT_DIR g)
            in try_bind (mkdir_p sum_dir w) (\<lambda>w1.
                 let sj0 = path_join e sum_dir (BASE g @ ''.summary.json'');
                     sj = (if endswith sj0 ''}.json}'' then butlast sj0 else sj0);
                     size_str = (if DRY_RUN g \<noteq> 0 then ''(estimasi)'' else human_total_size w1 fs);
                     summary = \<lparr> s_timestamp = now_stamp e, s_output = OUT_DIR g,
                                 s_archive = primary_out, s_size = size_str, s_files = fs \<rparr>
                 in Inr (set_str ''SUMMARY_JSON'' sj g,
                         log (SummaryWritten sj) (write_file sj (json_dump e summary) w1))))
         else Inr (g0, w))"

definition make_archive ::
  "globals \<Rightarrow> env \<Rightarrow> string list \<Rightarrow> world
   \<Rightarrow> ((string \<times> string list) \<times> globals \<times> world) result" where
  "make_archive g e paths w =
     (if paths = [] then Inl (SystemExit ''Tidak ada item terpilih.'', w)
      else try_bind (mkdir_p (OUT_DIR g) w) (\<lambda>w0.
        let g1 = set_str ''LOG_FILE'' (path_join e (OUT_DIR g) (BASE g @ ''.log'')) g;
            w1 = log (LogFileIs (LOG_FILE g1)) w0;
            patterns = collect_exclude_patterns g1 e w1;
            w2 = (if DRY_RUN g1 \<noteq> 0 then dry_run_report g1 e paths patterns w1 else w1)
        in try_bind (create_archive g1 e paths patterns w2) (\<lambda>(tmpfile, w3).
           try_bind (gpg_encrypt g1 e tmpfile w3) (\<lambda>(encrypted_file, w4).
             let primary_out = (if encrypted_file \<noteq> [] then encrypted_file else tmpfile)
             in try_bind (split_stage g1 e primary_out w4) (\<lambda>(files_to_upload, w5).
                  let w6 = checksum_stage g1 e files_to_upload w5
                  in try_bind (summary_stage g1 e primary_out files_to_upload w6) (\<lambda>(g2, w7).
                       Inr ((primary_out, files_to_upload), g2, w7)))))))"

subsection \<open>\<open>do_upload_one\<close>\<close>

text \<open>
  The tool branch of one pass of the retry loop: \<open>None\<close> when the tool is none of the
  four the loop knows, else the status of the upload command and the world after.
\<close>

definition upload_attempt ::
  "globals \<Rightarrow> env \<Rightarrow> string \<Rightarrow> string \<Rightarrow> string \<Rightarrow> world \<Rightarrow> (int \<times> world) option" where
  "upload_attempt g e file target tool w =
     (if tool = ''rclone'' then
        (case run_or_echo g e (''rclone copy '' @ shlex_quote file @ '' '' @ shlex_quote target
                                @ '' --progress'') w of
           (rc, w1) \<Rightarrow>
             if rc = 0 \<and> DRY_RUN g = 0
             then (case subprocess_call e
                          (Argv [''rclone'', ''check'', file, target, ''--size-only'']) w1 of
                     (Some r, w2) \<Rightarrow> Some (rc, log RcloneVerified w2)
                   | (None, w2) \<Rightarrow> Some (rc, w2))
             else Some (rc, w1))
      else if tool = ''aws'' then
        Some (run_or_echo g e (''aws s3 cp '' @ shlex_quote file @ '' '' @ shlex_quote target) w)
      else if tool = ''lftp'' then
        Some (run_or_echo g e
                (''lftp -c '' @ [CHR 0x22] @ ''open '' @ [CHR 0x27] @ target @ [CHR 0x27]
                 @ ''; put -O . '' @ [CHR 0x27] @ file @ [CHR 0x27] @ ''; bye'' @ [CHR 0x22]) w)
      else if tool = ''scp'' then
        (let url = drop (length ''sftp://'') target
         in Some (run_or_echo g e (''scp '' @ shlex_quote file @ '' '' @ shlex_quote url) w))
      else None)"

text \<open>
  The retry loop \<open>while attempt <= tries\<close>. After a failed attempt the loop sleeps for
  \<open>delay\<close> and doubles it. The statuses are those of the source: 0, or 1 from either of
  its two \<open>return 1\<close>.
\<close>

function upload_loop ::
  "globals \<Rightarrow> env \<Rightarrow> string \<Rightarrow> string \<Rightarrow> string \<Rightarrow> int \<Rightarrow> int \<Rightarrow> int \<Rightarrow> world \<Rightarrow> int \<times> world" where
  "upload_loop g e file target tool tries attempt delay w =
     (if attempt \<le> tries then
        (let w1 = log (Attempt attempt tries) w
         in case upload_attempt g e file target tool w1 of
              None \<Rightarrow> (1, log (UnsupportedTool tool) w1)
            | Some (rc, w2) \<Rightarrow>
                if rc = 0 then
                  (let w3 = log (UploadOk file target) w2
                   in if AFTER_UPLOAD_RM g \<noteq> 0
                      then (0, log (LocalRemoved file)
                                 (snd (run_or_echo g e (''rm -f -- '' @ shlex_quote file) w3)))
                      else (0, w3))
                else upload_loop g e file target tool tries (attempt + 1) (delay * 2)
                       (add_effect (Sleep delay) (log (UploadFailed tool) w2)))
      else (1, log (UploadExhausted tries) w))"
  by pat_completeness auto
termination
  by (relation "measure (\<lambda>(g, e, f, t, tool, tries, attempt, d, w). nat (tries + 1 - attempt))")
     auto

text \<open>\<open>int(UPLOAD_RETRY or 3)\<close>\<close>

definition upload_tries :: "globals \<Rightarrow> int option" where
  "upload_tries g = (if UPLOAD_RETRY g = [] then Some 3 else py_int (UPLOAD_RETRY g))"

text \<open>The choice of the tool when \<open>UPLOAD_TOOL\<close> is \<open>auto\<close>.\<close>

definition auto_tool :: "env \<Rightarrow> string \<Rightarrow> string" where
  "auto_tool e target =
     (if command_exists e ''rclone'' then ''rclone''
      else if startswith target ''s3://'' \<and> command_exists e ''aws'' then ''aws''
      else if command_exists e ''lftp'' then ''lftp''
      else if startswith target ''sftp://'' then ''scp''
      else ''rclone'')"

definition do_upload_one :: "globals \<Rightarrow> env \<Rightarrow> string \<Rightarrow> world \<Rightarrow> (int \<times> world) result" where
  "do_upload_one g e file w =
     (let target = UPLOAD_TARGET g;
          tool0 = (if UPLOAD_TOOL g \<noteq> [] then UPLOAD_TOOL g else ''auto'')
      in case upload_tries g of
           None \<Rightarrow> Inl (ValueError (UPLOAD_RETRY g), w)
         | Some tries \<Rightarrow>
             if target = [] then Inr (0, w)
             else let tool = (if tool0 = ''auto'' then auto_tool e target else tool0)
                  in Inr (upload_loop g e file target tool tries 1 2
                            (log (UploadUsing tool target) w)))"

subsection \<open>Notifications and plugins\<close>

text \<open>\<open>os.environ.get(k)\<close>\<close>

definition getenv :: "env \<Rightarrow> string \<Rightarrow> string option" where
  "getenv e k = map_of (environ e) k"

definition notify_telegram :: "globals \<Rightarrow> env \<Rightarrow> string \<Rightarrow> string \<Rightarrow> string \<Rightarrow> world \<Rightarrow> world" where
  "notify_telegram g e status base archive_path w =
     (let bot = (case getenv e ''TELEGRAM_BOT_TOKEN'' of None \<Rightarrow> [] | Some v \<Rightarrow> v);
          chat_id = (case getenv e ''TELEGRAM_CHAT_ID'' of None \<Rightarrow> [] | Some v \<Rightarrow> v)
      in if bot = [] \<or> chat_id = [] then log TelegramEnvMissing w
         else let text = ''*'' @ base @ ''*'' @ [CHR 0x0A] @ ''Status: '' @ status @ [CHR 0x0A]
                         @ ''Arsip: '' @ archive_path
              in if \<not> command_exists e ''curl'' then log CurlMissing w
                 else snd (run_or_echo g e
                        (''curl -s -X POST https://api.telegram.org/bot'' @ shlex_quote bot
                         @ ''/sendMessage '' @ ''-d chat_id='' @ shlex_quote chat_id
                         @ '' -d parse_mode=Markdown -d text='' @ shlex_quote text
                         @ '' > /dev/null'') w))"

definition notify_email ::
  "globals \<Rightarrow> env \<Rightarrow> string \<Rightarrow> string \<Rightarrow> string \<Rightarrow> string \<Rightarrow> world \<Rightarrow> world" where
  "notify_email g e status base archive_path target w =
     (let email_to = (case getenv e ''EMAIL_TO'' of None \<Rightarrow> [] | Some v \<Rightarrow> v);
          subject = (case getenv e ''EMAIL_SUBJECT'' of
                       None \<Rightarrow> ''Backup '' @ base @ '': '' @ status
                     | Some v \<Rightarrow> v)
      in if email_to = [] then log EmailToMissing w
         else let body = ''Status: '' @ status @ [CHR 0x0A] @ ''Arsip: '' @ archive_path
                         @ [CHR 0x0A] @ ''Target: '' @ target
              in if command_exists e ''mail''
                 then snd (run_or_echo g e
                        (''printf %b '' @ shlex_quote body @ '' | mail -s '' @ shlex_quote subject
                         @ '' '' @ shlex_quote email_to) w)
                 else if command_exists e ''mailx''
                 then snd (run_or_echo g e
                        (''printf %b '' @ shlex_quote body @ '' | mailx -s '' @ shlex_quote subject
                         @ '' '' @ shlex_quote email_to) w)
                 else log MailMissing w)"

text \<open>\<open>os.path.join\<close> of two components.\<close>

definition os_path_join :: "string \<Rightarrow> string \<Rightarrow> string" where
  "os_path_join a b =
     (if startswith b ''/'' then b
      else if a = [] \<or> last a = CHR ''/'' then a @ b
      else a @ ''/'' @ b)"

text \<open>The candidate paths \<open>_resolve_plugin\<close> builds, in the order it probes them.\<close>

definition plugin_candidates :: "string \<Rightarrow> string \<Rightarrow> string list" where
  "plugin_candidates tgt plugins_dir =
     (let exts = ['''', ''.py'', ''.sh'']
      in if startswith tgt ''/'' \<or> CHR ''/'' \<in> set tgt
         then map (\<lambda>ext. if ext = [] then tgt else tgt @ ext) exts
         else map (\<lambda>ext. os_path_join plugins_dir (if ext = [] then tgt else tgt @ ext)) exts)"

text \<open>The probing loop: the command to run and the resolved path, or \<open>None\<close>.\<close>

fun probe_candidates :: "env \<Rightarrow> world \<Rightarrow> string list \<Rightarrow> (string list \<times> string) option" where
  "probe_candidates e w [] = None"
| "probe_candidates e w (p # ps) =
     (if is_file w p then
        (if p \<in> xfiles w then Some ([p], p)
         else if endswith p ''.py'' then Some ([sys_executable e, p], p)
         else probe_candidates e w ps)
      else probe_candidates e w ps)"

definition resolve_plugin :: "env \<Rightarrow> world \<Rightarrow> string \<Rightarrow> string \<Rightarrow> (string list \<times> string) option" where
  "resolve_plugin e w tgt plugins_dir = probe_candidates e w (plugin_candidates tgt plugins_dir)"

text \<open>\<open>env.update({...})\<close> on a copy of the environment: the new entries replace old ones.\<close>

definition env_update :: "(string \<times> string) list \<Rightarrow> (string \<times> string) list \<Rightarrow> (string \<times> string) list" where
  "env_update base kvs = kvs @ filter (\<lambda>(k, v). k \<notin> set (map fst kvs)) base"

definition plugin_payload ::
  "globals \<Rightarrow> world \<Rightarrow> string \<Rightarrow> string \<Rightarrow> string \<Rightarrow> string list \<Rightarrow> (string \<times> string) list" where
  "plugin_payload g w event final_status primary_out files_to_upload =
     [(''EVENT'', event),
      (''SUMMARY_FILE'', SUMMARY_JSON g),
      (''ARCHIVE_PATH'', primary_out),
      (''FILES'', py_join [CHR 0x0A] files_to_upload),
      (''OUTPUT_DIR'', OUT_DIR g),
      (''BASE_NAME'', BASE g),
      (''STATUS'', final_status),
      (''LOG_FILE'', LOG_FILE g),
      (''NOTIFY_CONFIG'', NOTIFY_CONFIG g),
      (''UPLOAD_TARGET'', UPLOAD_TARGET g),
      (''DRY_RUN'', py_str_int (DRY_RUN g)),
      (''TOTAL_SIZE'', if DRY_RUN g \<noteq> 0 then ''(estimasi)'' else human_total_size w files_to_upload)]"

text \<open>The body of the loop \<open>for tgt in NOTIFY_TARGETS\<close>.\<close>

definition notify_target ::
  "globals \<Rightarrow> env \<Rightarrow> (string \<times> string) list \<Rightarrow> string \<Rightarrow> string \<Rightarrow> string \<Rightarrow> string \<Rightarrow> world \<Rightarrow> world" where
  "notify_target g e penv event final_status primary_out tgt0 w =
     (let tgt = py_strip tgt0
      in if tgt = ''telegram'' then notify_telegram g e final_status (BASE g) primary_out w
         else if tgt = ''email''
         then notify_email g e final_status (BASE g) primary_out (UPLOAD_TARGET g) w
         else case resolve_plugin e w tgt (PLUGINS_DIR g) of
                Some (c, resolved) \<Rightarrow>
                  if DRY_RUN g \<noteq> 0 then log (DryRunPlugin resolved event c) w
                  else (case plugin_proc e c penv w of
                          (rc, w') \<Rightarrow>
                            let w1 = w'\<lparr>effects := effects w @ [ExecEnv c penv]\<rparr>
                            in (case rc of None \<Rightarrow> log PluginError w1 | Some r \<Rightarrow> w1))
              | None \<Rightarrow> log (PluginNotFound tgt (PLUGINS_DIR g)) w)"

definition run_plugins ::
  "globals \<Rightarrow> env \<Rightarrow> string \<Rightarrow> string \<Rightarrow> string \<Rightarrow> string list \<Rightarrow> world \<Rightarrow> world" where
  "run_plugins g e event final_status primary_out files_to_upload w =
     (let w0 = add_effect (RunPlugins event final_status) w;
          penv = env_update (environ e)
                   (plugin_payload g w0 event final_status primary_out files_to_upload)
      in foldl (\<lambda>w tgt. notify_target g e penv event final_status primary_out tgt w)
           w0 (NOTIFY_TARGETS g))"

subsection \<open>The headless runner and \<open>main\<close>\<close>

definition apply_sources_if_any :: "globals \<times> world \<Rightarrow> globals \<times> world" where
  "apply_sources_if_any gw =
     (case gw of (g, w) \<Rightarrow>
        if SELECTED_PATHS g = [] \<and> SOURCES g \<noteq> []
        then foldl (\<lambda>(g, w) s.
                      if path_exists w s then (g\<lparr>SELECTED_PATHS := SELECTED_PATHS g @ [s]\<rparr>, w)
                      else (g, log (SourceMissing s) w))
               (g, w) (SOURCES g)
        else (g, w))"

text \<open>
  The loop \<open>for f in files_to_upload\<close> of \<open>headless_make_archive\<close>, run when an upload target
  is set.
\<close>

fun upload_files :: "env \<Rightarrow> string list \<Rightarrow> globals \<times> world \<Rightarrow> (globals \<times> world) result" where
  "upload_files e [] gw = Inr gw"
| "upload_files e (f # fs) (g, w) =
     (if path_exists w f \<or> DRY_RUN g \<noteq> 0
      then try_bind (do_upload_one g e f w) (\<lambda>(rc, w').
             upload_files e fs (if rc \<noteq> 0 then set_str ''FINAL_STATUS'' ''failure'' g else g, w'))
      else upload_files e fs (g, w))"

text \<open>
  The part of \<open>headless_make_archive\<close> between \<open>make_archive\<close> and the notification:
  \<open>FINAL_STATUS\<close> is set to \<open>success\<close>, then the files are uploaded.
\<close>

definition upload_stage :: "env \<Rightarrow> string list \<Rightarrow> globals \<times> world \<Rightarrow> (globals \<times> world) result" where
  "upload_stage e files_to_upload gw =
     (case gw of (g, w) \<Rightarrow>
        let g3 = set_str ''FINAL_STATUS'' ''success'' g
        in if UPLOAD_TARGET g3 \<noteq> [] then upload_files e files_to_upload (g3, w)
           else Inr (g3, w))"

text \<open>The choice of the output directory and the archive name.\<close>

definition choose_output :: "env \<Rightarrow> globals \<times> world \<Rightarrow> (globals \<times> world) result" where
  "choose_output e gw =
     (case gw of (g, w) \<Rightarrow>
        let dflt = (if DEST_DIR g \<noteq> [] then DEST_DIR g else home e)
        in if NO_UI g \<noteq> 0
           then Inr (set_str ''BASE'' (if OUT_NAME g \<noteq> [] then OUT_NAME g else ts_name e)
                       (set_str ''OUT_DIR'' dflt g), w)
           else let w1 = add_effect (Print ''3. Masukkan path kustom'')
                          (add_effect (Print (''2. Gunakan direktori default ('' @ dflt @ '')''))
                            (add_effect (Print (''1. Gunakan direktori sekarang ('' @ cwd e @ '')''))
                              (add_effect (Print ''Simpan arsip di mana?'') w)))
                in try_bind (py_input ''Pilih opsi [1/2/3] (default: 2): '' w1) (\<lambda>(l, w2).
                     let dchoice = (if py_strip l \<noteq> [] then py_strip l else ''2'')
                     in try_bind
                          (if dchoice = ''1'' then Inr (cwd e, w2)
                           else if dchoice = ''3''
                           then try_bind (py_input ''Masukkan path tujuan: '' w2) (\<lambda>(c, w3).
                                  Inr (if py_strip c \<noteq> [] then py_strip c else dflt, w3))
                           else Inr (dflt, w2))
                          (\<lambda>(out_dir, w4).
                             try_bind (mkdir_p out_dir w4) (\<lambda>w5.
                               try_bind (py_input
                                           ''Masukkan nama arsip (tanpa ekstensi). Kosong = auto: '' w5)
                                 (\<lambda>(n, w6).
                                    let iname = py_strip n
                                    in Inr (set_str ''BASE''
                                              (if iname \<noteq> [] then iname
                                               else if OUT_NAME g \<noteq> [] then OUT_NAME g
                                               else ts_name e)
                                              (set_str ''OUT_DIR'' out_dir g), w6))))))"

definition headless_make_archive :: "env \<Rightarrow> globals \<times> world \<Rightarrow> (globals \<times> world) result" where
  "headless_make_archive e gw =
     (case apply_sources_if_any gw of (g, w) \<Rightarrow>
        if SELECTED_PATHS g = [] then
          (if NO_UI g \<noteq> 0 then Inl (SystemExit ''Tidak ada item terpilih.'', w)
           else try_bind (py_input ''Kembali...'' (add_effect (Print ''Tidak ada item terpilih.'') w))
                  (\<lambda>(l, w'). Inr (g, w')))
        else
          try_bind (choose_output e (g, w)) (\<lambda>(g1, w1).
          try_bind (make_archive g1 e (SELECTED_PATHS g1) w1) (\<lambda>((primary, files_to_upload), g2, w2).
            try_bind (upload_stage e files_to_upload (g2, w2))
                 (\<lambda>(g4, w4).
                    let w5 = (if FINAL_STATUS g4 = ''success''
                              then run_plugins g4 e ''on_success'' (FINAL_STATUS g4) primary
                                     files_to_upload w4
                              else run_plugins g4 e ''on_failure'' (FINAL_STATUS g4) primary
                                     files_to_upload w4)
                    in if NO_UI g4 = 0
                       then try_bind (py_input ''Selesai. Kembali...'' w5) (\<lambda>(l, w6). Inr (g4, w6))
                       else Inr (g4, w5)))))"

text \<open>
  \<open>main\<close>, from the parsed arguments on. The interactive file browser \<open>pilih_file_ui\<close> is
  the parameter \<open>ui\<close>.
\<close>

definition main ::
  "env \<Rightarrow> (globals \<times> world \<Rightarrow> (globals \<times> world) result) \<Rightarrow> args \<Rightarrow> globals \<times> world
   \<Rightarrow> (globals \<times> world) result" where
  "main e ui a gw =
     (let gw1 = (if given (arg_CONFIG_FILE a) then load_config_file e (the (arg_CONFIG_FILE a)) gw
                 else gw);
          (g, w) = apply_args e a gw1
      in if START_DIR g \<notin> dirs w
         then Inl (SystemExit ''1'', add_effect (Print (''START_DIR tidak valid: '' @ START_DIR g)) w)
         else if NO_UI g \<noteq> 0
         then headless_make_archive e
                (set_int ''KEEP_AFTER_SPLIT''
                   (if KEEP_AFTER_SPLIT g \<noteq> 0 then KEEP_AFTER_SPLIT g else 1) g, w)
         else ui (g, w))"

subsection \<open>Notions the properties are stated with\<close>

text \<open>The number of chunks of a file of size \<open>S\<close> cut by chunks of size \<open>C\<close>: \<open>ceil(S/C)\<close>.\<close>

definition n_chunks :: "nat \<Rightarrow> nat \<Rightarrow> nat" where
  "n_chunks S C = (S + C - 1) div C"

text \<open>The name and the content of chunk number \<open>i\<close>.\<close>

definition chunk_name :: "string \<Rightarrow> nat \<Rightarrow> string" where
  "chunk_name prefix i = prefix @ fmt_03d i"

definition chunk_data :: "nat \<Rightarrow> byte list \<Rightarrow> nat \<Rightarrow> byte list" where
  "chunk_data C data i = take C (drop (i * C) data)"

text \<open>A world with nothing in it, and one holding a single file.\<close>

definition empty_world :: world where
  "empty_world = \<lparr> files = Map.empty, dirs = {}, xfiles = {}, stdin = [], effects = [] \<rparr>"

definition one_file :: "string \<Rightarrow> byte list \<Rightarrow> world" where
  "one_file p d = empty_world\<lparr>files := [p \<mapsto> d]\<rparr>"

text \<open>Reading the list of effects: the sleeps, and the log lines of the retry loop.\<close>

definition sleep_delays :: "effect list \<Rightarrow> int list" where
  "sleep_delays es = concat (map (\<lambda>x. case x of Sleep d \<Rightarrow> [d] | _ \<Rightarrow> []) es)"

fun is_attempt :: "effect \<Rightarrow> bool" where
  "is_attempt (Log (Attempt a t)) = True"
| "is_attempt _ = False"

fun is_failed :: "effect \<Rightarrow> bool" where
  "is_failed (Log (UploadFailed t)) = True"
| "is_failed _ = False"

definition attempt_lines :: "effect list \<Rightarrow> nat" where
  "attempt_lines es = length (filter is_attempt es)"

definition failed_lines :: "effect list \<Rightarrow> nat" where
  "failed_lines es = length (filter is_failed es)"


text \<open>Kinds of effects.\<close>

definition is_log :: "effect \<Rightarrow> bool" where
  "is_log x = (case x of Log m \<Rightarrow> True | _ \<Rightarrow> False)"

text \<open>What running one command through \<open>run_or_echo\<close> or \<open>subprocess\<close> can add.\<close>

fun command_effect :: "effect \<Rightarrow> bool" where
  "command_effect (Exec c) = True"
| "command_effect (Log (DryRunCmd c)) = True"
| "command_effect (Log ExecError) = True"
| "command_effect (Log RcloneVerified) = True"
| "command_effect _ = False"

text \<open>What \<open>do_upload_one\<close> can add: log lines, external commands and sleeps.\<close>

definition upload_effect :: "effect \<Rightarrow> bool" where
  "upload_effect x = (case x of Log m \<Rightarrow> True | Exec c \<Rightarrow> True | Sleep d \<Rightarrow> True | _ \<Rightarrow> False)"

text \<open>The effects a call has added, given the world before and after.\<close>

definition new_effects :: "world \<Rightarrow> world \<Rightarrow> effect list" where
  "new_effects w w' = drop (length (effects w)) (effects w')"

text \<open>The world a run ends in, whether it ends by an exception or returns.\<close>

definition final_world :: "(globals \<times> world) result \<Rightarrow> world" where
  "final_world r = (case r of Inl (err, w) \<Rightarrow> w | Inr (g, w) \<Rightarrow> w)"

text \<open>
  What the retry loop, entered at attempt \<open>a\<close> with delay \<open>dl\<close> and returning \<open>rc\<close>, adds
  to the effects: the facts the properties of the upload stage are derived from.
\<close>

definition loop_facts ::
  "globals \<Rightarrow> string \<Rightarrow> int \<Rightarrow> int \<Rightarrow> int \<Rightarrow> int \<Rightarrow> effect list \<Rightarrow> bool" where
  "loop_facts g tool tries a dl rc d =
     (list_all upload_effect d
      \<and> sleep_delays d = map (\<lambda>i. dl * 2 ^ i) [0 ..< failed_lines d]
      \<and> failed_lines d \<le> attempt_lines d
      \<and> int (attempt_lines d) \<le> max 0 (tries + 1 - a)
      \<and> (rc = 0 \<or> rc = 1)
      \<and> (rc = 1 \<longleftrightarrow> Log (UploadExhausted tries) \<in> set d \<or> Log (UnsupportedTool tool) \<in> set d)
      \<and> (Log (UploadExhausted tries) \<in> set d
           \<longrightarrow> failed_lines d = attempt_lines d \<and> int (attempt_lines d) = max 0 (tries + 1 - a))
      \<and> (Log (UnsupportedTool tool) \<in> set d
           \<longrightarrow> tool \<notin> set [''rclone'', ''aws'', ''lftp'', ''scp''])
      \<and> (DRY_RUN g \<noteq> 0 \<longrightarrow> list_all is_log d))"

text \<open>The tool \<open>do_upload_one\<close> settles on before it enters its loop.\<close>

definition resolved_tool :: "globals \<Rightarrow> env \<Rightarrow> string" where
  "resolved_tool g e =
     (let tool0 = (if UPLOAD_TOOL g \<noteq> [] then UPLOAD_TOOL g else ''auto'')
      in if tool0 = ''auto'' then auto_tool e (UPLOAD_TARGET g) else tool0)"

text \<open>
  An environment for examples. The first \<open>fails\<close> runs of \<open>rclone copy\<close> exit with 1 and
  the later ones with 0; \<open>zip -r\<close> writes the archive; every other program exits with 0
  and changes nothing.
\<close>

definition is_rclone_copy :: "effect \<Rightarrow> bool" where
  "is_rclone_copy x = (case x of Exec c \<Rightarrow> (case c of Shell s \<Rightarrow> startswith s ''rclone copy'' | Argv a \<Rightarrow> False)
                       | _ \<Rightarrow> False)"

definition ex_proc :: "nat \<Rightarrow> cmd \<Rightarrow> world \<Rightarrow> int option \<times> world" where
  "ex_proc fails c w =
     (case c of
        Shell s \<Rightarrow>
          if startswith s ''rclone copy''
          then (Some (if length (filter is_rclone_copy (effects w)) < fails then 1 else 0), w)
          else if startswith s ''zip -r''
          then (Some 0, w\<lparr>files := (files w)(''/out/b.zip'' \<mapsto> [80, 75, 3, 4])\<rparr>)
          else (Some 0, w)
      | Argv a \<Rightarrow> (Some 0, w))"

definition ex_env :: "nat \<Rightarrow> env" where
  "ex_env fails =
     \<lparr> which = (\<lambda>c. c \<in> set [''zip'', ''rclone'', ''tar'', ''gzip'']),
       proc = ex_proc fails,
       proc_out = (\<lambda>c w. (Some ''4.0K'', w)),
       plugin_proc = (\<lambda>c penv w. (Some 0, w)),
       environ = [(''PATH'', ''/usr/bin'')],
       sys_executable = ''/usr/bin/python3'',
       home = ''/home/u'',
       cwd = ''/work'',
       ts_name = ''backup-20250101-000000'',
       now_stamp = ''2025-01-01 00:00:00'',
       path_join = (\<lambda>a b. a @ ''/'' @ b),
       path_name = basename,
       sha256_hex = (\<lambda>d. ''00''),
       json_dump = (\<lambda>s. []),
       decode_text = map (\<lambda>b. char_of (unat b)),
       encode_text = map (\<lambda>c. of_nat (of_char c)) \<rparr>"

text \<open>Headless settings for examples: one source, output to \<open>/out/b\<close>, upload by rclone.\<close>

definition ex_globals :: globals where
  "ex_globals =
     set_int ''NO_UI'' 1
       (set_str ''UPLOAD_TOOL'' ''rclone''
         (set_str ''UPLOAD_TARGET'' ''remote:backups''
           (set_str ''OUT_NAME'' ''b''
             (set_str ''DEST_DIR'' ''/out''
               ((default_globals (ex_env 0))\<lparr>SOURCES := [''/data'']\<rparr>)))))"

definition ex_world :: world where
  "ex_world = empty_world\<lparr>dirs := {''/data'', ''/work''}\<rparr>"

text \<open>
  A candidate path \<open>_resolve_plugin\<close> accepts: a regular file that is executable or whose
  name ends in \<open>.py\<close>; and the command it builds for an accepted path.
\<close>

definition usable :: "world \<Rightarrow> string \<Rightarrow> bool" where
  "usable w p = (is_file w p \<and> (p \<in> xfiles w \<or> endswith p ''.py''))"

definition plugin_cmd :: "env \<Rightarrow> world \<Rightarrow> string \<Rightarrow> string list" where
  "plugin_cmd e w p = (if p \<in> xfiles w then [p] else [sys_executable e, p])"

text \<open>
  The resolution order as the specification words it: the literal path, then the same name
  under the plugins directory, each with no extension, \<open>.py\<close>, \<open>.sh\<close>.
\<close>

definition spec_plugin_candidates :: "string \<Rightarrow> string \<Rightarrow> string list" where
  "spec_plugin_candidates tgt plugins_dir =
     [tgt, tgt @ ''.py'', tgt @ ''.sh'',
      os_path_join plugins_dir tgt, os_path_join plugins_dir (tgt @ ''.py''),
      os_path_join plugins_dir (tgt @ ''.sh'')]"

text \<open>
  What \<open>run_plugins\<close> may add to the effects: log lines, commands of the built-in
  notifiers, and plugin processes started with the environment \<open>penv\<close> and a command that
  is the plugin's path alone or the interpreter and the path.
\<close>

definition notify_effect :: "env \<Rightarrow> (string \<times> string) list \<Rightarrow> effect \<Rightarrow> bool" where
  "notify_effect e penv x =
     (case x of
        Log m \<Rightarrow> True
      | Exec c \<Rightarrow> True
      | ExecEnv c pe \<Rightarrow> pe = penv \<and> (length c = 1 \<or> (length c = 2 \<and> hd c = sys_executable e))
      | _ \<Rightarrow> False)"

definition log_or_exec :: "effect \<Rightarrow> bool" where
  "log_or_exec x = (case x of Log m \<Rightarrow> True | Exec c \<Rightarrow> True | _ \<Rightarrow> False)"

definition plugin_envs :: "effect list \<Rightarrow> (string \<times> string) list list" where
  "plugin_envs es = concat (map (\<lambda>x. case x of ExecEnv c pe \<Rightarrow> [pe] | _ \<Rightarrow> []) es)"

text \<open>A world with an executable plugin \<open>hook\<close> in the plugins directory.\<close>

definition plugin_world :: world where
  "plugin_world =
     empty_world\<lparr>files := [''./plugins.d/hook'' \<mapsto> [35, 33], ''/out/b.zip'' \<mapsto> [80, 75, 3, 4]],
                 xfiles := {''./plugins.d/hook''}\<rparr>"

text \<open>The example settings with the plugin \<open>hook\<close> as the one notify target.\<close>

definition notify_globals :: globals where
  "notify_globals = ex_globals\<lparr>NOTIFY_TARGETS := [''hook'']\<rparr>"

text \<open>
  The shape the specification calls a valid size string: one or more digits, then one of
  the letters k, m, g in either case; and the number of bytes the letter stands for.
\<close>

definition size_form :: "string \<Rightarrow> bool" where
  "size_form s = (s \<noteq> [] \<and> butlast s \<noteq> [] \<and> list_all is_digit (butlast s) \<and> last s \<in> set ''kKmMgG'')"

definition unit_bytes :: "char \<Rightarrow> int" where
  "unit_bytes u =
     (if u \<in> set ''kK'' then 1024 else if u \<in> set ''mM'' then 1024 ^ 2 else 1024 ^ 3)"

text \<open>Whether a configured split size makes \<open>make_archive\<close> split: it parses, and not to zero.\<close>

definition splits :: "string \<Rightarrow> bool" where
  "splits s = (case parse_split_size s of None \<Rightarrow> False | Some b \<Rightarrow> b \<noteq> 0)"

text \<open>The example settings as \<open>make_archive\<close> finds them: output directory and name chosen.\<close>

definition archive_globals :: globals where
  "archive_globals = set_str ''BASE'' ''b'' (set_str ''OUT_DIR'' ''/out'' ex_globals)"

text \<open>
  \<open>adds P w w'\<close>: the world \<open>w'\<close> has the effects of \<open>w\<close> followed by new ones that all
  satisfy \<open>P\<close>. \<open>radds\<close> is the same for a result, whose world is the one of the exception
  or, through \<open>wof\<close>, the one of the value.
\<close>

definition adds :: "(effect \<Rightarrow> bool) \<Rightarrow> world \<Rightarrow> world \<Rightarrow> bool" where
  "adds P w w' = (take (length (effects w)) (effects w') = effects w \<and> list_all P (new_effects w w'))"

definition radds :: "(effect \<Rightarrow> bool) \<Rightarrow> ('a \<Rightarrow> world) \<Rightarrow> world \<Rightarrow> 'a result \<Rightarrow> bool" where
  "radds P wof w r = (case r of Inl (err, w') \<Rightarrow> adds P w w' | Inr x \<Rightarrow> adds P w (wof x))"

text \<open>The directory and the path of the summary file.\<close>

definition sum_dir :: "globals \<Rightarrow> string" where
  "sum_dir g = (if SUMMARY_DIR g \<noteq> [] then SUMMARY_DIR g else OUT_DIR g)"

definition summary_path :: "globals \<Rightarrow> env \<Rightarrow> string" where
  "summary_path g e =
     (let sj0 = path_join e (sum_dir g) (BASE g @ ''.summary.json'')
      in if endswith sj0 ''}.json}'' then butlast sj0 else sj0)"

text \<open>
  What \<open>make_archive\<close> may add to the effects in any mode: everything but sleeps, printed
  prompts, plugin processes and entries into \<open>run_plugins\<close>.
\<close>

definition archive_effect :: "effect \<Rightarrow> bool" where
  "archive_effect x =
     (case x of Log m \<Rightarrow> True | Input s \<Rightarrow> True | Exec c \<Rightarrow> True | Mkdir p \<Rightarrow> True
      | WriteFile p d \<Rightarrow> True | RemoveFile p \<Rightarrow> True | _ \<Rightarrow> False)"

text \<open>
  What \<open>make_archive\<close> may add in dry-run mode: log lines, password prompts, the size probe
  \<open>du -sh\<close>, the creation of the output directory and, when a summary is asked for, the
  creation of the summary directory and the writing of the summary file.
\<close>

definition is_du :: "cmd \<Rightarrow> bool" where
  "is_du c = (case c of Argv a \<Rightarrow> length a = 3 \<and> take 2 a = [''du'', ''-sh''] | Shell s \<Rightarrow> False)"

definition dry_archive_effect :: "globals \<Rightarrow> env \<Rightarrow> effect \<Rightarrow> bool" where
  "dry_archive_effect g e x =
     (case x of
        Log m \<Rightarrow> True
      | Input s \<Rightarrow> True
      | Exec c \<Rightarrow> is_du c
      | Mkdir p \<Rightarrow> p = OUT_DIR g \<or> (MAKE_SUMMARY g \<noteq> 0 \<and> p = sum_dir g)
      | WriteFile p d \<Rightarrow> MAKE_SUMMARY g \<noteq> 0 \<and> p = summary_path g e
      | _ \<Rightarrow> False)"

text \<open>
  The effects a predicate has to allow for it to hold of everything \<open>make_archive\<close> adds
  under the settings \<open>g\<close>.
\<close>

definition permits :: "globals \<Rightarrow> env \<Rightarrow> (effect \<Rightarrow> bool) \<Rightarrow> bool" where
  "permits g e P =
     ((\<forall>m. P (Log m)) \<and> (\<forall>s. P (Input s)) \<and> (\<forall>p. P (Exec (Argv [''du'', ''-sh'', p])))
      \<and> P (Mkdir (OUT_DIR g))
      \<and> (MAKE_SUMMARY g \<noteq> 0 \<longrightarrow> P (Mkdir (sum_dir g)) \<and> (\<forall>d. P (WriteFile (summary_path g e) d)))
      \<and> (DRY_RUN g = 0 \<longrightarrow> (\<forall>c. P (Exec c)) \<and> (\<forall>p d. P (WriteFile p d))
            \<and> (\<forall>p. P (RemoveFile p)) \<and> (\<forall>p. P (Mkdir p))))"

text \<open>The world a result of \<open>make_archive\<close> ends in.\<close>

definition archive_world :: "((string \<times> string list) \<times> globals \<times> world) result \<Rightarrow> world" where
  "archive_world r = (case r of Inl (err, w) \<Rightarrow> w | Inr (x, g, w) \<Rightarrow> w)"

text \<open>The example settings in dry-run mode with a summary asked for.\<close>

definition dry_globals :: globals where
  "dry_globals = set_int ''MAKE_SUMMARY'' 1 (set_int ''DRY_RUN'' 1 archive_globals)"



text \<open>
  Reading a configuration file: the entries one line gives for a list key (\<open>EXCLUDES\<close>,
  \<open>SOURCES\<close> or \<open>NOTIFY\<close>), and the entries of all its lines in order.
\<close>

definition line_entries :: "string \<Rightarrow> string \<Rightarrow> string list" where
  "line_entries key line =
     (if py_strip line = [] \<or> startswith (py_lstrip line) ''#'' then []
      else if CHR ''='' \<notin> set line then []
      else let (k0, v0) = py_split1 (CHR ''='') line;
               v = py_strip_char (CHR 0x27) (py_strip_char (CHR 0x22) (py_strip v0))
           in if py_strip k0 = key then csv_items v else [])"

definition cfg_entries :: "string \<Rightarrow> string list \<Rightarrow> string list" where
  "cfg_entries key ls = concat (map (line_entries key) ls)"

text \<open>Two settings with the same scalar (string) and boolean (integer) variables.\<close>

definition same_scalars :: "globals \<Rightarrow> globals \<Rightarrow> bool" where
  "same_scalars g g' = (strs g = strs g' \<and> ints g = ints g')"

text \<open>What \<open>main\<close> does with the settings \<open>g\<close> once the arguments are applied.\<close>

definition after_args ::
  "env \<Rightarrow> (globals \<times> world \<Rightarrow> (globals \<times> world) result) \<Rightarrow> globals \<times> world
   \<Rightarrow> (globals \<times> world) result" where
  "after_args e ui gw =
     (case gw of (g, w) \<Rightarrow>
        if START_DIR g \<notin> dirs w
        then Inl (SystemExit ''1'', add_effect (Print (''START_DIR tidak valid: '' @ START_DIR g)) w)
        else if NO_UI g \<noteq> 0
        then headless_make_archive e
               (set_int ''KEEP_AFTER_SPLIT''
                  (if KEEP_AFTER_SPLIT g \<noteq> 0 then KEEP_AFTER_SPLIT g else 1) g, w)
        else ui (g, w))"

text \<open>A command line with no option given, and one that names the configuration file.\<close>

definition no_args :: args where
  "no_args =
     \<lparr> arg_ARCHIVE_FORMAT = None, arg_OUT_NAME = None, arg_ZIP_AES = False, arg_ZIP_ENCRYPT = False,
       arg_ZIP_PASSWORD = None, arg_USE_GPG = False, arg_SPLIT_SIZE = None,
       arg_KEEP_AFTER_SPLIT = False, arg_RM_AFTER_SPLIT = False, arg_EXCLUDES = [],
       arg_EXCLUDE_FILE = None, arg_UPLOAD_TARGET = None, arg_UPLOAD_TOOL = None,
       arg_AFTER_UPLOAD_RM = False, arg_UPLOAD_RETRY = None, arg_START_DIR = None,
       arg_DEST_DIR = None, arg_NO_UI = False, arg_SOURCES = [], arg_CONFIG_FILE = None,
       arg_DRY_RUN = False, arg_NOTIFY_TARGETS = [], arg_NOTIFY_CONFIG = None,
       arg_PLUGINS_DIR = None, arg_SUMMARY_DIR = None, arg_CHECKSUM_DIR = None,
       arg_MAKE_SUMMARY = None, arg_MAKE_CHECKSUM = None \<rparr>"

definition cfg_args :: args where
  "cfg_args = no_args\<lparr>arg_CONFIG_FILE := Some ''/etc/b.conf'', arg_EXCLUDES := [''*.bak'']\<rparr>"

definition cfg_text :: string where
  "cfg_text = ''EXCLUDES=*.log, *.tmp'' @ [CHR 0x0A] @ ''OUT_NAME = b'' @ [CHR 0x0A]
              @ ''# sources'' @ [CHR 0x0A] @ ''SOURCES=/data'' @ [CHR 0x0A]
              @ ''DRY_RUN=yes'' @ [CHR 0x0A] @ ''NOTIFY=telegram'' @ [CHR 0x0A]"

definition cfg_world :: world where
  "cfg_world = ex_world\<lparr>files := [''/etc/b.conf'' \<mapsto> map (\<lambda>c. of_nat (of_char c)) cfg_text]\<rparr>"
section \<open>Properties\<close>

declare dec_str.simps [simp del]
declare split_loop.simps [simp del]
declare upload_loop.simps [simp del]

subsection \<open>Decimal formatting\<close>

lemma digit_val_digit_char: "d < 10 \<Longrightarrow> digit_val (digit_char d) = d"
  by (simp add: digit_val_def digit_char_def)

lemma dec_val_snoc: "dec_val (ds @ [c]) = 10 * dec_val ds + digit_val c"
  by (simp add: dec_val_def)

lemma dec_val_dec_str: "dec_val (dec_str n) = n"
proof (induction n rule: dec_str.induct)
  case (1 n)
  show ?case
  proof (cases "n < 10")
    case True
    then show ?thesis
      by (subst dec_str.simps) (simp add: dec_val_def digit_val_digit_char)
  next
    case False
    then have "dec_val (dec_str (n div 10)) = n div 10" using 1 by simp
    with False show ?thesis
      by (subst dec_str.simps) (simp add: dec_val_snoc digit_val_digit_char)
  qed
qed

lemma dec_val_zeros: "dec_val (replicate k (CHR ''0'') @ s) = dec_val s"
proof -
  have "foldl (\<lambda>a c. 10 * a + digit_val c) 0 (replicate k (CHR ''0'')) = 0"
    by (induction k) (simp_all add: digit_val_def)
  then show ?thesis by (simp add: dec_val_def)
qed

lemma dec_val_fmt_03d: "dec_val (fmt_03d n) = n"
  by (simp add: fmt_03d_def dec_val_zeros dec_val_dec_str)

lemma fmt_03d_inj: "fmt_03d i = fmt_03d j \<Longrightarrow> i = j"
  by (metis dec_val_fmt_03d)

lemma chunk_name_inj: "chunk_name prefix i = chunk_name prefix j \<Longrightarrow> i = j"
  by (simp add: chunk_name_def fmt_03d_inj)

lemma dec_str_length_lt_1000: "n < 1000 \<Longrightarrow> length (dec_str n) \<le> 3"
  apply (subst dec_str.simps)
  apply (subst dec_str.simps)
  apply (subst dec_str.simps)
  apply simp
  done

lemma dec_str_nonempty: "dec_str n \<noteq> []"
  by (subst dec_str.simps) simp

lemma fmt_03d_length: "n < 1000 \<Longrightarrow> length (fmt_03d n) = 3"
  using dec_str_length_lt_1000[of n] by (simp add: fmt_03d_def)

lemma fmt_03d_0: "fmt_03d 0 = ''000''"
  by code_simp

subsection \<open>Counting and measuring chunks\<close>

lemma n_chunks_0: "n_chunks 0 C = 0"
  by (cases "C = 0") (simp_all add: n_chunks_def)

lemma n_chunks_alt:
  assumes "0 < C"
  shows "n_chunks S C = S div C + (if S mod C = 0 then 0 else 1)"
proof -
  define q r where "q = S div C" and "r = S mod C"
  have S: "S = r + q * C" and r: "r < C" using assms by (simp_all add: q_def r_def)
  show ?thesis
  proof (cases "r = 0")
    case True
    have e1: "S + C - 1 = (C - 1) + q * C" using S True assms by simp
    have e2: "((C - 1) + q * C) div C = q + (C - 1) div C"
      using assms by (subst div_mult_self1) auto
    have e3: "(C - 1) div C = 0" using assms by simp
    have "n_chunks S C = q" unfolding n_chunks_def e1 e2 e3 by simp
    then show ?thesis using True by (simp add: q_def r_def)
  next
    case False
    have e1: "S + C - 1 = (r - 1) + (q + 1) * C" using S False by simp
    have e2: "((r - 1) + (q + 1) * C) div C = (q + 1) + (r - 1) div C"
      using assms by (subst div_mult_self1) auto
    have e3: "(r - 1) div C = 0" using r by simp
    have "n_chunks S C = q + 1" unfolding n_chunks_def e1 e2 e3 by simp
    then show ?thesis using False by (simp add: q_def r_def)
  qed
qed

lemma n_chunks_step:
  assumes "0 < C" "0 < S"
  shows "n_chunks S C = Suc (n_chunks (S - C) C)"
proof (cases "C \<le> S")
  case True
  then have "S + C - 1 = (S - C + C - 1) + C" using assms by simp
  then have "(S + C - 1) div C = (S - C + C - 1) div C + 1"
    using assms(1) by (metis div_add_self2 not_gr_zero)
  then show ?thesis by (simp add: n_chunks_def)
next
  case False
  then have "S - C = 0" "S div C = 0" "S mod C = S" by simp_all
  then show ?thesis using assms n_chunks_0 by (simp add: n_chunks_alt[OF assms(1)])
qed

lemma chunk_len:
  assumes C: "0 < C" and j: "j < n_chunks S C"
  shows "min C (S - j * C)
           = (if Suc j < n_chunks S C then C else if S mod C = 0 then C else S mod C)"
proof -
  define q r where "q = S div C" and "r = S mod C"
  have S: "S = r + q * C" and r: "r < C" using C by (simp_all add: q_def r_def)
  have n: "n_chunks S C = q + (if r = 0 then 0 else 1)"
    using n_chunks_alt[OF C, of S] by (simp add: q_def r_def)
  show ?thesis
  proof (cases "j < q")
    case True
    then have "Suc j \<le> q" by simp
    then have "Suc j * C \<le> q * C" by (rule mult_le_mono1)
    then have ge: "j * C + C \<le> q * C" by simp
    then have m: "min C (S - j * C) = C" using S by simp
    show ?thesis
    proof (cases "Suc j < n_chunks S C")
      case True
      then show ?thesis using m by simp
    next
      case False
      then have "r = 0" using n \<open>j < q\<close> by (auto split: if_splits)
      then show ?thesis using m False by (simp add: r_def)
    qed
  next
    case False
    then have jq: "j = q" and r0: "r \<noteq> 0" using j n by (auto split: if_splits)
    have "S - j * C = r" using S jq by simp
    then show ?thesis using r r0 n jq by (simp add: r_def)
  qed
qed

lemma chunk_data_0: "chunk_data C rest 0 = take C rest"
  by (simp add: chunk_data_def)

lemma chunk_data_Suc: "chunk_data C (drop C rest) j = chunk_data C rest (Suc j)"
  by (simp add: chunk_data_def add.commute)

lemma chunk_data_length: "length (chunk_data C data j) = min C (length data - j * C)"
  by (simp add: chunk_data_def min.commute)

lemma concat_chunks:
  assumes "0 < C"
  shows "concat (map (chunk_data C data) [0 ..< n_chunks (length data) C]) = data"
proof (induction "n_chunks (length data) C" arbitrary: data)
  case 0
  then have "length data div C = 0" "length data mod C = 0"
    using n_chunks_alt[OF assms, of "length data"] by (auto split: if_splits)
  then have "length data = 0" by (metis mult_div_mod_eq mult_zero_right add_0)
  then show ?case using 0 by simp
next
  case (Suc n)
  then have ne: "data \<noteq> []" using n_chunks_0 by (metis list.size(3) nat.distinct(1))
  have "n_chunks (length data) C = Suc (n_chunks (length (drop C data)) C)"
    using n_chunks_step[OF assms, of "length data"] ne by simp
  then have n: "n = n_chunks (length (drop C data)) C" using Suc.hyps(2) by simp
  have IH: "concat (map (chunk_data C (drop C data)) [0 ..< n]) = drop C data"
    using Suc.hyps(1)[OF n] n by simp
  have "[0 ..< Suc n] = 0 # map Suc [0 ..< n]" by (simp add: upt_conv_Cons map_Suc_upt del: upt_Suc)
  then have "concat (map (chunk_data C data) [0 ..< Suc n])
               = chunk_data C data 0 @ concat (map (\<lambda>j. chunk_data C data (Suc j)) [0 ..< n])"
    by (simp add: comp_def)
  also have "\<dots> = take C data @ concat (map (chunk_data C (drop C data)) [0 ..< n])"
    by (simp add: chunk_data_0 chunk_data_Suc[symmetric])
  also have "\<dots> = data" by (simp add: IH)
  finally show ?case using Suc.hyps(2) by simp
qed

subsection \<open>\<open>do_python_split\<close>\<close>

lemma files_write_file: "files (write_file p d w) = (files w)(p \<mapsto> d)"
  by (simp add: write_file_def add_effect_def)

lemma split_loop_result:
  assumes "0 < c"
  shows "fst (split_loop c prefix idx rest parts w)
           = parts @ map (chunk_name prefix) [idx ..< idx + n_chunks (length rest) (nat c)]
       \<and> (\<forall>j < n_chunks (length rest) (nat c).
              files (snd (split_loop c prefix idx rest parts w)) (chunk_name prefix (idx + j))
                = Some (chunk_data (nat c) rest j))
       \<and> (\<forall>p. (\<forall>j < n_chunks (length rest) (nat c). p \<noteq> chunk_name prefix (idx + j))
              \<longrightarrow> files (snd (split_loop c prefix idx rest parts w)) p = files w p)"
  using assms
proof (induction c prefix idx rest parts w rule: split_loop.induct)
  case (1 c prefix idx rest parts w)
  let ?C = "nat c"
  have C: "0 < ?C" using "1.prems" by simp
  have rd: "py_read c rest = take ?C rest" using "1.prems" by (simp add: py_read_def)
  show ?case
  proof (cases "rest = []")
    case True
    then have "split_loop c prefix idx rest parts w = (parts, w)"
      by (subst split_loop.simps) (simp add: py_read_def)
    then show ?thesis using True by (simp add: n_chunks_0)
  next
    case False
    then have ne: "take ?C rest \<noteq> []" using C by simp
    let ?chunk = "take ?C rest"
    let ?out = "prefix @ fmt_03d idx"
    let ?w1 = "write_file ?out ?chunk w"
    let ?rest' = "drop (length ?chunk) rest"
    have rest': "?rest' = drop ?C rest" by (simp add: min_def)
    let ?n' = "n_chunks (length ?rest') ?C"
    have rest'': "drop (min (length rest) ?C) rest = drop ?C rest" by (simp add: min_def)
    have len: "length ?rest' = length rest - ?C" by (auto simp: min_def)
    have n: "n_chunks (length rest) ?C = Suc ?n'"
    proof -
      have "n_chunks (length rest) ?C = Suc (n_chunks (length rest - ?C) ?C)"
        using n_chunks_step[OF C, of "length rest"] False by simp
      then show ?thesis by (simp only: len)
    qed
    have unf: "split_loop c prefix idx rest parts w
                 = split_loop c prefix (idx + 1) ?rest' (parts @ [?out]) ?w1"
      using False "1.prems" by (subst split_loop.simps) (simp add: rd Let_def)
    have IH: "fst (split_loop c prefix (idx + 1) ?rest' (parts @ [?out]) ?w1)
                = (parts @ [?out]) @ map (chunk_name prefix) [idx + 1 ..< idx + 1 + ?n']
            \<and> (\<forall>j < ?n'.
                  files (snd (split_loop c prefix (idx + 1) ?rest' (parts @ [?out]) ?w1))
                    (chunk_name prefix (idx + 1 + j)) = Some (chunk_data ?C ?rest' j))
            \<and> (\<forall>p. (\<forall>j < ?n'. p \<noteq> chunk_name prefix (idx + 1 + j))
                  \<longrightarrow> files (snd (split_loop c prefix (idx + 1) ?rest' (parts @ [?out]) ?w1)) p
                       = files ?w1 p)"
      using "1.IH"[OF refl _ refl] rd False "1.prems" by simp
    have out: "?out = chunk_name prefix idx" by (simp add: chunk_name_def)
    have p1: "fst (split_loop c prefix idx rest parts w)
                = parts @ map (chunk_name prefix) [idx ..< idx + n_chunks (length rest) ?C]"
      using IH by (simp add: unf n out upt_rec[of idx])
    have p2: "files (snd (split_loop c prefix idx rest parts w)) (chunk_name prefix (idx + j))
                = Some (chunk_data ?C rest j)" if j: "j < n_chunks (length rest) ?C" for j
    proof (cases j)
      case 0
      have "\<forall>k < ?n'. chunk_name prefix idx \<noteq> chunk_name prefix (idx + 1 + k)"
        using chunk_name_inj by fastforce
      then have "files (snd (split_loop c prefix idx rest parts w)) (chunk_name prefix idx)
                   = files ?w1 (chunk_name prefix idx)"
        using IH unf by simp
      then show ?thesis using 0 by (simp add: files_write_file out chunk_data_0)
    next
      case (Suc k)
      then have "k < ?n'" using j n by simp
      then have "files (snd (split_loop c prefix idx rest parts w)) (chunk_name prefix (idx + 1 + k))
                   = Some (chunk_data ?C ?rest' k)"
        using IH unf by simp
      then show ?thesis using Suc by (simp add: rest'' chunk_data_Suc)
    qed
    have p3: "files (snd (split_loop c prefix idx rest parts w)) p = files w p"
      if p: "\<forall>j < n_chunks (length rest) ?C. p \<noteq> chunk_name prefix (idx + j)" for p
    proof -
      have a: "p \<noteq> chunk_name prefix idx" using p n by (metis add.right_neutral zero_less_Suc)
      have "\<forall>k < ?n'. p \<noteq> chunk_name prefix (idx + 1 + k)"
      proof (intro allI impI)
        fix k assume "k < ?n'"
        then have "Suc k < n_chunks (length rest) ?C" using n by simp
        then show "p \<noteq> chunk_name prefix (idx + 1 + k)" using p by (metis add_Suc_shift add.commute plus_1_eq_Suc add.assoc)
      qed
      then have "files (snd (split_loop c prefix idx rest parts w)) p = files ?w1 p"
        using IH unf by simp
      then show ?thesis using a by (simp add: files_write_file out)
    qed
    show ?thesis using p1 p2 p3 by blast
  qed
qed


text \<open>
  Claim C2, as the code has it. For a source file of size \<open>S\<close> and a chunk size
  \<open>C > 0\<close>, \<open>do_python_split\<close> writes exactly \<open>ceil(S/C)\<close> chunks. Chunk \<open>i\<close> is
  named by the prefix followed by \<open>i\<close> in decimal, zero-padded to at least three digits:
  the names start at \<open>000\<close> and have exactly three digits for the first 1000 chunks.
  Every chunk has size \<open>C\<close> except the last, which has size \<open>S mod C\<close> (or \<open>C\<close> when
  \<open>S\<close> is a multiple of \<open>C\<close>), the chunks concatenated in the order of their numbers
  are the bytes of the source file, and the source file is left as it was. The chunk files
  are taken to be different from the source file, as they are in \<open>make_archive\<close>.
\<close>

theorem do_python_split_chunks:
  assumes "files w path = Some data" and "0 < c" and "\<forall>i. chunk_name prefix i \<noteq> path"
  shows "\<exists>parts w'. do_python_split path prefix c w = Inr (parts, w')
           \<and> parts = map (chunk_name prefix) [0 ..< n_chunks (length data) (nat c)]
           \<and> (\<forall>i < length parts.
                  files w' (parts ! i) = Some (chunk_data (nat c) data i)
                  \<and> length (chunk_data (nat c) data i)
                      = (if Suc i < length parts then nat c
                         else if length data mod nat c = 0 then nat c
                         else length data mod nat c)
                  \<and> (i < 1000 \<longrightarrow> length (fmt_03d i) = 3))
           \<and> (parts \<noteq> [] \<longrightarrow> hd parts = prefix @ ''000'')
           \<and> concat (map (\<lambda>p. the (files w' p)) parts) = data
           \<and> files w' path = Some data"
proof -
  let ?C = "nat c"
  let ?n = "n_chunks (length data) ?C"
  let ?r = "split_loop c prefix 0 data [] w"
  have C: "0 < ?C" using assms(2) by simp
  note R = split_loop_result[OF assms(2), of prefix 0 data "[]" w]
  have r: "do_python_split path prefix c w = Inr (fst ?r, snd ?r)"
    using assms(1) by (simp add: do_python_split_def)
  have parts: "fst ?r = map (chunk_name prefix) [0 ..< ?n]" using R by simp
  have len: "length (fst ?r) = ?n" by (simp add: parts)
  have fl: "files (snd ?r) (chunk_name prefix j) = Some (chunk_data ?C data j)" if "j < ?n" for j
    using R that by simp
  have a: "files (snd ?r) (fst ?r ! i) = Some (chunk_data ?C data i)
           \<and> length (chunk_data ?C data i)
               = (if Suc i < length (fst ?r) then ?C
                  else if length data mod ?C = 0 then ?C else length data mod ?C)
           \<and> (i < 1000 \<longrightarrow> length (fmt_03d i) = 3)" if "i < length (fst ?r)" for i
  proof -
    have i: "i < ?n" using that len by simp
    have "fst ?r ! i = chunk_name prefix i" using i by (simp add: parts)
    then show ?thesis using fl[OF i] chunk_len[OF C i] fmt_03d_length
      by (simp add: chunk_data_length len)
  qed
  have b: "fst ?r \<noteq> [] \<longrightarrow> hd (fst ?r) = prefix @ ''000''"
  proof
    assume "fst ?r \<noteq> []"
    then have "0 < ?n" using len by (metis length_greater_0_conv)
    then have "hd (fst ?r) = chunk_name prefix 0"
      by (simp add: parts upt_conv_Cons del: upt_Suc)
    then show "hd (fst ?r) = prefix @ ''000''" by (simp add: chunk_name_def fmt_03d_0)
  qed
  have "map (\<lambda>p. the (files (snd ?r) p)) (fst ?r) = map (chunk_data ?C data) [0 ..< ?n]"
    using fl by (simp add: parts)
  then have c: "concat (map (\<lambda>p. the (files (snd ?r) p)) (fst ?r)) = data"
    using concat_chunks[OF C, of data] by simp
  have d: "files (snd ?r) path = Some data"
    using R assms(1,3) by metis
  show ?thesis using r parts a b c d by blast
qed

text \<open>Claim C2 on a file of five bytes cut into chunks of two.\<close>

theorem do_python_split_chunks_witness:
  "files (one_file ''a'' [1, 2, 3, 4, 5]) ''a'' = Some [1, 2, 3, 4, 5] \<and> (0::int) < 2
   \<and> (\<forall>i. chunk_name ''a.part.'' i \<noteq> ''a'')
   \<and> (\<exists>w'. do_python_split ''a'' ''a.part.'' 2 (one_file ''a'' [1, 2, 3, 4, 5])
               = Inr ([''a.part.000'', ''a.part.001'', ''a.part.002''], w')
             \<and> files w' ''a.part.000'' = Some [1, 2]
             \<and> files w' ''a.part.001'' = Some [3, 4]
             \<and> files w' ''a.part.002'' = Some [5])"
proof -
  have h1: "files (one_file ''a'' [1, 2, 3, 4, 5]) ''a'' = Some [1, 2, 3, 4, 5]"
    by (simp add: one_file_def empty_world_def)
  have h2: "(0::int) < 2" by simp
  have h3: "\<forall>i. chunk_name ''a.part.'' i \<noteq> ''a''" by (simp add: chunk_name_def)
  have n: "n_chunks (length [1, 2, 3, 4, 5::byte]) (nat 2) = 3" by (simp add: n_chunks_def)
  have u: "[0 ..< 3] = [0, 1, 2::nat]" by (simp add: upt_rec)
  have names: "map (chunk_name ''a.part.'') [0, 1, 2]
                 = [''a.part.000'', ''a.part.001'', ''a.part.002'']"
    by (simp add: chunk_name_def) code_simp
  obtain parts w' where
    r: "do_python_split ''a'' ''a.part.'' 2 (one_file ''a'' [1, 2, 3, 4, 5]) = Inr (parts, w')"
    and p: "parts = map (chunk_name ''a.part.'') [0 ..< n_chunks (length [1, 2, 3, 4, 5::byte]) (nat 2)]"
    and f: "\<forall>i < length parts. files w' (parts ! i) = Some (chunk_data (nat 2) [1, 2, 3, 4, 5] i)
                  \<and> length (chunk_data (nat 2) [1, 2, 3, 4, 5::byte] i)
                      = (if Suc i < length parts then nat 2
                         else if length [1, 2, 3, 4, 5::byte] mod nat 2 = 0 then nat 2
                         else length [1, 2, 3, 4, 5::byte] mod nat 2)
                  \<and> (i < 1000 \<longrightarrow> length (fmt_03d i) = 3)"
    using do_python_split_chunks[OF h1 h2 h3] by blast
  have parts: "parts = [''a.part.000'', ''a.part.001'', ''a.part.002'']"
    using p unfolding n u names .
  have "files w' (parts ! 0) = Some (chunk_data 2 [1, 2, 3, 4, 5] 0)"
       "files w' (parts ! 1) = Some (chunk_data 2 [1, 2, 3, 4, 5] 1)"
       "files w' (parts ! 2) = Some (chunk_data 2 [1, 2, 3, 4, 5] 2)"
    using f[rule_format, of 0] f[rule_format, of 1] f[rule_format, of 2] parts by simp_all
  then have "files w' ''a.part.000'' = Some [1, 2]" "files w' ''a.part.001'' = Some [3, 4]"
            "files w' ''a.part.002'' = Some [5]"
    by (simp_all add: parts chunk_data_def)
  then show ?thesis using h1 h3 r parts by simp
qed

text \<open>
  Claim C2 as stated asks for a three-digit suffix on every chunk. A file of 1001 bytes cut
  into chunks of one byte has a chunk whose suffix has four digits.
\<close>

theorem split_suffix_three_digits_counterexample:
  "fst (projr (do_python_split ''a'' ''a.part.'' 1 (one_file ''a'' (replicate 1001 0)))) ! 1000
     = ''a.part.1000''"
proof -
  have "do_python_split ''a'' ''a.part.'' 1 (one_file ''a'' (replicate 1001 0))
          = Inr (split_loop 1 ''a.part.'' 0 (replicate 1001 0) [] (one_file ''a'' (replicate 1001 0)))"
    by (simp add: do_python_split_def one_file_def empty_world_def)
  moreover have "fst (split_loop 1 ''a.part.'' 0 (replicate 1001 0) [] (one_file ''a'' (replicate 1001 0)))
          = map (chunk_name ''a.part.'') [0 ..< n_chunks 1001 1]"
    using split_loop_result[of 1 "''a.part.''" 0 "replicate 1001 0" "[]"] by simp
  moreover have "n_chunks 1001 1 = 1001" by (simp add: n_chunks_def)
  moreover have "fmt_03d 1000 = ''1000''" by code_simp
  ultimately show ?thesis by (simp add: chunk_name_def)
qed

subsection \<open>The retry loop of \<open>do_upload_one\<close>\<close>

lemma effects_add_effect [simp]: "effects (add_effect x w) = effects w @ [x]"
  by (simp add: add_effect_def)

lemma effects_log [simp]: "effects (log m w) = effects w @ [Log m]"
  by (simp add: log_def)

lemma effects_subprocess_call [simp]:
  "effects (snd (subprocess_call e c w)) = effects w @ [Exec c]"
  by (simp add: subprocess_call_def split: prod.splits)

lemma sleep_delays_simps [simp]:
  "sleep_delays [] = []"
  "sleep_delays (xs @ ys) = sleep_delays xs @ sleep_delays ys"
  "sleep_delays (Sleep d # xs) = d # sleep_delays xs"
  "sleep_delays (Log m # xs) = sleep_delays xs"
  "sleep_delays (Exec c # xs) = sleep_delays xs"
  by (simp_all add: sleep_delays_def)

lemma attempt_lines_simps [simp]:
  "attempt_lines [] = 0"
  "attempt_lines (xs @ ys) = attempt_lines xs + attempt_lines ys"
  "attempt_lines (x # xs) = (if is_attempt x then Suc (attempt_lines xs) else attempt_lines xs)"
  by (simp_all add: attempt_lines_def)

lemma failed_lines_simps [simp]:
  "failed_lines [] = 0"
  "failed_lines (xs @ ys) = failed_lines xs + failed_lines ys"
  "failed_lines (x # xs) = (if is_failed x then Suc (failed_lines xs) else failed_lines xs)"
  by (simp_all add: failed_lines_def)

lemma command_effect_cases:
  assumes "command_effect x"
  shows "\<not> is_attempt x" "\<not> is_failed x" "upload_effect x"
        "x \<noteq> Log (UploadExhausted t)" "x \<noteq> Log (UnsupportedTool tool)"
        "(case x of Sleep d \<Rightarrow> [d] | _ \<Rightarrow> []) = []"
  using assms by (induction x rule: command_effect.induct) (simp_all add: upload_effect_def)

lemma command_effect_quiet:
  assumes "list_all command_effect d"
  shows "sleep_delays d = []" "attempt_lines d = 0" "failed_lines d = 0"
        "Log (UploadExhausted t) \<notin> set d" "Log (UnsupportedTool tool) \<notin> set d"
        "list_all upload_effect d"
  using assms
  by (induction d; use command_effect_cases in \<open>auto simp: sleep_delays_def\<close>)+

lemma run_or_echo_trace:
  "\<exists>d. effects (snd (run_or_echo g e c w)) = effects w @ d \<and> list_all command_effect d
       \<and> (DRY_RUN g \<noteq> 0 \<longrightarrow> fst (run_or_echo g e c w) = 0 \<and> list_all is_log d)"
proof (cases "DRY_RUN g \<noteq> 0")
  case True
  then show ?thesis by (simp add: run_or_echo_def is_log_def)
next
  case False
  obtain rc w' where s: "subprocess_call e (Shell c) w = (rc, w')" by (cases "subprocess_call e (Shell c) w")
  then have "effects w' = effects w @ [Exec (Shell c)]"
    using effects_subprocess_call[of e "Shell c" w] by simp
  then show ?thesis using False s
    by (cases rc) (simp_all add: run_or_echo_def)
qed

lemma upload_attempt_trace:
  assumes "upload_attempt g e file target tool w = Some (rc, w')"
  shows "\<exists>d. effects w' = effects w @ d \<and> list_all command_effect d
           \<and> (DRY_RUN g \<noteq> 0 \<longrightarrow> rc = 0 \<and> list_all is_log d)"
proof -
  have direct: "\<exists>d. effects w' = effects w @ d \<and> list_all command_effect d
           \<and> (DRY_RUN g \<noteq> 0 \<longrightarrow> rc = 0 \<and> list_all is_log d)"
    if "run_or_echo g e c w = (rc, w')" for c
    using run_or_echo_trace[of g e c w] that by simp
  consider (rclone) "tool = ''rclone''" | (aws) "tool = ''aws''" | (lftp) "tool = ''lftp''"
    | (scp) "tool = ''scp''"
    using assms by (auto simp: upload_attempt_def split: if_splits)
  then show ?thesis
  proof cases
    case rclone
    let ?c = "''rclone copy '' @ shlex_quote file @ '' '' @ shlex_quote target @ '' --progress''"
    obtain rc1 w1 where r1: "run_or_echo g e ?c w = (rc1, w1)" by (cases "run_or_echo g e ?c w")
    obtain d1 where d1: "effects w1 = effects w @ d1" "list_all command_effect d1"
        "DRY_RUN g \<noteq> 0 \<longrightarrow> rc1 = 0 \<and> list_all is_log d1"
      using run_or_echo_trace[of g e ?c w] r1 by auto
    show ?thesis
    proof (cases "rc1 = 0 \<and> DRY_RUN g = 0")
      case False
      then have "rc = rc1" "w' = w1" using assms rclone r1 by (auto simp: upload_attempt_def)
      then show ?thesis using d1 by auto
    next
      case True
      let ?a = "Argv [''rclone'', ''check'', file, target, ''--size-only'']"
      obtain r w2 where r2: "subprocess_call e ?a w1 = (r, w2)" by (cases "subprocess_call e ?a w1")
      have e2: "effects w2 = effects w1 @ [Exec ?a]"
        using effects_subprocess_call[of e ?a w1] r2 by simp
      have rw: "rc = rc1 \<and> (w' = w2 \<or> w' = log RcloneVerified w2)"
        using assms rclone r1 r2 True by (cases r) (auto simp: upload_attempt_def)
      then have "effects w' = effects w @ (d1 @ [Exec ?a])
                 \<or> effects w' = effects w @ (d1 @ [Exec ?a, Log RcloneVerified])"
        using e2 d1(1) by auto
      moreover have "list_all command_effect (d1 @ [Exec ?a])"
        "list_all command_effect (d1 @ [Exec ?a, Log RcloneVerified])"
        using d1(2) by simp_all
      ultimately show ?thesis using True by blast
    qed
  next
    case aws
    then show ?thesis using assms direct by (auto simp: upload_attempt_def)
  next
    case lftp
    then show ?thesis using assms direct by (auto simp: upload_attempt_def)
  next
    case scp
    then show ?thesis using assms direct by (auto simp: upload_attempt_def Let_def)
  qed
qed

lemma upload_attempt_None:
  "upload_attempt g e fl target tool w = None \<Longrightarrow> tool \<notin> set [''rclone'', ''aws'', ''lftp'', ''scp'']"
  by (auto simp: upload_attempt_def Let_def split: if_splits prod.splits option.splits)

lemma backoff_cons: "(dl::int) # map (\<lambda>i. dl * 2 * 2 ^ i) [0 ..< k] = map (\<lambda>i. dl * 2 ^ i) [0 ..< Suc k]"
  (is "?l = ?r")
proof -
  have "[0 ..< Suc k] = 0 # map Suc [0 ..< k]"
    by (simp add: upt_conv_Cons map_Suc_upt del: upt_Suc)
  then have "?r = dl # map (\<lambda>i. dl * 2 ^ Suc i) [0 ..< k]" by (simp add: comp_def)
  then show ?thesis by (simp add: mult.assoc)
qed

lemma upload_loop_trace:
  "\<exists>d. effects (snd (upload_loop g e fl target tool tries a dl w)) = effects w @ d
       \<and> loop_facts g tool tries a dl (fst (upload_loop g e fl target tool tries a dl w)) d"
proof (induction g e fl target tool tries a dl w rule: upload_loop.induct)
  case (1 g e fl target tool tries a dl w)
  let ?R = "upload_loop g e fl target tool tries a dl w"
  show ?case
  proof (cases "a \<le> tries")
    case False
    then have "?R = (1, log (UploadExhausted tries) w)"
      by (subst upload_loop.simps) simp
    then have "effects (snd ?R) = effects w @ [Log (UploadExhausted tries)]"
      "loop_facts g tool tries a dl (fst ?R) [Log (UploadExhausted tries)]"
      using False by (simp_all add: loop_facts_def upload_effect_def is_log_def)
    then show ?thesis by blast
  next
    case True
    let ?w1 = "log (Attempt a tries) w"
    show ?thesis
    proof (cases "upload_attempt g e fl target tool ?w1")
      case None
      note nt = upload_attempt_None[OF None]
      have "?R = (1, log (UnsupportedTool tool) ?w1)"
        using True None by (subst upload_loop.simps) simp
      then have "effects (snd ?R) = effects w @ [Log (Attempt a tries), Log (UnsupportedTool tool)]"
        "loop_facts g tool tries a dl (fst ?R) [Log (Attempt a tries), Log (UnsupportedTool tool)]"
        using True nt by (simp_all add: loop_facts_def upload_effect_def is_log_def)
      then show ?thesis by blast
    next
      case (Some p)
      obtain rc w2 where p: "p = (rc, w2)" by (cases p)
      obtain d1 where d1: "effects w2 = effects ?w1 @ d1" "list_all command_effect d1"
          "DRY_RUN g \<noteq> 0 \<longrightarrow> rc = 0 \<and> list_all is_log d1"
        using upload_attempt_trace[of g e fl target tool ?w1 rc w2] Some p by auto
      note q = command_effect_quiet[OF d1(2)]
      show ?thesis
      proof (cases "rc = 0")
        case rc0: True
        let ?w3 = "log (UploadOk fl target) w2"
        let ?c = "''rm -f -- '' @ shlex_quote fl"
        obtain d2 where d2: "effects (snd (run_or_echo g e ?c ?w3)) = effects ?w3 @ d2"
            "list_all command_effect d2" "DRY_RUN g \<noteq> 0 \<longrightarrow> list_all is_log d2"
          using run_or_echo_trace[of g e ?c ?w3] by auto
        note q2 = command_effect_quiet[OF d2(2)]
        show ?thesis
        proof (cases "AFTER_UPLOAD_RM g \<noteq> 0")
          case False
          then have R: "?R = (0, ?w3)"
            using True Some p rc0 by (subst upload_loop.simps) simp
          let ?d = "[Log (Attempt a tries)] @ d1 @ [Log (UploadOk fl target)]"
          have "effects (snd ?R) = effects w @ ?d" using R d1(1) by simp
          moreover have "loop_facts g tool tries a dl (fst ?R) ?d"
            using R True q d1(3) by (simp add: loop_facts_def upload_effect_def is_log_def)
          ultimately show ?thesis by blast
        next
          case rm: True
          then have R: "?R = (0, log (LocalRemoved fl) (snd (run_or_echo g e ?c ?w3)))"
            using True Some p rc0 by (subst upload_loop.simps) simp
          let ?d = "[Log (Attempt a tries)] @ d1 @ [Log (UploadOk fl target)] @ d2
                    @ [Log (LocalRemoved fl)]"
          have "effects (snd ?R) = effects w @ ?d" using R d1(1) d2(1) by simp
          moreover have "loop_facts g tool tries a dl (fst ?R) ?d"
            using R True q q2 d1(3) d2(3)
            by (simp add: loop_facts_def upload_effect_def is_log_def)
          ultimately show ?thesis by blast
        qed
      next
        case rcn: False
        let ?w3 = "add_effect (Sleep dl) (log (UploadFailed tool) w2)"
        let ?R' = "upload_loop g e fl target tool tries (a + 1) (dl * 2) ?w3"
        have R: "?R = ?R'"
          using True Some p rcn by (subst upload_loop.simps) simp
        obtain d' where d': "effects (snd ?R') = effects ?w3 @ d'"
            "loop_facts g tool tries (a + 1) (dl * 2) (fst ?R') d'"
          using "1.IH"[OF True refl Some p[symmetric] rcn] by blast
        have nd: "DRY_RUN g = 0" using d1(3) rcn by auto
        let ?d = "[Log (Attempt a tries)] @ d1 @ [Log (UploadFailed tool), Sleep dl] @ d'"
        have "effects (snd ?R) = effects w @ ?d" using R d' d1(1) by simp
        moreover have "loop_facts g tool tries a dl (fst ?R) ?d"
        proof -
          have sl: "sleep_delays ?d = map (\<lambda>i. dl * 2 ^ i) [0 ..< failed_lines ?d]"
            using d'(2) q backoff_cons[of dl "failed_lines d'"]
            by (simp add: loop_facts_def del: upt_Suc)
          have rest: "list_all upload_effect ?d" "failed_lines ?d \<le> attempt_lines ?d"
              "int (attempt_lines ?d) \<le> max 0 (tries + 1 - a)"
              "fst ?R = 0 \<or> fst ?R = 1"
              "fst ?R = 1 \<longleftrightarrow> Log (UploadExhausted tries) \<in> set ?d \<or> Log (UnsupportedTool tool) \<in> set ?d"
              "Log (UploadExhausted tries) \<in> set ?d
                 \<longrightarrow> failed_lines ?d = attempt_lines ?d \<and> int (attempt_lines ?d) = max 0 (tries + 1 - a)"
              "Log (UnsupportedTool tool) \<in> set ?d
                 \<longrightarrow> tool \<notin> set [''rclone'', ''aws'', ''lftp'', ''scp'']"
            using d'(2) q True R by (auto simp: loop_facts_def upload_effect_def)
          show ?thesis unfolding loop_facts_def using sl rest nd by blast
        qed
        ultimately show ?thesis by blast
      qed
    qed
  qed
qed

lemma sorted_backoff: "sorted (map (\<lambda>i. (2::int) * 2 ^ i) [0 ..< k])"
  by (auto simp: sorted_iff_nth_mono intro: power_increasing)

lemma new_effects_append: "effects w' = effects w @ d \<Longrightarrow> new_effects w w' = d"
  by (simp add: new_effects_def)

text \<open>
  Claim C4. Whenever the retry setting is an integer \<open>tries\<close>, \<open>do_upload_one\<close> returns, it
  starts at most \<open>tries\<close> attempts for the file, and the delays it sleeps, in order, are
  2, 4, 8, ...: one sleep after each failed attempt, each twice the one before, so the
  sequence of delays is non-decreasing.
\<close>

theorem upload_retry_backoff:
  assumes "upload_tries g = Some tries"
  shows "\<exists>rc w'. do_upload_one g e fl w = Inr (rc, w')
           \<and> take (length (effects w)) (effects w') = effects w
           \<and> int (attempt_lines (new_effects w w')) \<le> max 0 tries
           \<and> failed_lines (new_effects w w') \<le> attempt_lines (new_effects w w')
           \<and> sleep_delays (new_effects w w')
               = map (\<lambda>i. 2 * 2 ^ i) [0 ..< failed_lines (new_effects w w')]
           \<and> sorted (sleep_delays (new_effects w w'))"
proof (cases "UPLOAD_TARGET g = []")
  case True
  then have "do_upload_one g e fl w = Inr (0, w)" using assms by (simp add: do_upload_one_def)
  then show ?thesis by (simp add: new_effects_def)
next
  case False
  define tool where "tool = (if (if UPLOAD_TOOL g \<noteq> [] then UPLOAD_TOOL g else ''auto'') = ''auto''
                              then auto_tool e (UPLOAD_TARGET g)
                              else (if UPLOAD_TOOL g \<noteq> [] then UPLOAD_TOOL g else ''auto''))"
  let ?w0 = "log (UploadUsing tool (UPLOAD_TARGET g)) w"
  let ?R = "upload_loop g e fl (UPLOAD_TARGET g) tool tries 1 2 ?w0"
  have r: "do_upload_one g e fl w = Inr (fst ?R, snd ?R)"
    using assms False by (simp add: do_upload_one_def tool_def Let_def)
  obtain d where d: "effects (snd ?R) = effects ?w0 @ d"
      "loop_facts g tool tries 1 2 (fst ?R) d"
    using upload_loop_trace[of g e fl "UPLOAD_TARGET g" tool tries 1 2 ?w0] by blast
  let ?d = "Log (UploadUsing tool (UPLOAD_TARGET g)) # d"
  have e: "effects (snd ?R) = effects w @ ?d" using d(1) by simp
  then have n: "new_effects w (snd ?R) = ?d" by (rule new_effects_append)
  have f1: "take (length (effects w)) (effects (snd ?R)) = effects w" using e by simp
  have f2: "int (attempt_lines (new_effects w (snd ?R))) \<le> max 0 tries"
    and f3: "failed_lines (new_effects w (snd ?R)) \<le> attempt_lines (new_effects w (snd ?R))"
    and f4: "sleep_delays (new_effects w (snd ?R))
               = map (\<lambda>i. 2 * 2 ^ i) [0 ..< failed_lines (new_effects w (snd ?R))]"
    unfolding n using d(2) by (simp_all add: loop_facts_def)
  have f5: "sorted (sleep_delays (new_effects w (snd ?R)))"
    unfolding f4 by (rule sorted_backoff)
  show ?thesis using r f1 f2 f3 f4 f5 by blast
qed

text \<open>
  Claim C4 on an upload whose first two attempts fail and whose third succeeds, with three
  tries allowed: three attempts, and sleeps of 2 and 4.
\<close>

theorem upload_retry_backoff_witness:
  "upload_tries ex_globals = Some 3
   \<and> (\<exists>w'. do_upload_one ex_globals (ex_env 2) ''/out/b.zip'' ex_world = Inr (0, w')
          \<and> attempt_lines (new_effects ex_world w') = 3
          \<and> sleep_delays (new_effects ex_world w') = [2, 4])"
proof -
  have h: "upload_tries ex_globals = Some 3"
    by (simp add: upload_tries_def ex_globals_def set_str_def set_int_def default_globals_def py_int_def
        py_strip_def py_lstrip_def py_rstrip_def py_isspace_def is_digit_def dec_val_def digit_val_def)
  obtain rc w' where r: "do_upload_one ex_globals (ex_env 2) ''/out/b.zip'' ex_world = Inr (rc, w')"
    and a: "int (attempt_lines (new_effects ex_world w')) \<le> max 0 3"
    and f: "failed_lines (new_effects ex_world w') \<le> attempt_lines (new_effects ex_world w')"
    and s: "sleep_delays (new_effects ex_world w')
              = map (\<lambda>i. 2 * 2 ^ i) [0 ..< failed_lines (new_effects ex_world w')]"
    using upload_retry_backoff[OF h, of "ex_env 2" "''/out/b.zip''" ex_world] by blast
  have ev: "do_upload_one ex_globals (ex_env 2) ''/out/b.zip'' ex_world
          = Inr (0, ex_world\<lparr>effects :=
               [Log (UploadUsing ''rclone'' ''remote:backups''),
                Log (Attempt 1 3),
                Exec (Shell ''rclone copy /out/b.zip remote:backups --progress''),
                Log (UploadFailed ''rclone''), Sleep 2,
                Log (Attempt 2 3),
                Exec (Shell ''rclone copy /out/b.zip remote:backups --progress''),
                Log (UploadFailed ''rclone''), Sleep 4,
                Log (Attempt 3 3),
                Exec (Shell ''rclone copy /out/b.zip remote:backups --progress''),
                Exec (Argv [''rclone'', ''check'', ''/out/b.zip'', ''remote:backups'', ''--size-only'']),
                Log RcloneVerified,
                Log (UploadOk ''/out/b.zip'' ''remote:backups'')]\<rparr>)"
    using h
    by (simp add: do_upload_one_def upload_loop.simps upload_attempt_def run_or_echo_def
        subprocess_call_def ex_env_def ex_proc_def ex_globals_def ex_world_def empty_world_def
        set_str_def set_int_def default_globals_def log_def add_effect_def shlex_quote_def
        shell_safe_def startswith_def is_rclone_copy_def Let_def)
  then have w': "rc = 0" "new_effects ex_world w' = drop 0 (effects w')" 
    using r by (simp_all add: new_effects_def ex_world_def empty_world_def)
  have "attempt_lines (new_effects ex_world w') = 3" "sleep_delays (new_effects ex_world w') = [2, 4]"
    using ev r by (auto simp: new_effects_def ex_world_def empty_world_def attempt_lines_def sleep_delays_def)
  then show ?thesis using h r w' by simp
qed

subsection \<open>The upload stage and the final status\<close>

lemma set_str_simps [simp]:
  "strs (set_str k v g) = (strs g)(k := v)"
  "ints (set_str k v g) = ints g"
  "EXCLUDES (set_str k v g) = EXCLUDES g"
  "SOURCES (set_str k v g) = SOURCES g"
  "NOTIFY_TARGETS (set_str k v g) = NOTIFY_TARGETS g"
  "SELECTED_PATHS (set_str k v g) = SELECTED_PATHS g"
  by (simp_all add: set_str_def)

lemma set_int_simps [simp]:
  "strs (set_int k v g) = strs g"
  "ints (set_int k v g) = (ints g)(k := v)"
  "EXCLUDES (set_int k v g) = EXCLUDES g"
  "SOURCES (set_int k v g) = SOURCES g"
  "NOTIFY_TARGETS (set_int k v g) = NOTIFY_TARGETS g"
  "SELECTED_PATHS (set_int k v g) = SELECTED_PATHS g"
  by (simp_all add: set_int_def)

lemma set_str_twice [simp]: "set_str k v (set_str k v' g) = set_str k v g"
  by (simp add: set_str_def)

lemma status_set_keeps [simp]:
  "upload_tries (set_str ''FINAL_STATUS'' v g) = upload_tries g"
  "resolved_tool (set_str ''FINAL_STATUS'' v g) e = resolved_tool g e"
  by (simp_all add: upload_tries_def resolved_tool_def Let_def)

lemma do_upload_one_trace:
  assumes "upload_tries g = Some tries"
  shows "\<exists>rc w' d. do_upload_one g e fl w = Inr (rc, w') \<and> effects w' = effects w @ d
           \<and> list_all upload_effect d
           \<and> (rc \<noteq> 0 \<longleftrightarrow> Log (UploadExhausted tries) \<in> set d
                          \<or> Log (UnsupportedTool (resolved_tool g e)) \<in> set d)
           \<and> (Log (UploadExhausted tries) \<in> set d
                \<longrightarrow> failed_lines d = attempt_lines d \<and> int (attempt_lines d) = max 0 tries)
           \<and> (Log (UnsupportedTool (resolved_tool g e)) \<in> set d
                \<longrightarrow> resolved_tool g e \<notin> set [''rclone'', ''aws'', ''lftp'', ''scp''])
           \<and> (UPLOAD_TARGET g = [] \<longrightarrow> d = [])
           \<and> (DRY_RUN g \<noteq> 0 \<longrightarrow> list_all is_log d)"
proof (cases "UPLOAD_TARGET g = []")
  case True
  then have "do_upload_one g e fl w = Inr (0, w)" using assms by (simp add: do_upload_one_def)
  then show ?thesis by simp
next
  case False
  let ?tool = "resolved_tool g e"
  let ?w0 = "log (UploadUsing ?tool (UPLOAD_TARGET g)) w"
  let ?R = "upload_loop g e fl (UPLOAD_TARGET g) ?tool tries 1 2 ?w0"
  have r: "do_upload_one g e fl w = Inr (fst ?R, snd ?R)"
    using assms False by (simp add: do_upload_one_def resolved_tool_def Let_def)
  obtain d where d: "effects (snd ?R) = effects ?w0 @ d"
      "loop_facts g ?tool tries 1 2 (fst ?R) d"
    using upload_loop_trace[of g e fl "UPLOAD_TARGET g" ?tool tries 1 2 ?w0] by blast
  let ?d = "Log (UploadUsing ?tool (UPLOAD_TARGET g)) # d"
  have e: "effects (snd ?R) = effects w @ ?d" using d(1) by simp
  have "list_all upload_effect ?d"
    "fst ?R \<noteq> 0 \<longleftrightarrow> Log (UploadExhausted tries) \<in> set ?d \<or> Log (UnsupportedTool ?tool) \<in> set ?d"
    "Log (UploadExhausted tries) \<in> set ?d
       \<longrightarrow> failed_lines ?d = attempt_lines ?d \<and> int (attempt_lines ?d) = max 0 tries"
    "Log (UnsupportedTool ?tool) \<in> set ?d \<longrightarrow> ?tool \<notin> set [''rclone'', ''aws'', ''lftp'', ''scp'']"
    "DRY_RUN g \<noteq> 0 \<longrightarrow> list_all is_log ?d"
    using d(2) by (auto simp: loop_facts_def upload_effect_def is_log_def)
  then show ?thesis using r e False by blast
qed

lemma upload_files_trace:
  assumes "upload_tries g = Some tries" "resolved_tool g e = tool"
  shows "\<exists>g' w' d. upload_files e fs (g, w) = Inr (g', w') \<and> effects w' = effects w @ d
           \<and> list_all upload_effect d
           \<and> (g' = g \<or> g' = set_str ''FINAL_STATUS'' ''failure'' g)
           \<and> (FINAL_STATUS g' = ''failure'' \<longleftrightarrow>
                 FINAL_STATUS g = ''failure'' \<or> Log (UploadExhausted tries) \<in> set d
                 \<or> Log (UnsupportedTool tool) \<in> set d)
           \<and> (Log (UnsupportedTool tool) \<in> set d
                \<longrightarrow> tool \<notin> set [''rclone'', ''aws'', ''lftp'', ''scp''])
           \<and> (UPLOAD_TARGET g = [] \<longrightarrow> d = [])
           \<and> (DRY_RUN g \<noteq> 0 \<longrightarrow> list_all is_log d)"
  using assms
proof (induction fs arbitrary: g w)
  case Nil
  then show ?case by simp
next
  case (Cons f fs)
  show ?case
  proof (cases "path_exists w f \<or> DRY_RUN g \<noteq> 0")
    case False
    then have "upload_files e (f # fs) (g, w) = upload_files e fs (g, w)" by simp
    then show ?thesis using Cons.IH[OF Cons.prems, of w] by simp
  next
    case True
    obtain rc w1 d1 where u: "do_upload_one g e f w = Inr (rc, w1)" "effects w1 = effects w @ d1"
        "list_all upload_effect d1"
        "rc \<noteq> 0 \<longleftrightarrow> Log (UploadExhausted tries) \<in> set d1 \<or> Log (UnsupportedTool tool) \<in> set d1"
        "Log (UnsupportedTool tool) \<in> set d1 \<longrightarrow> tool \<notin> set [''rclone'', ''aws'', ''lftp'', ''scp'']"
        "UPLOAD_TARGET g = [] \<longrightarrow> d1 = []"
        "DRY_RUN g \<noteq> 0 \<longrightarrow> list_all is_log d1"
      using do_upload_one_trace[OF Cons.prems(1), of e f w] Cons.prems(2) by blast
    let ?g1 = "if rc \<noteq> 0 then set_str ''FINAL_STATUS'' ''failure'' g else g"
    have step: "upload_files e (f # fs) (g, w) = upload_files e fs (?g1, w1)"
      using True u(1) by (simp add: try_bind_def)
    have p1: "upload_tries ?g1 = Some tries" "resolved_tool ?g1 e = tool"
      using Cons.prems by simp_all
    obtain g' w' d2 where r: "upload_files e fs (?g1, w1) = Inr (g', w')" "effects w' = effects w1 @ d2"
        "list_all upload_effect d2"
        "g' = ?g1 \<or> g' = set_str ''FINAL_STATUS'' ''failure'' ?g1"
        "FINAL_STATUS g' = ''failure'' \<longleftrightarrow>
           FINAL_STATUS ?g1 = ''failure'' \<or> Log (UploadExhausted tries) \<in> set d2
           \<or> Log (UnsupportedTool tool) \<in> set d2"
        "Log (UnsupportedTool tool) \<in> set d2 \<longrightarrow> tool \<notin> set [''rclone'', ''aws'', ''lftp'', ''scp'']"
        "UPLOAD_TARGET ?g1 = [] \<longrightarrow> d2 = []"
        "DRY_RUN ?g1 \<noteq> 0 \<longrightarrow> list_all is_log d2"
      using Cons.IH[OF p1, of w1] by blast
    have a: "effects w' = effects w @ (d1 @ d2)" using u(2) r(2) by simp
    have b: "list_all upload_effect (d1 @ d2)" using u(3) r(3) by simp
    have c: "g' = g \<or> g' = set_str ''FINAL_STATUS'' ''failure'' g"
      using r(4) by (auto split: if_splits)
    have d: "FINAL_STATUS g' = ''failure'' \<longleftrightarrow>
               FINAL_STATUS g = ''failure'' \<or> Log (UploadExhausted tries) \<in> set (d1 @ d2)
               \<or> Log (UnsupportedTool tool) \<in> set (d1 @ d2)"
      using r(5) u(4) by (auto split: if_splits)
    have e: "Log (UnsupportedTool tool) \<in> set (d1 @ d2)
               \<longrightarrow> tool \<notin> set [''rclone'', ''aws'', ''lftp'', ''scp'']"
      using u(5) r(6) by auto
    have f: "UPLOAD_TARGET g = [] \<longrightarrow> d1 @ d2 = []" using u(6) r(7) by (auto split: if_splits)
    have h: "DRY_RUN g \<noteq> 0 \<longrightarrow> list_all is_log (d1 @ d2)" using u(7) r(8) by (auto split: if_splits)
    show ?thesis using step r(1) a b c d e f h by (metis (no_types, lifting))
  qed
qed

text \<open>
  Claim C1, as the code has it. Whenever no upload target is set, or the retry setting
  is an integer \<open>tries\<close>, the upload stage returns with \<open>FINAL_STATUS\<close> either \<open>success\<close>
  or \<open>failure\<close>. It is \<open>failure\<close> if and only if, for at least one file, \<open>do_upload_one\<close>
  gave up: it used up its tries (the line \<open>Upload gagal setelah ... percobaan\<close>) or it found
  the upload tool to be none of rclone, aws, lftp, scp. When the tool is one of the four,
  \<open>failure\<close> is exactly the exhaustion of the retry budget for some file. With no upload
  target the status is \<open>success\<close> and nothing is done.
\<close>

theorem final_status_iff:
  assumes "UPLOAD_TARGET g = [] \<or> upload_tries g = Some tries"
  shows "\<exists>g' w'. upload_stage e fs (g, w) = Inr (g', w')
           \<and> (FINAL_STATUS g' = ''success'' \<or> FINAL_STATUS g' = ''failure'')
           \<and> (FINAL_STATUS g' = ''failure'' \<longleftrightarrow>
                 Log (UploadExhausted tries) \<in> set (new_effects w w')
                 \<or> Log (UnsupportedTool (resolved_tool g e)) \<in> set (new_effects w w'))
           \<and> (resolved_tool g e \<in> set [''rclone'', ''aws'', ''lftp'', ''scp'']
                \<longrightarrow> (FINAL_STATUS g' = ''failure'' \<longleftrightarrow>
                       Log (UploadExhausted tries) \<in> set (new_effects w w')))
           \<and> (UPLOAD_TARGET g = [] \<longrightarrow> FINAL_STATUS g' = ''success'' \<and> w' = w)"
proof (cases "UPLOAD_TARGET g = []")
  case True
  then have "upload_stage e fs (g, w) = Inr (set_str ''FINAL_STATUS'' ''success'' g, w)"
    by (simp add: upload_stage_def Let_def)
  then show ?thesis using True by (simp add: new_effects_def)
next
  case False
  let ?g3 = "set_str ''FINAL_STATUS'' ''success'' g"
  have t: "upload_tries ?g3 = Some tries" "resolved_tool ?g3 e = resolved_tool g e"
    using assms False by simp_all
  obtain g' w' d where r: "upload_files e fs (?g3, w) = Inr (g', w')" "effects w' = effects w @ d"
      "g' = ?g3 \<or> g' = set_str ''FINAL_STATUS'' ''failure'' ?g3"
      "FINAL_STATUS g' = ''failure'' \<longleftrightarrow>
         FINAL_STATUS ?g3 = ''failure'' \<or> Log (UploadExhausted tries) \<in> set d
         \<or> Log (UnsupportedTool (resolved_tool g e)) \<in> set d"
      "Log (UnsupportedTool (resolved_tool g e)) \<in> set d
         \<longrightarrow> resolved_tool g e \<notin> set [''rclone'', ''aws'', ''lftp'', ''scp'']"
    using upload_files_trace[OF t, of fs w] by blast
  have s: "upload_stage e fs (g, w) = Inr (g', w')"
    using False r(1) by (simp add: upload_stage_def Let_def)
  have n: "new_effects w w' = d" using r(2) by (rule new_effects_append)
  have a: "FINAL_STATUS g' = ''success'' \<or> FINAL_STATUS g' = ''failure''" using r(3) by auto
  have b: "FINAL_STATUS g' = ''failure'' \<longleftrightarrow>
             Log (UploadExhausted tries) \<in> set (new_effects w w')
             \<or> Log (UnsupportedTool (resolved_tool g e)) \<in> set (new_effects w w')"
    using r(4) n by simp
  have c: "resolved_tool g e \<in> set [''rclone'', ''aws'', ''lftp'', ''scp'']
             \<longrightarrow> (FINAL_STATUS g' = ''failure'' \<longleftrightarrow>
                    Log (UploadExhausted tries) \<in> set (new_effects w w'))"
    using b r(5) n by blast
  show ?thesis using s a b c False by blast
qed

lemma ex_tries: "upload_tries ex_globals = Some 3"
  by (simp add: upload_tries_def ex_globals_def default_globals_def py_int_def
      py_strip_def py_lstrip_def py_rstrip_def py_isspace_def is_digit_def dec_val_def digit_val_def)

lemmas ex_defs = do_upload_one_def upload_loop.simps upload_attempt_def run_or_echo_def
  subprocess_call_def ex_env_def ex_proc_def ex_globals_def ex_world_def empty_world_def one_file_def
  default_globals_def log_def add_effect_def shlex_quote_def shell_safe_def startswith_def
  is_rclone_copy_def Let_def upload_stage_def try_bind_def path_exists_def upload_tries_def
  py_int_def py_strip_def py_lstrip_def py_rstrip_def py_isspace_def is_digit_def dec_val_def
  digit_val_def auto_tool_def command_exists_def

text \<open>
  Claim C1 on one existing file whose every upload fails, with three tries: the status is
  \<open>failure\<close> after three attempts.
\<close>

theorem final_status_iff_witness:
  "(UPLOAD_TARGET ex_globals = [] \<or> upload_tries ex_globals = Some 3)
   \<and> (\<exists>g' w'. upload_stage (ex_env 5) [''/out/b.zip''] (ex_globals, one_file ''/out/b.zip'' [1])
                  = Inr (g', w')
          \<and> FINAL_STATUS g' = ''failure''
          \<and> Log (UploadExhausted 3) \<in> set (new_effects (one_file ''/out/b.zip'' [1]) w')
          \<and> attempt_lines (new_effects (one_file ''/out/b.zip'' [1]) w') = 3)"
proof -
  let ?w = "one_file ''/out/b.zip'' [1]"
  have h: "UPLOAD_TARGET ex_globals = [] \<or> upload_tries ex_globals = Some 3"
    using ex_tries by simp
  obtain g' w' where r: "upload_stage (ex_env 5) [''/out/b.zip''] (ex_globals, ?w) = Inr (g', w')"
    and i: "FINAL_STATUS g' = ''failure'' \<longleftrightarrow>
              Log (UploadExhausted 3) \<in> set (new_effects ?w w')
              \<or> Log (UnsupportedTool (resolved_tool ex_globals (ex_env 5))) \<in> set (new_effects ?w w')"
    using final_status_iff[OF h, of "ex_env 5" "[''/out/b.zip'']" ?w] by blast
  have ev: "effects (snd (projr (upload_stage (ex_env 5) [''/out/b.zip''] (ex_globals, ?w))))
          = [Log (UploadUsing ''rclone'' ''remote:backups''),
             Log (Attempt 1 3),
             Exec (Shell ''rclone copy /out/b.zip remote:backups --progress''),
             Log (UploadFailed ''rclone''), Sleep 2,
             Log (Attempt 2 3),
             Exec (Shell ''rclone copy /out/b.zip remote:backups --progress''),
             Log (UploadFailed ''rclone''), Sleep 4,
             Log (Attempt 3 3),
             Exec (Shell ''rclone copy /out/b.zip remote:backups --progress''),
             Log (UploadFailed ''rclone''), Sleep 8,
             Log (UploadExhausted 3)]"
    by (simp add: ex_defs)
  then have e: "effects w' = [Log (UploadUsing ''rclone'' ''remote:backups''),
             Log (Attempt 1 3),
             Exec (Shell ''rclone copy /out/b.zip remote:backups --progress''),
             Log (UploadFailed ''rclone''), Sleep 2,
             Log (Attempt 2 3),
             Exec (Shell ''rclone copy /out/b.zip remote:backups --progress''),
             Log (UploadFailed ''rclone''), Sleep 4,
             Log (Attempt 3 3),
             Exec (Shell ''rclone copy /out/b.zip remote:backups --progress''),
             Log (UploadFailed ''rclone''), Sleep 8,
             Log (UploadExhausted 3)]"
    using r by simp
  have n: "new_effects ?w w' = effects w'"
    by (simp add: new_effects_def one_file_def empty_world_def)
  have x: "Log (UploadExhausted 3) \<in> set (new_effects ?w w')" unfolding n e by simp
  then have "FINAL_STATUS g' = ''failure''" using i by simp
  moreover have "attempt_lines (new_effects ?w w') = 3" unfolding n e by simp
  ultimately show ?thesis using h r x by blast
qed

text \<open>
  Claim C1 as stated ties \<open>failure\<close> to a file exhausting its retry budget. With
  \<open>UPLOAD_TOOL=ftp\<close> (a value the configuration file can set) the status is \<open>failure\<close>
  after the first of three attempts, and no upload command has run.
\<close>

theorem unsupported_tool_counterexample:
  "FINAL_STATUS (fst (projr (upload_stage (ex_env 0) [''/out/b.zip'']
       (set_str ''UPLOAD_TOOL'' ''ftp'' ex_globals, one_file ''/out/b.zip'' [1])))) = ''failure''
   \<and> effects (snd (projr (upload_stage (ex_env 0) [''/out/b.zip'']
       (set_str ''UPLOAD_TOOL'' ''ftp'' ex_globals, one_file ''/out/b.zip'' [1]))))
     = [Log (UploadUsing ''ftp'' ''remote:backups''), Log (Attempt 1 3), Log (UnsupportedTool ''ftp'')]"
  by (simp add: ex_defs)

lemma failure_has_origin:
  assumes "DRY_RUN g = 0" "FINAL_STATUS g = ''success''"
    "upload_files e fs (g, w) = Inr (g', w')" "FINAL_STATUS g' = ''failure''"
  shows "\<exists>pre f post g1 w1 rc w2. fs = pre @ f # post
           \<and> upload_files e pre (g, w) = Inr (g1, w1)
           \<and> path_exists w1 f \<and> do_upload_one g1 e f w1 = Inr (rc, w2) \<and> rc \<noteq> 0"
  using assms
proof (induction fs arbitrary: w)
  case Nil
  then show ?case by simp
next
  case (Cons f fs)
  show ?case
  proof (cases "path_exists w f")
    case False
    then have "upload_files e fs (g, w) = Inr (g', w')" using Cons.prems by simp
    then obtain pre f' post g1 w1 rc w2 where p: "fs = pre @ f' # post"
        "upload_files e pre (g, w) = Inr (g1, w1)" "path_exists w1 f'"
        "do_upload_one g1 e f' w1 = Inr (rc, w2)" "rc \<noteq> 0"
      using Cons.IH[of w] Cons.prems by blast
    have "f # fs = (f # pre) @ f' # post" using p(1) by simp
    moreover have "upload_files e (f # pre) (g, w) = Inr (g1, w1)"
      using False Cons.prems(1) p(2) by simp
    ultimately show ?thesis using p(3,4,5) by blast
  next
    case True
    show ?thesis
    proof (cases "do_upload_one g e f w")
      case (Inl a)
      then show ?thesis using True Cons.prems by (simp add: try_bind_def)
    next
      case (Inr b)
      obtain rc w1 where b: "b = (rc, w1)" by (cases b)
      show ?thesis
      proof (cases "rc = 0")
        case False
        have "f # fs = [] @ f # fs" "upload_files e [] (g, w) = Inr (g, w)" by simp_all
        then show ?thesis using True Inr b False by blast
      next
        case rc0: True
        then have "upload_files e fs (g, w1) = Inr (g', w')"
          using True Inr b Cons.prems by (simp add: try_bind_def)
        then obtain pre f' post g1 w1' rc' w2 where p: "fs = pre @ f' # post"
            "upload_files e pre (g, w1) = Inr (g1, w1')" "path_exists w1' f'"
            "do_upload_one g1 e f' w1' = Inr (rc', w2)" "rc' \<noteq> 0"
          using Cons.IH[of w1] Cons.prems by blast
        have "f # fs = (f # pre) @ f' # post" using p(1) by simp
        moreover have "upload_files e (f # pre) (g, w) = Inr (g1, w1')"
          using True Inr b rc0 p(2) by (simp add: try_bind_def)
        ultimately show ?thesis using p(3,4,5) by blast
      qed
    qed
  qed
qed

text \<open>
  Claim C10. With dry-run off, a listed file that does not exist when its turn comes is
  skipped: the loop goes on with the next file, with the same globals and world. And when
  the loop turns a \<open>success\<close> status into \<open>failure\<close>, some listed file existed when it
  was dispatched and \<open>do_upload_one\<close> returned a nonzero status for it.
\<close>

theorem missing_file_skipped:
  assumes "DRY_RUN g = 0"
  shows "(\<not> path_exists w f \<longrightarrow> upload_files e (f # fs) (g, w) = upload_files e fs (g, w))
       \<and> (FINAL_STATUS g = ''success'' \<and> upload_files e fs (g, w) = Inr (g', w')
            \<and> FINAL_STATUS g' = ''failure''
          \<longrightarrow> (\<exists>pre x post g1 w1 rc w2. fs = pre @ x # post
                 \<and> upload_files e pre (g, w) = Inr (g1, w1)
                 \<and> path_exists w1 x \<and> do_upload_one g1 e x w1 = Inr (rc, w2) \<and> rc \<noteq> 0))"
  using assms failure_has_origin[of g e fs w g' w'] by auto

lemma ex_dry: "DRY_RUN ex_globals = 0"
  by (simp add: ex_globals_def default_globals_def)

text \<open>
  Claim C10 on a list of a missing chunk and an existing archive whose upload fails: the
  missing file leaves everything as it was, the failure comes from the existing one.
\<close>

theorem missing_file_skipped_witness:
  "DRY_RUN ex_globals = 0 \<and> \<not> path_exists (one_file ''/out/b.zip'' [1]) ''/out/b.zip.part.000''
   \<and> upload_files (ex_env 5) [''/out/b.zip.part.000''] (ex_globals, one_file ''/out/b.zip'' [1])
       = Inr (ex_globals, one_file ''/out/b.zip'' [1])
   \<and> FINAL_STATUS ex_globals = ''success''
   \<and> (\<exists>g' w'. upload_files (ex_env 5) [''/out/b.zip.part.000'', ''/out/b.zip'']
                   (ex_globals, one_file ''/out/b.zip'' [1]) = Inr (g', w')
          \<and> FINAL_STATUS g' = ''failure'')
   \<and> (\<exists>pre x post g1 w1 rc w2.
          [''/out/b.zip.part.000'', ''/out/b.zip''] = pre @ x # post
          \<and> upload_files (ex_env 5) pre (ex_globals, one_file ''/out/b.zip'' [1]) = Inr (g1, w1)
          \<and> path_exists w1 x \<and> do_upload_one g1 (ex_env 5) x w1 = Inr (rc, w2) \<and> rc \<noteq> 0)"
proof -
  let ?w = "one_file ''/out/b.zip'' [1]"
  let ?fs = "[''/out/b.zip.part.000'', ''/out/b.zip'']"
  have n: "\<not> path_exists ?w ''/out/b.zip.part.000''"
    by (simp add: path_exists_def one_file_def empty_world_def)
  have a: "upload_files (ex_env 5) [''/out/b.zip.part.000''] (ex_globals, ?w)
          = upload_files (ex_env 5) [] (ex_globals, ?w)"
    using missing_file_skipped[OF ex_dry, of ?w "''/out/b.zip.part.000''" "ex_env 5" "[]"] n by blast
  have s: "FINAL_STATUS ex_globals = ''success''"
    by (simp add: ex_globals_def default_globals_def)
  have ev: "\<exists>g' w'. upload_files (ex_env 5) ?fs (ex_globals, ?w) = Inr (g', w')
               \<and> FINAL_STATUS g' = ''failure''"
    by (simp add: ex_defs)
  then obtain g' w' where r: "upload_files (ex_env 5) ?fs (ex_globals, ?w) = Inr (g', w')"
      "FINAL_STATUS g' = ''failure''" by blast
  have b: "\<exists>pre x post g1 w1 rc w2. ?fs = pre @ x # post
          \<and> upload_files (ex_env 5) pre (ex_globals, ?w) = Inr (g1, w1)
          \<and> path_exists w1 x \<and> do_upload_one g1 (ex_env 5) x w1 = Inr (rc, w2) \<and> rc \<noteq> 0"
    using missing_file_skipped[OF ex_dry, of ?w "''/out/b.zip.part.000''" "ex_env 5" ?fs g' w'] s r
    by blast
  show ?thesis using ex_dry n a s ev b by simp
qed

subsection \<open>Plugin resolution\<close>

lemma probe_candidates_find:
  "probe_candidates e w ps
     = (case find (usable w) ps of None \<Rightarrow> None | Some p \<Rightarrow> Some (plugin_cmd e w p, p))"
  by (induction ps) (auto simp: usable_def plugin_cmd_def)

lemma startswith_slash: "startswith s ''/'' \<Longrightarrow> CHR ''/'' \<in> set s"
  by (cases s) (auto simp: startswith_def)

lemma plugin_candidates_eq:
  "plugin_candidates tgt dir
     = (if CHR ''/'' \<in> set tgt then [tgt, tgt @ ''.py'', tgt @ ''.sh'']
        else [os_path_join dir tgt, os_path_join dir (tgt @ ''.py''), os_path_join dir (tgt @ ''.sh'')])"
  using startswith_slash[of tgt] by (auto simp: plugin_candidates_def Let_def)

text \<open>
  Claim C7, as the code has it. A notify target that contains a slash is probed as the
  literal path only, any other target under the plugins directory only; in both cases with
  no extension, then \<open>.py\<close>, then \<open>.sh\<close>. The first candidate that is a regular file and is
  executable, or is a regular file whose name ends in \<open>.py\<close>, wins: an executable one is
  run directly, a non-executable \<open>.py\<close> through the Python interpreter; a non-executable
  file of any other name is passed over. A target that is neither built in nor resolvable
  adds one log line and nothing else.
\<close>

theorem resolve_plugin_order:
  "plugin_candidates tgt dir
     = (if CHR ''/'' \<in> set tgt then [tgt, tgt @ ''.py'', tgt @ ''.sh'']
        else [os_path_join dir tgt, os_path_join dir (tgt @ ''.py''), os_path_join dir (tgt @ ''.sh'')])
   \<and> resolve_plugin e w tgt dir
       = (case find (usable w) (plugin_candidates tgt dir) of
            None \<Rightarrow> None
          | Some p \<Rightarrow> Some (if p \<in> xfiles w then [p] else [sys_executable e, p], p))
   \<and> (py_strip t \<noteq> ''telegram'' \<and> py_strip t \<noteq> ''email''
        \<and> resolve_plugin e w (py_strip t) (PLUGINS_DIR g) = None
      \<longrightarrow> notify_target g e penv event st primary t w
            = log (PluginNotFound (py_strip t) (PLUGINS_DIR g)) w)"
  using plugin_candidates_eq[of tgt dir]
  by (simp add: resolve_plugin_def probe_candidates_find plugin_cmd_def notify_target_def Let_def)

lemmas plug_defs = resolve_plugin_def plugin_candidates_def os_path_join_def startswith_def
  endswith_def is_file_def plugin_world_def empty_world_def one_file_def usable_def
  py_strip_def py_lstrip_def py_rstrip_def py_isspace_def ex_env_def

text \<open>
  Claim C7 on a plugins directory holding the executable \<open>hook\<close>: \<open>hook\<close> resolves to
  it, and the unknown target \<open>nohook\<close> is only logged.
\<close>

theorem resolve_plugin_order_witness:
  "py_strip ''nohook'' \<noteq> ''telegram'' \<and> py_strip ''nohook'' \<noteq> ''email''
   \<and> resolve_plugin (ex_env 0) plugin_world (py_strip ''nohook'') (PLUGINS_DIR ex_globals) = None
   \<and> notify_target ex_globals (ex_env 0) [] ''on_success'' ''success'' ''/out/b.zip'' ''nohook'' plugin_world
       = log (PluginNotFound ''nohook'' ''./plugins.d'') plugin_world
   \<and> resolve_plugin (ex_env 0) plugin_world ''hook'' ''./plugins.d''
       = Some ([''./plugins.d/hook''], ''./plugins.d/hook'')"
proof -
  have s: "py_strip ''nohook'' = ''nohook''"
    by (simp add: py_strip_def py_lstrip_def py_rstrip_def py_isspace_def)
  have d: "PLUGINS_DIR ex_globals = ''./plugins.d''"
    by (simp add: ex_globals_def default_globals_def set_str_def set_int_def)
  have n: "resolve_plugin (ex_env 0) plugin_world (py_strip ''nohook'') (PLUGINS_DIR ex_globals) = None"
    unfolding s d by (simp add: plug_defs)
  have a: "py_strip ''nohook'' \<noteq> ''telegram'' \<and> py_strip ''nohook'' \<noteq> ''email''"
    unfolding s by simp
  note T = resolve_plugin_order[of "''hook''" "''./plugins.d''" "ex_env 0" plugin_world "''nohook''"
      ex_globals "[]" "''on_success''" "''success''" "''/out/b.zip''"]
  have "notify_target ex_globals (ex_env 0) [] ''on_success'' ''success'' ''/out/b.zip'' ''nohook'' plugin_world
       = log (PluginNotFound (py_strip ''nohook'') (PLUGINS_DIR ex_globals)) plugin_world"
    using T a n by blast
  moreover have "resolve_plugin (ex_env 0) plugin_world ''hook'' ''./plugins.d''
       = Some ([''./plugins.d/hook''], ''./plugins.d/hook'')"
    using T by (simp add: plug_defs)
  ultimately show ?thesis using a n by (simp add: s d)
qed

text \<open>
  Claim C7 as stated has the literal path tried first for every target, and every
  non-executable script run through an interpreter. For the bare name \<open>hook\<close> an executable
  file \<open>hook\<close> at the literal path is not found, and a non-executable \<open>hook.sh\<close> in the
  plugins directory is not run.
\<close>

theorem resolve_plugin_counterexample:
  "is_file ((one_file ''hook'' [35, 33])\<lparr>xfiles := {''hook''}\<rparr>) ''hook''
   \<and> ''hook'' \<in> xfiles ((one_file ''hook'' [35, 33])\<lparr>xfiles := {''hook''}\<rparr>)
   \<and> hd (spec_plugin_candidates ''hook'' ''./plugins.d'') = ''hook''
   \<and> resolve_plugin (ex_env 0) ((one_file ''hook'' [35, 33])\<lparr>xfiles := {''hook''}\<rparr>)
        ''hook'' ''./plugins.d'' = None
   \<and> is_file (one_file ''./plugins.d/hook.sh'' [35, 33]) ''./plugins.d/hook.sh''
   \<and> resolve_plugin (ex_env 0) (one_file ''./plugins.d/hook.sh'' [35, 33]) ''hook'' ''./plugins.d''
       = None"
  by (simp add: plug_defs spec_plugin_candidates_def)

subsection \<open>The notification payload\<close>

lemma log_or_exec_simps [simp]: "log_or_exec (Log m)" "log_or_exec (Exec c)"
  by (simp_all add: log_or_exec_def)

lemma command_effect_log_or_exec: "command_effect x \<Longrightarrow> log_or_exec x"
  by (induction x rule: command_effect.induct) simp_all

lemma log_or_exec_notify: "log_or_exec x \<Longrightarrow> notify_effect e penv x"
  by (cases x) (simp_all add: log_or_exec_def notify_effect_def)

lemma log_or_exec_no_plugin: "list_all log_or_exec d \<Longrightarrow> plugin_envs d = []"
  by (induction d) (auto simp: plugin_envs_def log_or_exec_def split: effect.splits)

lemma run_or_echo_log_or_exec:
  "\<exists>d. effects (snd (run_or_echo g e c w)) = effects w @ d \<and> list_all log_or_exec d"
proof -
  obtain d where "effects (snd (run_or_echo g e c w)) = effects w @ d" "list_all command_effect d"
    using run_or_echo_trace[of g e c w] by blast
  then show ?thesis using command_effect_log_or_exec
    by (metis (mono_tags, lifting) list.pred_mono_strong)
qed

lemma notify_telegram_trace:
  "\<exists>d. effects (notify_telegram g e st base ap w) = effects w @ d \<and> list_all log_or_exec d"
  using run_or_echo_log_or_exec[of g e _ w]
  by (auto simp: notify_telegram_def Let_def split: option.splits intro: exI[of _ "[Log m]" for m])

lemma notify_email_trace:
  "\<exists>d. effects (notify_email g e st base ap tg w) = effects w @ d \<and> list_all log_or_exec d"
  using run_or_echo_log_or_exec[of g e _ w]
  by (auto simp: notify_email_def Let_def split: option.splits intro: exI[of _ "[Log m]" for m])

lemma builtin_trace:
  assumes "list_all log_or_exec d"
  shows "list_all (notify_effect e penv) d" "plugin_envs d = []"
  using assms log_or_exec_no_plugin[of d] log_or_exec_notify[of _ e penv]
  by (auto simp: list_all_iff)

lemma resolve_plugin_cmd:
  "resolve_plugin e w tgt dir = Some (c, p) \<Longrightarrow> c = plugin_cmd e w p"
  by (auto simp: resolve_plugin_def probe_candidates_find split: option.splits)

lemma notify_target_trace:
  "\<exists>d. effects (notify_target g e penv ev st pr tgt w) = effects w @ d
       \<and> list_all (notify_effect e penv) d \<and> (DRY_RUN g \<noteq> 0 \<longrightarrow> plugin_envs d = [])"
proof -
  let ?t = "py_strip tgt"
  consider (tg) "?t = ''telegram''" | (em) "?t \<noteq> ''telegram''" "?t = ''email''"
    | (pl) "?t \<noteq> ''telegram''" "?t \<noteq> ''email''" by blast
  then show ?thesis
  proof cases
    case tg
    obtain d where "effects (notify_telegram g e st (BASE g) pr w) = effects w @ d"
        "list_all log_or_exec d"
      using notify_telegram_trace by blast
    moreover have "notify_target g e penv ev st pr tgt w = notify_telegram g e st (BASE g) pr w"
      using tg by (simp add: notify_target_def Let_def)
    ultimately show ?thesis using builtin_trace(1)[of d e penv] builtin_trace(2)[of d] by auto
  next
    case em
    obtain d where "effects (notify_email g e st (BASE g) pr (UPLOAD_TARGET g) w) = effects w @ d"
        "list_all log_or_exec d"
      using notify_email_trace by blast
    moreover have "notify_target g e penv ev st pr tgt w
                     = notify_email g e st (BASE g) pr (UPLOAD_TARGET g) w"
      using em by (simp add: notify_target_def Let_def)
    ultimately show ?thesis using builtin_trace(1)[of d e penv] builtin_trace(2)[of d] by auto
  next
    case pl
    show ?thesis
    proof (cases "resolve_plugin e w ?t (PLUGINS_DIR g)")
      case None
      then have "notify_target g e penv ev st pr tgt w = log (PluginNotFound ?t (PLUGINS_DIR g)) w"
        using pl by (simp add: notify_target_def Let_def)
      then show ?thesis by (simp add: plugin_envs_def notify_effect_def)
    next
      case (Some a)
      obtain c p where a: "a = (c, p)" by (cases a)
      have c: "c = plugin_cmd e w p" using Some a resolve_plugin_cmd by simp
      show ?thesis
      proof (cases "DRY_RUN g \<noteq> 0")
        case True
        then have "notify_target g e penv ev st pr tgt w = log (DryRunPlugin p ev c) w"
          using pl Some a by (simp add: notify_target_def Let_def)
        then show ?thesis by (simp add: plugin_envs_def notify_effect_def)
      next
        case False
        obtain rc w' where r: "plugin_proc e c penv w = (rc, w')" by (cases "plugin_proc e c penv w")
        let ?w1 = "w'\<lparr>effects := effects w @ [ExecEnv c penv]\<rparr>"
        have "notify_target g e penv ev st pr tgt w = (case rc of None \<Rightarrow> log PluginError ?w1 | Some r \<Rightarrow> ?w1)"
          using pl Some a False r by (simp add: notify_target_def Let_def)
        then have "effects (notify_target g e penv ev st pr tgt w) = effects w @ [ExecEnv c penv]
                 \<or> effects (notify_target g e penv ev st pr tgt w) = effects w @ [ExecEnv c penv, Log PluginError]"
          by (cases rc) simp_all
        moreover have "notify_effect e penv (ExecEnv c penv)"
          by (simp add: notify_effect_def c plugin_cmd_def)
        ultimately show ?thesis using False by (auto simp: notify_effect_def)
      qed
    qed
  qed
qed

lemma notify_fold_trace:
  "\<exists>d. effects (foldl (\<lambda>w tgt. notify_target g e penv ev st pr tgt w) w tgts) = effects w @ d
       \<and> list_all (notify_effect e penv) d \<and> (DRY_RUN g \<noteq> 0 \<longrightarrow> plugin_envs d = [])"
proof (induction tgts arbitrary: w)
  case Nil
  then show ?case by (simp add: plugin_envs_def)
next
  case (Cons t ts)
  let ?w1 = "notify_target g e penv ev st pr t w"
  obtain d1 where d1: "effects ?w1 = effects w @ d1" "list_all (notify_effect e penv) d1"
      "DRY_RUN g \<noteq> 0 \<longrightarrow> plugin_envs d1 = []"
    using notify_target_trace[of g e penv ev st pr t w] by blast
  obtain d2 where d2: "effects (foldl (\<lambda>w tgt. notify_target g e penv ev st pr tgt w) ?w1 ts)
                         = effects ?w1 @ d2"
      "list_all (notify_effect e penv) d2" "DRY_RUN g \<noteq> 0 \<longrightarrow> plugin_envs d2 = []"
    using Cons.IH[of ?w1] by blast
  have "effects (foldl (\<lambda>w tgt. notify_target g e penv ev st pr tgt w) w (t # ts))
          = effects w @ (d1 @ d2)" using d1(1) d2(1) by simp
  moreover have "list_all (notify_effect e penv) (d1 @ d2)" using d1(2) d2(2) by simp
  moreover have "DRY_RUN g \<noteq> 0 \<longrightarrow> plugin_envs (d1 @ d2) = []"
    using d1(3) d2(3) by (simp add: plugin_envs_def)
  ultimately show ?case by blast
qed

lemma human_total_size_effects [simp]:
  "human_total_size (add_effect x w) fs = human_total_size w fs"
  by (simp add: human_total_size_def add_effect_def)

lemma run_plugins_trace:
  "\<exists>d. effects (run_plugins g e ev st pr fs w) = effects w @ RunPlugins ev st # d
       \<and> list_all (notify_effect e (env_update (environ e) (plugin_payload g w ev st pr fs))) d
       \<and> (DRY_RUN g \<noteq> 0 \<longrightarrow> plugin_envs d = [])"
proof -
  let ?penv = "env_update (environ e) (plugin_payload g w ev st pr fs)"
  let ?w0 = "add_effect (RunPlugins ev st) w"
  have p: "plugin_payload g ?w0 ev st pr fs = plugin_payload g w ev st pr fs"
    by (simp add: plugin_payload_def)
  have r: "run_plugins g e ev st pr fs w
             = foldl (\<lambda>w tgt. notify_target g e ?penv ev st pr tgt w) ?w0 (NOTIFY_TARGETS g)"
    by (simp add: run_plugins_def Let_def p)
  obtain d where "effects (foldl (\<lambda>w tgt. notify_target g e ?penv ev st pr tgt w) ?w0 (NOTIFY_TARGETS g))
                    = effects ?w0 @ d"
      "list_all (notify_effect e ?penv) d" "DRY_RUN g \<noteq> 0 \<longrightarrow> plugin_envs d = []"
    using notify_fold_trace[of g e ?penv ev st pr ?w0 "NOTIFY_TARGETS g"] by blast
  then show ?thesis using r by simp
qed

lemma notify_effect_envs:
  "list_all (notify_effect e penv) d \<Longrightarrow> pe \<in> set (plugin_envs d) \<Longrightarrow> pe = penv"
  by (induction d) (auto simp: plugin_envs_def notify_effect_def split: effect.splits)

lemma payload_lookup:
  "map_of (env_update base (plugin_payload g w ev st pr fs)) k
     = (case map_of (plugin_payload g w ev st pr fs) k of
          Some v \<Rightarrow> Some v
        | None \<Rightarrow> map_of (filter (\<lambda>(k, v). k \<notin> set (map fst (plugin_payload g w ev st pr fs))) base) k)"
  by (simp add: env_update_def map_add_def split: option.splits)

text \<open>
  Claim C5. Every plugin process \<open>run_plugins\<close> starts is given an environment in which
  \<open>EVENT\<close>, \<open>STATUS\<close>, \<open>SUMMARY_FILE\<close>, \<open>ARCHIVE_PATH\<close>, \<open>FILES\<close> (the file list joined
  by newlines), \<open>OUTPUT_DIR\<close>, \<open>BASE_NAME\<close>, \<open>LOG_FILE\<close>, \<open>NOTIFY_CONFIG\<close>,
  \<open>UPLOAD_TARGET\<close>, \<open>DRY_RUN\<close> and \<open>TOTAL_SIZE\<close> hold the payload of the notification;
  its command line is the plugin's path alone, or the interpreter and the path. Since a
  plugin is only started when dry-run is off, the \<open>DRY_RUN\<close> value it sees is \<open>0\<close>.
\<close>

theorem plugin_env_contract:
  "\<forall>pe \<in> set (plugin_envs (new_effects w (run_plugins g e event st primary fs w))).
      map_of pe ''EVENT'' = Some event
      \<and> map_of pe ''STATUS'' = Some st
      \<and> map_of pe ''SUMMARY_FILE'' = Some (SUMMARY_JSON g)
      \<and> map_of pe ''ARCHIVE_PATH'' = Some primary
      \<and> map_of pe ''FILES'' = Some (py_join [CHR 0x0A] fs)
      \<and> map_of pe ''OUTPUT_DIR'' = Some (OUT_DIR g)
      \<and> map_of pe ''BASE_NAME'' = Some (BASE g)
      \<and> map_of pe ''LOG_FILE'' = Some (LOG_FILE g)
      \<and> map_of pe ''NOTIFY_CONFIG'' = Some (NOTIFY_CONFIG g)
      \<and> map_of pe ''UPLOAD_TARGET'' = Some (UPLOAD_TARGET g)
      \<and> map_of pe ''DRY_RUN'' = Some (py_str_int (DRY_RUN g))
      \<and> py_str_int (DRY_RUN g) = ''0''
      \<and> map_of pe ''TOTAL_SIZE'' = Some (human_total_size w fs)
      \<and> list_all (notify_effect e pe) (tl (new_effects w (run_plugins g e event st primary fs w)))"
proof
  fix pe
  let ?penv = "env_update (environ e) (plugin_payload g w event st primary fs)"
  assume a: "pe \<in> set (plugin_envs (new_effects w (run_plugins g e event st primary fs w)))"
  obtain d where d: "effects (run_plugins g e event st primary fs w) = effects w @ RunPlugins event st # d"
      "list_all (notify_effect e ?penv) d" "DRY_RUN g \<noteq> 0 \<longrightarrow> plugin_envs d = []"
    using run_plugins_trace[of g e event st primary fs w] by blast
  have n: "new_effects w (run_plugins g e event st primary fs w) = RunPlugins event st # d"
    using d(1) by (simp add: new_effects_def)
  have m: "pe \<in> set (plugin_envs d)" using a n by (simp add: plugin_envs_def)
  then have pe: "pe = ?penv" using notify_effect_envs[OF d(2)] by simp
  have dr: "DRY_RUN g = 0" using m d(3) by auto
  have z: "py_str_int (DRY_RUN g) = ''0''" unfolding dr by code_simp
  show "map_of pe ''EVENT'' = Some event
      \<and> map_of pe ''STATUS'' = Some st
      \<and> map_of pe ''SUMMARY_FILE'' = Some (SUMMARY_JSON g)
      \<and> map_of pe ''ARCHIVE_PATH'' = Some primary
      \<and> map_of pe ''FILES'' = Some (py_join [CHR 0x0A] fs)
      \<and> map_of pe ''OUTPUT_DIR'' = Some (OUT_DIR g)
      \<and> map_of pe ''BASE_NAME'' = Some (BASE g)
      \<and> map_of pe ''LOG_FILE'' = Some (LOG_FILE g)
      \<and> map_of pe ''NOTIFY_CONFIG'' = Some (NOTIFY_CONFIG g)
      \<and> map_of pe ''UPLOAD_TARGET'' = Some (UPLOAD_TARGET g)
      \<and> map_of pe ''DRY_RUN'' = Some (py_str_int (DRY_RUN g))
      \<and> py_str_int (DRY_RUN g) = ''0''
      \<and> map_of pe ''TOTAL_SIZE'' = Some (human_total_size w fs)
      \<and> list_all (notify_effect e pe) (tl (new_effects w (run_plugins g e event st primary fs w)))"
    unfolding pe payload_lookup using z d(2) dr by (simp add: plugin_payload_def n)
qed

text \<open>
  Claim C5 on a run that notifies the executable plugin \<open>hook\<close> of a success.
\<close>

theorem plugin_env_contract_witness:
  "\<exists>pe. pe \<in> set (plugin_envs (new_effects plugin_world
             (run_plugins notify_globals (ex_env 0) ''on_success'' ''success'' ''/out/b.zip''
                [''/out/b.zip''] plugin_world)))
        \<and> map_of pe ''EVENT'' = Some ''on_success''
        \<and> map_of pe ''STATUS'' = Some ''success''
        \<and> map_of pe ''ARCHIVE_PATH'' = Some ''/out/b.zip''
        \<and> map_of pe ''DRY_RUN'' = Some ''0''
        \<and> map_of pe ''TOTAL_SIZE'' = Some ''4.0 B''"
proof -
  let ?r = "run_plugins notify_globals (ex_env 0) ''on_success'' ''success'' ''/out/b.zip''
              [''/out/b.zip''] plugin_world"
  have "length (plugin_envs (new_effects plugin_world ?r)) = 1"
    by (simp add: run_plugins_def notify_target_def resolve_plugin_def plugin_candidates_def
        os_path_join_def startswith_def is_file_def plugin_world_def empty_world_def
        notify_globals_def ex_globals_def default_globals_def ex_env_def new_effects_def
        plugin_envs_def add_effect_def py_strip_def py_lstrip_def py_rstrip_def py_isspace_def
        Let_def)
  then obtain pe where pe: "pe \<in> set (plugin_envs (new_effects plugin_world ?r))"
    by (metis less_numeral_extra(1) nth_mem)
  have sz: "human_total_size plugin_world [''/out/b.zip''] = ''4.0 B''"
    by (simp add: human_total_size_def plugin_world_def empty_world_def fmt_1f_def dec_str.simps
        digit_char_def) code_simp
  note T = plugin_env_contract[rule_format, OF pe]
  have "map_of pe ''EVENT'' = Some ''on_success''" "map_of pe ''STATUS'' = Some ''success''"
    "map_of pe ''ARCHIVE_PATH'' = Some ''/out/b.zip''" "map_of pe ''DRY_RUN'' = Some ''0''"
    "map_of pe ''TOTAL_SIZE'' = Some ''4.0 B''"
    using T sz by simp_all
  then show ?thesis using pe by blast
qed

subsection \<open>\<open>parse_split_size\<close> and the split stage\<close>

lemma py_rstrip_last: "py_rstrip s \<noteq> [] \<Longrightarrow> \<not> py_isspace (last (py_rstrip s))"
proof -
  assume a: "py_rstrip s \<noteq> []"
  then have n: "dropWhile py_isspace (rev s) \<noteq> []" by (simp add: py_rstrip_def)
  then have "\<not> py_isspace (hd (dropWhile py_isspace (rev s)))" by (rule hd_dropWhile)
  moreover have "last (py_rstrip s) = hd (dropWhile py_isspace (rev s))"
    using n by (simp add: py_rstrip_def last_rev)
  ultimately show ?thesis by simp
qed

lemma py_strip_last: "py_strip s \<noteq> [] \<Longrightarrow> last (py_strip s) \<noteq> CHR 0x0A"
  using py_rstrip_last[of "py_lstrip s"] by (auto simp: py_strip_def py_isspace_def)

lemma size_re_match_eq:
  assumes "t = [] \<or> last t \<noteq> CHR 0x0A"
  shows "size_re_match t = (if size_form t then Some (butlast t, last t) else None)"
  using assms by (auto simp: size_re_match_def size_form_def Let_def)

lemma ascii_lower_units:
  "ascii_lower (CHR ''k'') = CHR ''k''" "ascii_lower (CHR ''K'') = CHR ''k''"
  "ascii_lower (CHR ''m'') = CHR ''m''" "ascii_lower (CHR ''M'') = CHR ''m''"
  "ascii_lower (CHR ''g'') = CHR ''g''" "ascii_lower (CHR ''G'') = CHR ''g''"
  by code_simp+

lemma unit_value:
  assumes "u \<in> set ''kKmMgG''"
  shows "(let unit = ascii_lower u
          in if unit = CHR ''k'' then Some (n * 1024)
             else if unit = CHR ''m'' then Some (n * 1024 * 1024)
             else if unit = CHR ''g'' then Some (n * 1024 * 1024 * 1024)
             else None) = Some (n * unit_bytes u)"
proof -
  consider "u = CHR ''k''" | "u = CHR ''K''" | "u = CHR ''m''" | "u = CHR ''M''"
    | "u = CHR ''g''" | "u = CHR ''G''"
    using assms by auto
  then show ?thesis
    by cases (simp_all add: ascii_lower_units unit_bytes_def)
qed

lemma parse_split_size_eq:
  "parse_split_size s
     = (if s \<noteq> [] \<and> size_form (py_strip s)
        then Some (int (dec_val (butlast (py_strip s))) * unit_bytes (last (py_strip s)))
        else None)"
proof -
  have "py_strip s = [] \<or> last (py_strip s) \<noteq> CHR 0x0A" using py_strip_last[of s] by blast
  then have m: "size_re_match (py_strip s)
                  = (if size_form (py_strip s) then Some (butlast (py_strip s), last (py_strip s))
                     else None)"
    by (rule size_re_match_eq)
  show ?thesis
  proof (cases "s \<noteq> [] \<and> size_form (py_strip s)")
    case False
    then show ?thesis unfolding parse_split_size_def m by auto
  next
    case True
    then have u: "last (py_strip s) \<in> set ''kKmMgG''" by (simp add: size_form_def)
    have "parse_split_size s
            = (let n = int (dec_val (butlast (py_strip s))); unit = ascii_lower (last (py_strip s))
               in if unit = CHR ''k'' then Some (n * 1024)
                  else if unit = CHR ''m'' then Some (n * 1024 * 1024)
                  else if unit = CHR ''g'' then Some (n * 1024 * 1024 * 1024)
                  else None)"
      unfolding parse_split_size_def m using True by simp
    also have "\<dots> = Some (int (dec_val (butlast (py_strip s))) * unit_bytes (last (py_strip s)))"
      using unit_value[OF u, of "int (dec_val (butlast (py_strip s)))"] by (simp add: Let_def)
    finally show ?thesis using True by simp
  qed
qed

lemma not_splits_empty: "\<not> splits []"
  by (simp add: splits_def parse_split_size_def)

lemma split_stage_no_split:
  assumes "\<not> splits (SPLIT_SIZE g)"
  shows "split_stage g e po w
           = Inr ([po], log (if SPLIT_SIZE g = [] then ArchiveReady po else SplitInvalid) w)"
  using assms by (auto simp: split_stage_def splits_def split: option.splits)

lemma make_archive_no_split:
  assumes "\<not> splits (SPLIT_SIZE g)" "make_archive g e paths w = Inr ((po, fs), g', w')"
  shows "fs = [po]"
proof -
  let ?g1 = "set_str ''LOG_FILE'' (path_join e (OUT_DIR g) (BASE g @ ''.log'')) g"
  have "\<not> splits (SPLIT_SIZE ?g1)" using assms(1) by simp
  then have s: "\<And>p w. split_stage ?g1 e p w
           = Inr ([p], log (if SPLIT_SIZE ?g1 = [] then ArchiveReady p else SplitInvalid) w)"
    by (rule split_stage_no_split)
  show ?thesis using assms(2)
    by (auto simp: make_archive_def try_bind_def Let_def s split: if_splits sum.splits prod.splits)
qed

lemmas arch_defs = make_archive_def mkdir_p_def create_archive_def gpg_encrypt_def split_stage_def
  checksum_stage_def summary_stage_def collect_exclude_patterns_def build_zip_exclude_args_def
  archive_globals_def

lemma ex_make_archive:
  "\<exists>g' w'. make_archive (set_str ''SPLIT_SIZE'' ''abc'' archive_globals) (ex_env 0) [''/data''] ex_world
            = Inr ((''/out/b.zip'', [''/out/b.zip'']), g', w')"
  by (simp add: arch_defs ex_defs parse_split_size_def size_re_match_def)

lemma size_form_strip: "size_form s \<Longrightarrow> py_strip s = s"
proof -
  assume a: "size_form s"
  then have ne: "s \<noteq> []" "butlast s \<noteq> []" and dg: "list_all is_digit (butlast s)"
    and u: "last s \<in> set ''kKmMgG''"
    by (simp_all add: size_form_def)
  have "hd s = hd (butlast s)" using ne by (metis append_butlast_last_id hd_append2)
  moreover have "is_digit (hd (butlast s))" using dg ne(2) by (cases "butlast s") simp_all
  ultimately have "\<not> py_isspace (hd s)" by (auto simp: is_digit_def py_isspace_def)
  then have l: "py_lstrip s = s" using ne(1) by (cases s) (simp_all add: py_lstrip_def)
  have "\<not> py_isspace (last s)" using u by (auto simp: py_isspace_def)
  then have "dropWhile py_isspace (rev s) = rev s"
    using ne(1) by (cases "rev s") (auto simp: last_rev[symmetric] hd_rev)
  then have "py_rstrip s = s" by (simp add: py_rstrip_def)
  then show ?thesis using l by (simp add: py_strip_def)
qed

text \<open>
  Claim C3, as the code has it. \<open>parse_split_size\<close> strips surrounding white space first.
  If what is left is \<open>N\<close> followed by one of k, m, g in either case, the result is exactly
  \<open>N * 1024\<close>, \<open>N * 1024^2\<close> or \<open>N * 1024^3\<close>; for every other string it is \<open>None\<close>. In
  particular a string of that form parses to that value. When the configured size does not
  parse, or parses to zero, the split stage writes nothing and hands on the unsplit artifact
  as the only upload candidate, and so does \<open>make_archive\<close> whenever it returns.
\<close>

theorem split_size_parsing:
  "parse_split_size s
     = (if s \<noteq> [] \<and> size_form (py_strip s)
        then Some (int (dec_val (butlast (py_strip s))) * unit_bytes (last (py_strip s)))
        else None)
   \<and> (size_form s \<longrightarrow>
        parse_split_size s = Some (int (dec_val (butlast s)) * unit_bytes (last s)))
   \<and> (parse_split_size s = None \<longrightarrow> \<not> splits s)
   \<and> (\<not> splits (SPLIT_SIZE g) \<longrightarrow>
        split_stage g e primary w
          = Inr ([primary], log (if SPLIT_SIZE g = [] then ArchiveReady primary else SplitInvalid) w))
   \<and> (\<not> splits (SPLIT_SIZE g) \<and> make_archive g e paths w = Inr ((primary, fs), g', w')
        \<longrightarrow> fs = [primary])"
proof -
  have a: "size_form s \<longrightarrow>
        parse_split_size s = Some (int (dec_val (butlast s)) * unit_bytes (last s))"
  proof
    assume f: "size_form s"
    then have "s \<noteq> []" by (simp add: size_form_def)
    then show "parse_split_size s = Some (int (dec_val (butlast s)) * unit_bytes (last s))"
      using f size_form_strip[OF f] by (simp add: parse_split_size_eq)
  qed
  have b: "parse_split_size s = None \<longrightarrow> \<not> splits s" by (simp add: splits_def)
  show ?thesis
    using parse_split_size_eq[of s] a b split_stage_no_split[of g e primary w]
      make_archive_no_split[of g e paths w primary fs g' w']
    by blast
qed

text \<open>
  Claim C3 on \<open>100m\<close>, which parses to 104857600, and on a run with \<open>--split abc\<close>, whose
  only upload candidate is the archive.
\<close>

theorem split_size_parsing_witness:
  "size_form ''100m'' \<and> parse_split_size ''100m'' = Some (100 * 1024 * 1024)
   \<and> parse_split_size ''abc'' = None \<and> \<not> splits ''abc''
   \<and> (\<exists>g' w'. make_archive (set_str ''SPLIT_SIZE'' ''abc'' archive_globals) (ex_env 0) [''/data''] ex_world
            = Inr ((''/out/b.zip'', [''/out/b.zip'']), g', w'))"
proof -
  let ?g = "set_str ''SPLIT_SIZE'' ''abc'' archive_globals"
  note T = split_size_parsing
  have f: "size_form ''100m''" by (simp add: size_form_def is_digit_def)
  have "parse_split_size ''100m'' = Some (int (dec_val (butlast ''100m'')) * unit_bytes (last ''100m''))"
    using T[of "''100m''"] f by blast
  then have p: "parse_split_size ''100m'' = Some (100 * 1024 * 1024)"
    by (simp add: dec_val_def digit_val_def unit_bytes_def)
  have n: "parse_split_size ''abc'' = None"
    by (simp add: parse_split_size_eq size_form_def py_strip_def py_lstrip_def py_rstrip_def
        py_isspace_def is_digit_def)
  then have ns: "\<not> splits ''abc''" using T[of "''abc''"] by blast
  have sg: "SPLIT_SIZE ?g = ''abc''" by simp
  obtain po fs g' w' where m: "make_archive ?g (ex_env 0) [''/data''] ex_world = Inr ((po, fs), g', w')"
    and po: "po = ''/out/b.zip''"
    using ex_make_archive by blast
  have "fs = [po]" using T[of _ ?g "ex_env 0" po ex_world "[''/data'']" fs g' w'] ns sg m by simp
  then show ?thesis using f p n ns m po by simp
qed

text \<open>
  Claim C3 as stated has every string that is not of the form \<open>N{k|m|g}\<close> yield no
  split. The string \<open>10k\<close> with a leading space is not of that form, and is parsed to
  10240 bytes.
\<close>

theorem split_size_strip_counterexample:
  "\<not> size_form '' 10k'' \<and> parse_split_size '' 10k'' = Some 10240 \<and> splits '' 10k''"
  by (simp add: splits_def parse_split_size_eq size_form_def py_strip_def py_lstrip_def py_rstrip_def
      py_isspace_def is_digit_def dec_val_def digit_val_def unit_bytes_def)

subsection \<open>What \<open>make_archive\<close> adds to the effects\<close>

lemma adds_iff: "adds P w w' \<longleftrightarrow> (\<exists>d. effects w' = effects w @ d \<and> list_all P d)"
proof
  assume "adds P w w'"
  then have "effects w' = effects w @ new_effects w w'" "list_all P (new_effects w w')"
    by (simp_all add: adds_def new_effects_def) (metis append_take_drop_id)
  then show "\<exists>d. effects w' = effects w @ d \<and> list_all P d" by blast
next
  assume "\<exists>d. effects w' = effects w @ d \<and> list_all P d"
  then show "adds P w w'" by (auto simp: adds_def new_effects_def)
qed

lemma adds_refl [simp]: "adds P w w"
  by (simp add: adds_iff)

lemma adds_trans: "adds P w w1 \<Longrightarrow> adds P w1 w2 \<Longrightarrow> adds P w w2"
  by (auto simp: adds_iff)

lemma adds_step: "adds P w w1 \<Longrightarrow> effects w2 = effects w1 @ d \<Longrightarrow> list_all P d \<Longrightarrow> adds P w w2"
  by (auto simp: adds_iff)

lemma adds_new: "adds P w w' \<Longrightarrow> list_all P (new_effects w w')"
  by (simp add: adds_def)


lemma radds_simps [simp]:
  "radds P wof w (Inl (err, w')) = adds P w w'"
  "radds P wof w (Inr x) = adds P w (wof x)"
  by (simp_all add: radds_def)

lemma radds_bind:
  assumes "radds P wof1 w m" "\<And>x. m = Inr x \<Longrightarrow> radds P wof2 (wof1 x) (f x)"
  shows "radds P wof2 w (try_bind m f)"
proof (cases m)
  case (Inl a)
  then show ?thesis using assms(1) by (cases a) (simp add: try_bind_def)
next
  case (Inr x)
  then have a: "adds P w (wof1 x)" using assms(1) by simp
  have "radds P wof2 (wof1 x) (f x)" using assms(2) Inr by simp
  then have "radds P wof2 w (f x)"
    using a by (cases "f x") (auto simp: radds_def intro: adds_trans split: prod.splits)
  then show ?thesis using Inr by (simp add: try_bind_def)
qed

lemma radds_trans: "adds P w w1 \<Longrightarrow> radds P wof w1 r \<Longrightarrow> radds P wof w r"
  by (cases r) (auto simp: radds_def intro: adds_trans split: prod.splits)

lemma adds_log: "P (Log m) \<Longrightarrow> adds P w (log m w)"
  by (simp add: adds_iff)

lemma adds_add_effect: "P x \<Longrightarrow> adds P w (add_effect x w)"
  by (simp add: adds_iff)

lemma adds_write_file: "P (WriteFile p d) \<Longrightarrow> adds P w (write_file p d w)"
  by (simp add: adds_iff write_file_def)

lemma adds_subprocess_call: "P (Exec c) \<Longrightarrow> adds P w (snd (subprocess_call e c w))"
  by (simp add: adds_iff)

lemma adds_check_output: "P (Exec c) \<Longrightarrow> adds P w (snd (check_output e c w))"
  by (simp add: adds_iff check_output_def split: prod.splits)

lemma permits_log: "permits g e P \<Longrightarrow> P (Log m)"
  and permits_input: "permits g e P \<Longrightarrow> P (Input s)"
  and permits_du: "permits g e P \<Longrightarrow> P (Exec (Argv [''du'', ''-sh'', p]))"
  and permits_out_dir: "permits g e P \<Longrightarrow> P (Mkdir (OUT_DIR g))"
  and permits_exec: "permits g e P \<Longrightarrow> DRY_RUN g = 0 \<Longrightarrow> P (Exec c)"
  and permits_write: "permits g e P \<Longrightarrow> DRY_RUN g = 0 \<Longrightarrow> P (WriteFile q d)"
  and permits_remove: "permits g e P \<Longrightarrow> DRY_RUN g = 0 \<Longrightarrow> P (RemoveFile q)"
  and permits_mkdir: "permits g e P \<Longrightarrow> DRY_RUN g = 0 \<Longrightarrow> P (Mkdir q)"
  by (simp_all add: permits_def)

lemma adds_run_or_echo:
  assumes "permits g e P"
  shows "adds P w (snd (run_or_echo g e c w))"
proof (cases "DRY_RUN g \<noteq> 0")
  case True
  then show ?thesis using permits_log[OF assms] by (simp add: run_or_echo_def adds_log)
next
  case False
  obtain rc w' where s: "subprocess_call e (Shell c) w = (rc, w')"
    by (cases "subprocess_call e (Shell c) w")
  have a: "adds P w w'"
    using adds_subprocess_call[of P "Shell c" w e] s permits_exec[OF assms] False by simp
  show ?thesis
    using False s a permits_log[OF assms]
    by (cases rc) (auto simp: run_or_echo_def intro: adds_trans adds_log)
qed

lemma radds_run_or_exit:
  assumes "permits g e P"
  shows "radds P id w (run_or_exit g e c msg w)"
  using adds_run_or_echo[OF assms, of w c]
  by (auto simp: run_or_exit_def split: prod.splits)

lemma radds_py_input:
  assumes "\<And>s. P (Input s)"
  shows "radds P snd w (py_input prompt w)"
  using assms by (auto simp: py_input_def adds_iff split: list.splits)

lemma radds_mkdir_p:
  assumes "P (Mkdir p)"
  shows "radds P id w (mkdir_p p w)"
  using assms by (auto simp: mkdir_p_def adds_iff)

lemma radds_seven_password_args:
  assumes "permits g e P"
  shows "radds P snd w (seven_password_args g prompt w)"
  unfolding seven_password_args_def
  using permits_input[OF assms]
  by (auto intro!: radds_bind radds_py_input)

lemma subprocess_call_adds:
  "subprocess_call e c w = (rc, w1) \<Longrightarrow> P (Exec c) \<Longrightarrow> adds P w w1"
  using adds_subprocess_call[of P c w e] by simp

lemma radds_create_archive:
  assumes "permits g e P"
  shows "radds P snd w (create_archive g e paths patterns w)"
proof -
  note L = permits_log[OF assms]
  have seven: "radds P snd w
     (try_bind (seven_password_args g prompt w) (\<lambda>(pw_args, w1).
        try_bind (run_or_exit g e (c pw_args) msg w1) (\<lambda>w2. Inr (tmpfile, w2))))"
    for prompt c msg and tmpfile :: string
    by (auto intro!: radds_bind[where ?wof1.0=snd] radds_bind[where ?wof1.0=id]
          radds_seven_password_args[OF assms] radds_run_or_exit[OF assms])
  have simple: "radds P snd w (try_bind (run_or_exit g e c msg w) (\<lambda>w1. Inr (tmpfile, w1)))"
    for c msg and tmpfile :: string
    by (auto intro!: radds_bind[where ?wof1.0=id] radds_run_or_exit[OF assms])
  have zip: "radds P snd w
     (if DRY_RUN g \<noteq> 0 then Inr (tmpfile, snd (run_or_echo g e c w))
      else case subprocess_call e (Shell c) w of
             (None, w1) \<Rightarrow> Inl (OSError c, w1)
           | (Some rc, w1) \<Rightarrow>
               if rc \<noteq> 0 then Inl (SystemExit ''Gagal membuat ZIP'', w1)
               else (case subprocess_call e (Argv [''zip'', ''-T'', tmpfile]) w1 of
                       (rc2, w2) \<Rightarrow>
                         Inr (tmpfile, if rc2 = Some 0 then log ZipVerifyOk w2
                                       else log ZipCorrupt w2)))"
    for c tmpfile
  proof (cases "DRY_RUN g \<noteq> 0")
    case True
    then show ?thesis using adds_run_or_echo[OF assms, of w c] by simp
  next
    case False
    note X = permits_exec[OF assms]
    obtain r1 w1 where s1: "subprocess_call e (Shell c) w = (r1, w1)"
      by (cases "subprocess_call e (Shell c) w")
    have a1: "adds P w w1" using subprocess_call_adds[OF s1] X False by simp
    obtain r2 w2 where s2: "subprocess_call e (Argv [''zip'', ''-T'', tmpfile]) w1 = (r2, w2)"
      by (cases "subprocess_call e (Argv [''zip'', ''-T'', tmpfile]) w1")
    have a2: "adds P w w2" using subprocess_call_adds[OF s2] X False a1 adds_trans by blast
    have a3: "adds P w (log m w2)" for m using a2 adds_log[of P m w2] L adds_trans by blast
    show ?thesis using False s1 s2 a1 a3 by (cases r1) auto
  qed
  have tgz: "radds P snd w
     (try_bind (run_or_exit g e c msg w) (\<lambda>w1.
        if DRY_RUN g = 0 \<and> command_exists e ''gzip''
        then (case subprocess_call e (Argv [''gzip'', ''-t'', tmpfile]) w1 of
                (None, w2) \<Rightarrow> Inl (OSError ''gzip'', w2)
              | (Some rc, w2) \<Rightarrow> Inr (tmpfile, if rc \<noteq> 0 then log GzipCorrupt w2 else w2))
        else Inr (tmpfile, w1)))"
    for c msg and tmpfile :: string
  proof (rule radds_bind[where ?wof1.0=id, OF radds_run_or_exit[OF assms]])
    fix w1
    show "radds P snd (id w1)
        (if DRY_RUN g = 0 \<and> command_exists e ''gzip''
         then (case subprocess_call e (Argv [''gzip'', ''-t'', tmpfile]) w1 of
                 (None, w2) \<Rightarrow> Inl (OSError ''gzip'', w2)
               | (Some rc, w2) \<Rightarrow> Inr (tmpfile, if rc \<noteq> 0 then log GzipCorrupt w2 else w2))
         else Inr (tmpfile, w1))"
    proof (cases "DRY_RUN g = 0 \<and> command_exists e ''gzip''")
      case False
      then show ?thesis by auto
    next
      case True
      obtain r2 w2 where s2: "subprocess_call e (Argv [''gzip'', ''-t'', tmpfile]) w1 = (r2, w2)"
        by (cases "subprocess_call e (Argv [''gzip'', ''-t'', tmpfile]) w1")
      have a2: "adds P w1 w2" using subprocess_call_adds[OF s2] permits_exec[OF assms] True by simp
      have a3: "adds P w1 (log m w2)" for m using a2 adds_log[of P m w2] L adds_trans by blast
      show ?thesis using True s2 a2 a3 by (cases r2) auto
    qed
  qed
  show ?thesis
    unfolding create_archive_def Let_def
    by (simp add: seven simple zip tgz)
qed

lemma radds_gpg_encrypt:
  assumes "permits g e P"
  shows "radds P snd w (gpg_encrypt g e tmpfile w)"
  unfolding gpg_encrypt_def Let_def
  by (auto intro!: radds_bind[where ?wof1.0=id] radds_run_or_exit[OF assms])

lemma adds_split_loop:
  assumes "\<And>p d. P (WriteFile p d)"
  shows "adds P w (snd (split_loop c prefix idx rest parts w))"
proof (induction c prefix idx rest parts w rule: split_loop.induct)
  case (1 c prefix idx rest parts w)
  show ?case
  proof (cases "py_read c rest = []")
    case True
    then show ?thesis by (subst split_loop.simps) simp
  next
    case False
    let ?chunk = "py_read c rest"
    let ?out = "prefix @ fmt_03d idx"
    have "adds P (write_file ?out ?chunk w)
            (snd (split_loop c prefix (idx + 1) (drop (length ?chunk) rest) (parts @ [?out])
                   (write_file ?out ?chunk w)))"
      using "1.IH"[OF refl False refl] .
    then have "adds P w (snd (split_loop c prefix (idx + 1) (drop (length ?chunk) rest)
                   (parts @ [?out]) (write_file ?out ?chunk w)))"
      using adds_write_file[of P ?out ?chunk w] assms adds_trans by blast
    then show ?thesis using False by (subst split_loop.simps) (simp add: Let_def)
  qed
qed

lemma radds_do_python_split:
  assumes "\<And>p d. P (WriteFile p d)"
  shows "radds P snd w (do_python_split path prefix c w)"
  using adds_split_loop[of P w c prefix 0 _ "[]"] assms
  by (cases "split_loop c prefix 0 (the (files w path)) [] w")
     (auto simp: do_python_split_def split: option.splits)

lemma radds_split_stage:
  assumes "permits g e P"
  shows "radds P snd w (split_stage g e po w)"
proof -
  note L = permits_log[OF assms]
  show ?thesis
  proof (cases "splits (SPLIT_SIZE g)")
    case False
    then show ?thesis using L by (simp add: split_stage_no_split adds_log)
  next
    case True
    then obtain b where b: "parse_split_size (SPLIT_SIZE g) = Some b" "b \<noteq> 0" "SPLIT_SIZE g \<noteq> []"
      by (auto simp: splits_def parse_split_size_def split: option.splits if_splits)
    let ?w1 = "log (SplitStart (SPLIT_SIZE g)) w"
    have a1: "adds P w ?w1" using L by (simp add: adds_log)
    show ?thesis
    proof (cases "DRY_RUN g \<noteq> 0")
      case True
      have "adds P ?w1 (snd (run_or_echo g e c ?w1))" for c by (rule adds_run_or_echo[OF assms])
      then have "adds P w (snd (run_or_echo g e c ?w1))" for c using a1 adds_trans by blast
      then show ?thesis using True b by (simp add: split_stage_def Let_def)
    next
      case False
      have W: "\<And>p d. P (WriteFile p d)" using permits_write[OF assms] False by simp
      let ?m = "do_python_split po (po @ ''.part.'') b ?w1"
      let ?f = "\<lambda>(parts, w2).
                  let (fs, w3) =
                        (if KEEP_AFTER_SPLIT g \<noteq> 0
                         then (parts @ [po], log SplitKept w2)
                         else if RM_AFTER_SPLIT g \<noteq> 0
                         then (parts, case os_remove po w2 of
                                        Some w' \<Rightarrow> log SplitWholeRemoved w'
                                      | None \<Rightarrow> w2)
                         else (parts @ [po], w2))
                  in Inr (fs, log (SplitParts (po @ ''.part.'')) w3)"
      have r: "split_stage g e po w = try_bind ?m ?f"
        using False b by (simp add: split_stage_def Let_def)
      have rm: "adds P w2 (case os_remove po w2 of Some w' \<Rightarrow> log SplitWholeRemoved w' | None \<Rightarrow> w2)"
        for w2
        using permits_remove[OF assms, of po] False L
        by (auto simp: os_remove_def adds_iff)
      have "radds P snd ?w1 (try_bind ?m ?f)"
      proof (rule radds_bind[where ?wof1.0=snd, OF radds_do_python_split[of P, OF W]])
        fix x :: "string list \<times> world"
        obtain parts w2 where x: "x = (parts, w2)" by (cases x)
        have "adds P w2 (log (SplitParts (po @ ''.part.'')) w3)" if "adds P w2 w3" for w3
          using that adds_log[of P _ w3] L adds_trans by blast
        then show "radds P snd (snd x) (?f x)"
          using rm[of w2] adds_log[of P SplitKept w2] L by (auto simp: x Let_def)
      qed
      then show ?thesis unfolding r using a1 radds_trans by blast
    qed
  qed
qed

lemma adds_checksum_one:
  assumes "permits g e P" "DRY_RUN g = 0"
  shows "adds P w (checksum_one g e f w)"
proof -
  note L = permits_log[OF assms(1)]
  note W = permits_write[OF assms]
  note M = permits_mkdir[OF assms]
  show ?thesis
  proof (cases "files w f")
    case None
    then show ?thesis using L by (simp add: checksum_one_def adds_log)
  next
    case (Some data)
    let ?dir = "if CHECKSUM_DIR g \<noteq> [] then CHECKSUM_DIR g else OUT_DIR g"
    show ?thesis
    proof (cases "mkdir_p ?dir w")
      case (Inl a)
      then show ?thesis using Some L by (simp add: checksum_one_def Let_def adds_log)
    next
      case (Inr w1)
      then have "effects w1 = effects w @ [Mkdir ?dir]"
        by (auto simp: mkdir_p_def split: if_splits)
      then have "adds P w w1" using M[of ?dir] by (simp add: adds_iff)
      moreover have "adds P w1 (log m (write_file p d w1))" for m p d
        using L W by (simp add: adds_iff write_file_def)
      ultimately have "adds P w (log m (write_file p d w1))" for m p d
        using adds_trans by blast
      then show ?thesis using Some Inr by (simp add: checksum_one_def Let_def)
    qed
  qed
qed

lemma adds_foldl:
  assumes "\<And>w x. adds P w (f w x)"
  shows "adds P w (foldl f w xs)"
proof (induction xs arbitrary: w)
  case Nil
  then show ?case by simp
next
  case (Cons x xs)
  then show ?case using assms[of w x] adds_trans by fastforce
qed

lemma adds_checksum_stage:
  assumes "permits g e P"
  shows "adds P w (checksum_stage g e fs w)"
proof (cases "DRY_RUN g = 0")
  case True
  then show ?thesis using adds_foldl[of P "\<lambda>w f. checksum_one g e f w" w fs]
      adds_checksum_one[OF assms True]
    by (simp add: checksum_stage_def)
next
  case False
  have "adds P w (log m w)" for m w using permits_log[OF assms] by (simp add: adds_log)
  then show ?thesis
    using False adds_foldl[of P _ w fs] by (simp add: checksum_stage_def Let_def)
qed

lemma permits_summary:
  "permits g e P \<Longrightarrow> MAKE_SUMMARY g \<noteq> 0 \<Longrightarrow> P (Mkdir (sum_dir g))"
  "permits g e P \<Longrightarrow> MAKE_SUMMARY g \<noteq> 0 \<Longrightarrow> P (WriteFile (summary_path g e) d)"
  by (simp_all add: permits_def)

lemma radds_summary_stage:
  assumes "permits g e P"
  shows "radds P snd w (summary_stage g e po fs w)"
proof (cases "MAKE_SUMMARY g \<noteq> 0")
  case False
  then show ?thesis by (simp add: summary_stage_def Let_def)
next
  case True
  note L = permits_log[OF assms]
  note S = permits_summary[OF assms True]
  have sp: "(if endswith (path_join e (sum_dir g) (BASE g @ ''.summary.json'')) ''}.json}''
             then butlast (path_join e (sum_dir g) (BASE g @ ''.summary.json''))
             else path_join e (sum_dir g) (BASE g @ ''.summary.json'')) = summary_path g e"
    by (simp add: summary_path_def Let_def)
  have m: "radds P id w (mkdir_p (sum_dir g) w)" using S(1) by (rule radds_mkdir_p)
  have "radds P snd w (try_bind (mkdir_p (sum_dir g) w) (\<lambda>w1.
          Inr (set_str ''SUMMARY_JSON'' (summary_path g e) g,
               log (SummaryWritten (summary_path g e)) (write_file (summary_path g e) (d w1) w1))))"
    for d
    using L S(2)
    by (auto intro!: radds_bind[where ?wof1.0=id, OF m] simp: adds_iff write_file_def)
  then show ?thesis using True
    by (simp add: summary_stage_def Let_def sum_dir_def[symmetric] sp)
qed

lemma adds_dry_run_items:
  assumes "permits g e P"
  shows "adds P w (dry_run_items e paths w)"
proof (induction paths arbitrary: w)
  case Nil
  then show ?case by simp
next
  case (Cons p ps)
  obtain out w1 where c: "check_output e (Argv [''du'', ''-sh'', p]) w = (out, w1)"
    by (cases "check_output e (Argv [''du'', ''-sh'', p]) w")
  have "adds P w w1"
    using adds_check_output[of P "Argv [''du'', ''-sh'', p]" w e] permits_du[OF assms] c by simp
  then have "adds P w (log m w1)" for m
    using adds_log[of P m w1] permits_log[OF assms] adds_trans by blast
  then show ?case using c Cons.IH adds_trans by (simp add: Let_def) blast
qed

lemma adds_dry_run_report:
  assumes "permits g e P"
  shows "adds P w (dry_run_report g e paths patterns w)"
proof -
  have "adds P w (log m1 (log m2 (log m3 (log m4 (log m5 w)))))" for m1 m2 m3 m4 m5
    using permits_log[OF assms] by (simp add: adds_iff)
  then show ?thesis
    unfolding dry_run_report_def using adds_dry_run_items[OF assms] adds_trans by blast
qed

lemma permits_set_log_file:
  "permits (set_str ''LOG_FILE'' v g) e P = permits g e P"
  by (simp add: permits_def sum_dir_def summary_path_def)

lemma radds_make_archive:
  assumes "permits g e P"
  shows "radds P (\<lambda>(x, g', w'). w') w (make_archive g e paths w)"
proof (cases "paths = []")
  case True
  then show ?thesis by (simp add: make_archive_def)
next
  case False
  let ?g1 = "set_str ''LOG_FILE'' (path_join e (OUT_DIR g) (BASE g @ ''.log'')) g"
  note p1 = assms[folded permits_set_log_file[of "path_join e (OUT_DIR g) (BASE g @ ''.log'')" g e P]]
  note L = permits_log[OF assms]
  have m: "radds P id w (mkdir_p (OUT_DIR g) w)"
    using permits_out_dir[OF assms] by (rule radds_mkdir_p)
  have pre: "adds P w0 (if DRY_RUN ?g1 \<noteq> 0
                        then dry_run_report ?g1 e paths pats (log (LogFileIs (LOG_FILE ?g1)) w0)
                        else log (LogFileIs (LOG_FILE ?g1)) w0)" for w0 pats
  proof -
    let ?w = "log (LogFileIs (LOG_FILE ?g1)) w0"
    have a: "adds P w0 ?w" using L by (simp add: adds_log del: set_str_simps)
    have "adds P ?w (dry_run_report ?g1 e paths pats ?w)" by (rule adds_dry_run_report[OF p1])
    then have "adds P w0 (dry_run_report ?g1 e paths pats ?w)" using a adds_trans by blast
    then show ?thesis using a by (simp del: set_str_simps)
  qed
  show ?thesis
    unfolding make_archive_def Let_def using False
    apply (simp only: if_False)
    apply (rule radds_bind[where ?wof1.0=id, OF m])
    apply (simp only: id_apply)
    apply (rule radds_trans[OF pre])
    apply (rule radds_bind[where ?wof1.0=snd, OF radds_create_archive[OF p1]])
    apply (rename_tac y, case_tac y, simp only: snd_conv prod.case)
    apply (rule radds_bind[where ?wof1.0=snd, OF radds_gpg_encrypt[OF p1]])
    apply (rename_tac y, case_tac y, simp only: snd_conv prod.case)
    apply (rule radds_bind[where ?wof1.0=snd, OF radds_split_stage[OF p1]])
    apply (rename_tac y, case_tac y, simp only: snd_conv prod.case)
    apply (rule radds_trans[OF adds_checksum_stage[OF p1]])
    apply (rule radds_bind[where ?wof1.0=snd, OF radds_summary_stage[OF p1]])
    apply (rename_tac y, case_tac y, simp only: snd_conv prod.case radds_simps adds_refl)
    done
qed

subsection \<open>Dry-run mode\<close>

lemma permits_dry:
  assumes "DRY_RUN g \<noteq> 0"
  shows "permits g e (dry_archive_effect g e)"
  using assms by (simp add: permits_def dry_archive_effect_def is_du_def)

lemma radds_upload_files_dry:
  assumes "DRY_RUN g \<noteq> 0"
  shows "radds is_log snd w (upload_files e fs (g, w))"
  using assms
proof (induction fs arbitrary: g w)
  case Nil
  then show ?case by simp
next
  case (Cons f fs)
  show ?case
  proof (cases "upload_tries g")
    case None
    then have "do_upload_one g e f w = Inl (ValueError (UPLOAD_RETRY g), w)"
      by (simp add: do_upload_one_def)
    then show ?thesis using Cons.prems by (simp add: try_bind_def)
  next
    case (Some tries)
    obtain rc w1 d1 where u: "do_upload_one g e f w = Inr (rc, w1)" "effects w1 = effects w @ d1"
        "list_all is_log d1"
      using do_upload_one_trace[OF Some, of e f w] Cons.prems by blast
    let ?g1 = "if rc \<noteq> 0 then set_str ''FINAL_STATUS'' ''failure'' g else g"
    have a: "adds is_log w w1" using u(2,3) by (auto simp: adds_iff)
    have "DRY_RUN ?g1 \<noteq> 0" using Cons.prems by simp
    then have "radds is_log snd w1 (upload_files e fs (?g1, w1))" by (rule Cons.IH)
    then have "radds is_log snd w (upload_files e fs (?g1, w1))" using a radds_trans by blast
    then show ?thesis using u(1) Cons.prems by (simp add: try_bind_def)
  qed
qed

lemma adds_notify_target_dry:
  assumes "DRY_RUN g \<noteq> 0"
  shows "adds is_log w (notify_target g e penv ev st pr tgt w)"
proof -
  have r: "adds is_log w (snd (run_or_echo g e c w))" for c
    using run_or_echo_trace[of g e c w] assms by (auto simp: adds_iff)
  have l: "adds is_log w (log m w)" for m by (simp add: adds_iff is_log_def)
  have t: "adds is_log w (notify_telegram g e st (BASE g) pr w)"
    using r l by (simp add: notify_telegram_def Let_def)
  have m: "adds is_log w (notify_email g e st (BASE g) pr (UPLOAD_TARGET g) w)"
    using r l by (simp add: notify_email_def Let_def)
  show ?thesis
    using t m l assms by (auto simp: notify_target_def Let_def split: option.splits)
qed

lemma adds_run_plugins_dry:
  assumes "DRY_RUN g \<noteq> 0"
  shows "\<exists>d. new_effects w (run_plugins g e ev st pr fs w) = RunPlugins ev st # d \<and> list_all is_log d"
proof -
  let ?w0 = "add_effect (RunPlugins ev st) w"
  have "adds is_log ?w0 (run_plugins g e ev st pr fs w)"
    unfolding run_plugins_def Let_def
    by (rule adds_foldl) (rule adds_notify_target_dry[OF assms])
  then obtain d where "effects (run_plugins g e ev st pr fs w) = effects ?w0 @ d" "list_all is_log d"
    by (auto simp: adds_iff)
  then show ?thesis by (simp add: new_effects_def)
qed

text \<open>
  Claim C8, as the code has it. In dry-run mode \<open>make_archive\<close>, up to its return or to
  the exception that ends it, runs no archiver, no encryption and no split, writes no chunk
  and no checksum file and removes nothing: all it does is log, prompt for a password, probe
  sizes with \<open>du -sh\<close>, create the output directory and, when a summary is asked for,
  create the summary directory and write the summary file. The upload stage only logs, and
  so does \<open>run_plugins\<close> after it is entered.
\<close>

theorem dry_run_effects:
  assumes "DRY_RUN g \<noteq> 0"
  shows "list_all (dry_archive_effect g e) (new_effects w (archive_world (make_archive g e paths w)))
       \<and> list_all is_log (new_effects w (final_world (upload_stage e fs (g, w))))
       \<and> hd (new_effects w (run_plugins g e ev st primary fs w)) = RunPlugins ev st
       \<and> list_all is_log (tl (new_effects w (run_plugins g e ev st primary fs w)))"
proof -
  have "radds (dry_archive_effect g e) (\<lambda>(x, g', w'). w') w (make_archive g e paths w)"
    by (rule radds_make_archive[OF permits_dry[OF assms]])
  then have "adds (dry_archive_effect g e) w (archive_world (make_archive g e paths w))"
    by (auto simp: radds_def archive_world_def split: sum.splits prod.splits)
  then have a: "list_all (dry_archive_effect g e)
                  (new_effects w (archive_world (make_archive g e paths w)))"
    by (rule adds_new)
  have "radds is_log snd w (upload_stage e fs (g, w))"
    using radds_upload_files_dry[of "set_str ''FINAL_STATUS'' ''success'' g" w e fs] assms
    by (simp add: upload_stage_def Let_def)
  then have "adds is_log w (final_world (upload_stage e fs (g, w)))"
    by (auto simp: radds_def final_world_def split: sum.splits prod.splits)
  then have b: "list_all is_log (new_effects w (final_world (upload_stage e fs (g, w))))"
    by (rule adds_new)
  obtain d where "new_effects w (run_plugins g e ev st primary fs w) = RunPlugins ev st # d"
      "list_all is_log d"
    using adds_run_plugins_dry[OF assms] by blast
  then show ?thesis using a b by simp
qed

lemma dry_flag: "DRY_RUN dry_globals \<noteq> 0"
  by (simp add: dry_globals_def)

text \<open>
  Claim C8 on a dry run of the example settings with a summary asked for: fourteen
  effects, all of the kinds listed.
\<close>

theorem dry_run_effects_witness:
  "DRY_RUN dry_globals \<noteq> 0
   \<and> list_all (dry_archive_effect dry_globals (ex_env 0))
        (new_effects ex_world (archive_world (make_archive dry_globals (ex_env 0) [''/data''] ex_world)))
   \<and> list_all is_log
        (new_effects ex_world (final_world (upload_stage (ex_env 0) [''/out/b.zip''] (dry_globals, ex_world))))
   \<and> length (new_effects ex_world (archive_world (make_archive dry_globals (ex_env 0) [''/data''] ex_world))) = 14"
proof -
  have "length (effects (archive_world (make_archive dry_globals (ex_env 0) [''/data''] ex_world))) = 14"
    by (simp add: arch_defs ex_defs dry_globals_def archive_world_def dry_run_report_def
        check_output_def write_file_def basename_def first_field_def ascii_space_def)
  then have "length (new_effects ex_world (archive_world (make_archive dry_globals (ex_env 0) [''/data''] ex_world))) = 14"
    by (simp add: new_effects_def ex_world_def empty_world_def)
  then show ?thesis
    using dry_run_effects[OF dry_flag, of "ex_env 0" ex_world "[''/data'']" "[''/out/b.zip'']"] dry_flag
    by simp
qed

text \<open>
  Claim C8 as stated allows no change of the file system in dry-run mode. A dry run with
  \<open>MAKE_SUMMARY=1\<close> creates the output directory, which did not exist, and writes the
  summary file.
\<close>

theorem dry_run_writes_counterexample:
  "''/out'' \<notin> dirs ex_world \<and> files ex_world ''/out/b.summary.json'' = None
   \<and> DRY_RUN dry_globals = 1
   \<and> ''/out'' \<in> dirs (archive_world (make_archive dry_globals (ex_env 0) [''/data''] ex_world))
   \<and> files (archive_world (make_archive dry_globals (ex_env 0) [''/data''] ex_world))
        ''/out/b.summary.json'' = Some []
   \<and> Mkdir ''/out'' \<in> set (effects (archive_world (make_archive dry_globals (ex_env 0) [''/data''] ex_world)))
   \<and> WriteFile ''/out/b.summary.json'' []
        \<in> set (effects (archive_world (make_archive dry_globals (ex_env 0) [''/data''] ex_world)))"
  by (simp add: arch_defs ex_defs dry_globals_def archive_world_def dry_run_report_def
      check_output_def write_file_def basename_def first_field_def ascii_space_def endswith_def)


subsection \<open>One notification dispatch per run\<close>
















end
